theory Spec2Isabelle
  imports Main "HOL-Library.Word" "HOL-Library.Monad_Syntax"
begin

unbundle bit_operations_syntax

section \<open>Sparse binding in anv (src/intel/vulkan/anv\_sparse.c)\<close>

text \<open>
  A shallow embedding of \<^verbatim>\<open>anv_sparse.c\<close>. Every function of the file is a HOL function of
  the same name. A call that does not return normally has the value \<open>None\<close>: an integer
  division by zero traps, a failed \<^verbatim>\<open>assert\<close> aborts (in a build without \<^verbatim>\<open>NDEBUG\<close>), and a loop
  may run forever. The \<^verbatim>\<open>VkResult\<close> error codes are ordinary return values.

  Each function that contains an \<^verbatim>\<open>assert\<close> takes the flag \<open>ndebug\<close>: with \<open>ndebug = True\<close> the
  assertions are compiled out (a release build), with \<open>ndebug = False\<close> they are checked.
\<close>

subsection \<open>Machine arithmetic\<close>

text \<open>
  Unsigned C integers are natural numbers; the wrap-around of \<^verbatim>\<open>uint32_t\<close> and \<^verbatim>\<open>uint64_t\<close>
  arithmetic is written out with \<open>u32\<close> and \<open>u64\<close>. A chain of unsigned multiplications or
  additions of one width is reduced once at its end, which is the same value modulo \<open>2 ^ w\<close>.
  \<^verbatim>\<open>int32_t\<close> values are integers.
\<close>

definition u32 :: "nat \<Rightarrow> nat" where
  "u32 n = n mod 2 ^ 32"

definition u64 :: "nat \<Rightarrow> nat" where
  "u64 n = n mod 2 ^ 64"

text \<open>Conversion of an \<^verbatim>\<open>int32_t\<close> to \<^verbatim>\<open>uint32_t\<close>.\<close>

definition to_u32 :: "int \<Rightarrow> nat" where
  "to_u32 i = nat (i mod 2 ^ 32)"

text \<open>Unsigned division; the divisor zero traps.\<close>

definition udiv :: "nat \<Rightarrow> nat \<Rightarrow> nat option" where
  "udiv a b = (if b = 0 then None else Some (a div b))"

text \<open>Signed division of C, which truncates towards zero; the divisor zero traps.\<close>

definition sdiv_c :: "int \<Rightarrow> int \<Rightarrow> int option" where
  "sdiv_c a b = (if b = 0 then None else Some (sgn a * sgn b * (\<bar>a\<bar> div \<bar>b\<bar>)))"

text \<open>\<^verbatim>\<open>assert(c)\<close>: nothing when assertions are compiled out, otherwise an abort unless \<open>c\<close>.\<close>

definition c_assert :: "bool \<Rightarrow> bool \<Rightarrow> unit option" where
  "c_assert ndebug c = (if ndebug \<or> c then Some () else None)"

text \<open>
  Modelled from the spec: the macro \<^verbatim>\<open>ANV_SPARSE_BLOCK_SIZE\<close> of \<^verbatim>\<open>anv_private.h\<close>, the binding
  granularity constant, 64 KiB.
\<close>

definition ANV_SPARSE_BLOCK_SIZE :: nat where
  "ANV_SPARSE_BLOCK_SIZE = 65536"

text \<open>
  Modelled from the spec: \<^verbatim>\<open>ALIGN_NPOT\<close> of \<^verbatim>\<open>util/u_math.h\<close>, which rounds a value up to a
  multiple of an alignment that need not be a power of two. The result is stored in a
  \<^verbatim>\<open>uint32_t\<close> field here.
\<close>

definition ALIGN_NPOT :: "nat \<Rightarrow> nat \<Rightarrow> nat option" where
  "ALIGN_NPOT v a = do { q \<leftarrow> udiv (v + a - 1) a; Some (u32 (q * a)) }"

subsection \<open>Vulkan and ISL data\<close>

type_synonym VkFlags = "32 word"

text \<open>The flag bits that the file tests, with their values in the Vulkan headers.\<close>

definition VK_IMAGE_CREATE_SPARSE_BINDING_BIT :: VkFlags where
  "VK_IMAGE_CREATE_SPARSE_BINDING_BIT = 1"

definition VK_IMAGE_CREATE_SPARSE_RESIDENCY_BIT :: VkFlags where
  "VK_IMAGE_CREATE_SPARSE_RESIDENCY_BIT = 2"

definition VK_IMAGE_ASPECT_COLOR_BIT :: VkFlags where
  "VK_IMAGE_ASPECT_COLOR_BIT = 1"

definition VK_IMAGE_ASPECT_DEPTH_BIT :: VkFlags where
  "VK_IMAGE_ASPECT_DEPTH_BIT = 2"

definition VK_IMAGE_ASPECT_STENCIL_BIT :: VkFlags where
  "VK_IMAGE_ASPECT_STENCIL_BIT = 4"

definition VK_SAMPLE_COUNT_1_BIT :: VkFlags where
  "VK_SAMPLE_COUNT_1_BIT = 1"

definition VK_SPARSE_MEMORY_BIND_METADATA_BIT :: VkFlags where
  "VK_SPARSE_MEMORY_BIND_METADATA_BIT = 1"

definition VK_SPARSE_IMAGE_FORMAT_SINGLE_MIPTAIL_BIT :: VkFlags where
  "VK_SPARSE_IMAGE_FORMAT_SINGLE_MIPTAIL_BIT = 1"

definition VK_SPARSE_IMAGE_FORMAT_NONSTANDARD_BLOCK_SIZE_BIT :: VkFlags where
  "VK_SPARSE_IMAGE_FORMAT_NONSTANDARD_BLOCK_SIZE_BIT = 4"

text \<open>\<^verbatim>\<open>__builtin_popcount\<close> on a 32-bit mask.\<close>

definition popcount :: "VkFlags \<Rightarrow> nat" where
  "popcount m = length (filter (bit m) [0..<32])"

datatype VkResult =
    VK_SUCCESS
  | VK_ERROR_OUT_OF_DEVICE_MEMORY
  | VK_ERROR_UNKNOWN
  | VK_ERROR_FORMAT_NOT_SUPPORTED
  | VK_ERROR_FEATURE_NOT_PRESENT

datatype VkImageType = VK_IMAGE_TYPE_1D | VK_IMAGE_TYPE_2D | VK_IMAGE_TYPE_3D

datatype VkImageTiling = VK_IMAGE_TILING_OPTIMAL | VK_IMAGE_TILING_LINEAR

text \<open>\<^verbatim>\<open>VkExtent3D\<close> has three \<^verbatim>\<open>uint32_t\<close> fields, \<^verbatim>\<open>VkOffset3D\<close> three \<^verbatim>\<open>int32_t\<close> fields.\<close>

record VkExtent3D =
  width :: nat
  height :: nat
  depth :: nat

record VkOffset3D =
  off_x :: int
  off_y :: int
  off_z :: int

text \<open>The tilings of \<^verbatim>\<open>enum isl_tiling\<close> (\<^verbatim>\<open>isl.h\<close>).\<close>

datatype isl_tiling =
    ISL_TILING_LINEAR
  | ISL_TILING_W
  | ISL_TILING_X
  | ISL_TILING_Y0
  | ISL_TILING_SKL_Yf
  | ISL_TILING_SKL_Ys
  | ISL_TILING_ICL_Yf
  | ISL_TILING_ICL_Ys
  | ISL_TILING_4
  | ISL_TILING_64
  | ISL_TILING_HIZ
  | ISL_TILING_CCS
  | ISL_TILING_GFX12_CCS

text \<open>
  \<^verbatim>\<open>struct isl_format_layout\<close>: the block footprint \<open>bw\<close>, \<open>bh\<close>, \<open>bd\<close> (\<^verbatim>\<open>uint8_t\<close>) and the bits
  per block \<open>bpb\<close> (\<^verbatim>\<open>uint16_t\<close>).
\<close>

record isl_format_layout =
  bw :: nat
  bh :: nat
  bd :: nat
  bpb :: nat

type_synonym isl_format = nat

definition ISL_FORMAT_UNSUPPORTED :: isl_format where
  "ISL_FORMAT_UNSUPPORTED = 65535"

record isl_tile_info =
  logical_extent_el :: VkExtent3D

text \<open>
  \<^verbatim>\<open>struct isl_surf\<close>, with the fields the file reads. The two ISL functions of a surface that
  the file calls are fields as well: \<open>isl_surf_get_tile_info\<close> is the tile that
  \<^verbatim>\<open>isl_surf_get_tile_info(surf, &tile_info)\<close> writes, and
  \<open>isl_surf_get_image_offset_B_tile_sa surf level layer z\<close> is the triple
  \<open>(offset_B, x_offset, y_offset)\<close> that the ISL function of this name writes.
\<close>

record isl_surf =
  format :: isl_format
  tiling :: isl_tiling
  row_pitch_B :: nat
  size_B :: nat
  miptail_start_level :: nat
  isl_surf_get_tile_info :: isl_tile_info
  isl_surf_get_image_offset_B_tile_sa :: "nat \<Rightarrow> nat \<Rightarrow> nat \<Rightarrow> nat \<times> nat \<times> nat"

text \<open>
  The format tables of ISL and anv, which are not part of the file: they are parameters.
\<close>

record anv_format =
  n_planes :: nat
  planes_isl_format :: "nat \<Rightarrow> isl_format"

type_synonym VkFormat = nat

record format_tables =
  isl_format_get_layout :: "isl_format \<Rightarrow> isl_format_layout"
  isl_format_is_yuv :: "isl_format \<Rightarrow> bool"
  vk_format_aspects :: "VkFormat \<Rightarrow> VkFlags"
  anv_get_format :: "VkFormat \<Rightarrow> anv_format option"

record anv_physical_device =
  verx10 :: int
  tables :: format_tables

record VkSparseImageFormatProperties =
  aspectMask :: VkFlags
  imageGranularity :: VkExtent3D
  flags :: VkFlags

subsection \<open>Pixel and element units\<close>

definition vk_offset3d_px_to_el :: "VkOffset3D \<Rightarrow> isl_format_layout \<Rightarrow> VkOffset3D option" where
  "vk_offset3d_px_to_el offset_px layout = do {
     ex \<leftarrow> sdiv_c (off_x offset_px) (int (bw layout));
     ey \<leftarrow> sdiv_c (off_y offset_px) (int (bh layout));
     ez \<leftarrow> sdiv_c (off_z offset_px) (int (bd layout));
     Some \<lparr>off_x = ex, off_y = ey, off_z = ez\<rparr>
   }"

definition vk_extent3d_px_to_el :: "VkExtent3D \<Rightarrow> isl_format_layout \<Rightarrow> VkExtent3D option" where
  "vk_extent3d_px_to_el extent_px layout = do {
     w \<leftarrow> udiv (width extent_px) (bw layout);
     h \<leftarrow> udiv (height extent_px) (bh layout);
     d \<leftarrow> udiv (depth extent_px) (bd layout);
     Some \<lparr>width = w, height = h, depth = d\<rparr>
   }"

definition vk_extent3d_el_to_px :: "VkExtent3D \<Rightarrow> isl_format_layout \<Rightarrow> VkExtent3D" where
  "vk_extent3d_el_to_px extent_el layout =
     \<lparr>width = u32 (width extent_el * bw layout),
      height = u32 (height extent_el * bh layout),
      depth = u32 (depth extent_el * bd layout)\<rparr>"

definition isl_tiling_supports_standard_block_shapes :: "isl_tiling \<Rightarrow> bool" where
  "isl_tiling_supports_standard_block_shapes t \<longleftrightarrow>
     t = ISL_TILING_64 \<or> t = ISL_TILING_ICL_Ys \<or> t = ISL_TILING_SKL_Ys"

subsection \<open>Granularity\<close>

definition std_shape_2d :: "nat \<Rightarrow> VkExtent3D option" where
  "std_shape_2d texel_size =
     (if texel_size = 8 then Some \<lparr>width = 256, height = 256, depth = 1\<rparr>
      else if texel_size = 16 then Some \<lparr>width = 256, height = 128, depth = 1\<rparr>
      else if texel_size = 32 then Some \<lparr>width = 128, height = 128, depth = 1\<rparr>
      else if texel_size = 64 then Some \<lparr>width = 128, height = 64, depth = 1\<rparr>
      else if texel_size = 128 then Some \<lparr>width = 64, height = 64, depth = 1\<rparr>
      else None)"

definition std_shape_3d :: "nat \<Rightarrow> VkExtent3D option" where
  "std_shape_3d texel_size =
     (if texel_size = 8 then Some \<lparr>width = 64, height = 32, depth = 32\<rparr>
      else if texel_size = 16 then Some \<lparr>width = 32, height = 32, depth = 32\<rparr>
      else if texel_size = 32 then Some \<lparr>width = 32, height = 32, depth = 16\<rparr>
      else if texel_size = 64 then Some \<lparr>width = 32, height = 16, depth = 16\<rparr>
      else if texel_size = 128 then Some \<lparr>width = 16, height = 16, depth = 16\<rparr>
      else None)"

text \<open>
  The two inner \<^verbatim>\<open>switch\<close> statements are the tables above; \<open>None\<close> is their \<^verbatim>\<open>default\<close>
  branch. In the \<^verbatim>\<open>default\<close> branches and for a 1-D image the function asserts \<^verbatim>\<open>false\<close> and,
  when assertions are compiled out, goes on with the zero shape.
\<close>

definition anv_sparse_get_standard_image_block_shape ::
  "bool \<Rightarrow> format_tables \<Rightarrow> isl_format \<Rightarrow> VkImageType \<Rightarrow> nat \<Rightarrow> VkExtent3D option" where
  "anv_sparse_get_standard_image_block_shape ndebug tb fmt image_type texel_size = do {
     let layout = isl_format_get_layout tb fmt;
     let zero = \<lparr>width = 0, height = 0, depth = 0\<rparr>;
     block_shape \<leftarrow>
       (case image_type of
          VK_IMAGE_TYPE_1D \<Rightarrow> do { c_assert ndebug False; Some zero }
        | VK_IMAGE_TYPE_2D \<Rightarrow>
            (case std_shape_2d texel_size of
               Some s \<Rightarrow> Some s
             | None \<Rightarrow> do { c_assert ndebug False; Some zero })
        | VK_IMAGE_TYPE_3D \<Rightarrow>
            (case std_shape_3d texel_size of
               Some s \<Rightarrow> Some s
             | None \<Rightarrow> do { c_assert ndebug False; Some zero }));
     Some (vk_extent3d_el_to_px block_shape layout)
   }"

definition anv_sparse_calc_block_shape ::
  "bool \<Rightarrow> anv_physical_device \<Rightarrow> isl_surf \<Rightarrow> VkExtent3D option" where
  "anv_sparse_calc_block_shape ndebug pdevice surf = do {
     let layout = isl_format_get_layout (tables pdevice) (format surf);
     let Bpb = bpb layout div 8;
     let tile_info = isl_surf_get_tile_info surf;
     let block_shape_el =
       \<lparr>width = width (logical_extent_el tile_info),
        height = height (logical_extent_el tile_info),
        depth = depth (logical_extent_el tile_info)\<rparr>;
     let block_shape_px = vk_extent3d_el_to_px block_shape_el layout;
     if tiling surf = ISL_TILING_LINEAR then do {
       elements_per_row \<leftarrow> udiv (row_pitch_B surf) (u32 (width block_shape_el * Bpb));
       rows_per_tile \<leftarrow> udiv ANV_SPARSE_BLOCK_SIZE (u32 (elements_per_row * Bpb));
       c_assert ndebug (u32 (rows_per_tile * elements_per_row * Bpb) = ANV_SPARSE_BLOCK_SIZE);
       Some \<lparr>width = u32 (elements_per_row * bw layout),
             height = u32 (rows_per_tile * bh layout),
             depth = bd layout\<rparr>
     } else Some block_shape_px
   }"

definition anv_sparse_calc_image_format_properties ::
  "bool \<Rightarrow> anv_physical_device \<Rightarrow> VkFlags \<Rightarrow> VkImageType \<Rightarrow> isl_surf \<Rightarrow>
     VkSparseImageFormatProperties option" where
  "anv_sparse_calc_image_format_properties ndebug pdevice aspect vk_image_type surf = do {
     let isl_layout = isl_format_get_layout (tables pdevice) (format surf);
     let bpb' = bpb isl_layout;
     c_assert ndebug (bpb' = 8 \<or> bpb' = 16 \<or> bpb' = 32 \<or> bpb' = 64 \<or> bpb' = 128);
     let Bpb = bpb' div 8;
     granularity \<leftarrow> anv_sparse_calc_block_shape ndebug pdevice surf;
     (is_standard, is_known_nonstandard_format) \<leftarrow>
       (if vk_image_type \<noteq> VK_IMAGE_TYPE_1D then do {
          std_shape \<leftarrow> anv_sparse_get_standard_image_block_shape ndebug (tables pdevice)
                         (format surf) vk_image_type bpb';
          let known = (verx10 pdevice \<ge> 125 \<and> isl_format_is_yuv (tables pdevice) (format surf));
          let std = (width granularity = width std_shape \<and>
                     height granularity = height std_shape \<and>
                     depth granularity = depth std_shape);
          c_assert ndebug (std \<or> known);
          Some (std, known)
        } else Some (False, False));
     let block_size = u32 (width granularity * height granularity * depth granularity * Bpb);
     let wrong_block_size = (block_size \<noteq> ANV_SPARSE_BLOCK_SIZE);
     Some \<lparr>aspectMask = aspect,
           imageGranularity = granularity,
           flags = (if is_standard \<or> is_known_nonstandard_format then 0
                    else VK_SPARSE_IMAGE_FORMAT_NONSTANDARD_BLOCK_SIZE_BIT) OR
                   (if wrong_block_size then VK_SPARSE_IMAGE_FORMAT_SINGLE_MIPTAIL_BIT else 0)\<rparr>
   }"

subsection \<open>Miptail\<close>

text \<open>
  \<^verbatim>\<open>struct anv_sparse_binding_data\<close>, \<^verbatim>\<open>struct anv_bo\<close>, \<^verbatim>\<open>struct anv_device_memory\<close>,
  \<^verbatim>\<open>struct anv_vm_bind\<close> and the bind requests of Vulkan. Where two structures of the source
  have a field of the same name, the field carries a prefix here. A \<^verbatim>\<open>NULL\<close> pointer and
  \<^verbatim>\<open>VK_NULL_HANDLE\<close> are \<open>None\<close>.
\<close>

record anv_sparse_binding_data =
  sparse_address :: nat
  sparse_size :: nat
  vma_heap :: nat

record anv_bo =
  gem_handle :: nat
  bo_size :: nat

record anv_device_memory =
  mem_bo :: anv_bo

datatype anv_vm_bind_op = ANV_VM_BIND | ANV_VM_UNBIND

record anv_vm_bind =
  bind_bo :: "anv_bo option"
  bind_address :: nat
  bind_bo_offset :: nat
  bind_size :: nat
  bind_op :: anv_vm_bind_op

record VkSparseMemoryBind =
  resourceOffset :: nat
  mb_size :: nat
  memory :: "anv_device_memory option"
  memoryOffset :: nat
  mb_flags :: VkFlags

record VkImageSubresource =
  sub_aspectMask :: VkFlags
  mipLevel :: nat
  arrayLayer :: nat

record VkSparseImageMemoryBind =
  subresource :: VkImageSubresource
  img_offset :: VkOffset3D
  img_extent :: VkExtent3D
  img_memory :: "anv_device_memory option"
  img_memoryOffset :: nat
  img_flags :: VkFlags

text \<open>
  \<^verbatim>\<open>struct anv_image\<close>, with what the file reads: \<^verbatim>\<open>vk.array_layers\<close>, \<^verbatim>\<open>vk.mip_levels\<close>,
  \<^verbatim>\<open>disjoint\<close>, the sparse data of \<^verbatim>\<open>bindings[ANV_IMAGE_MEMORY_BINDING_MAIN]\<close>, and for each plane
  \<^verbatim>\<open>primary_surface.isl\<close> and \<^verbatim>\<open>primary_surface.memory_range.offset\<close>. The helpers
  \<^verbatim>\<open>anv_image_aspect_to_plane\<close> and \<^verbatim>\<open>anv_image_aspect_to_binding\<close> of \<^verbatim>\<open>anv_private.h\<close> are
  parameters; the second gives the sparse data of the binding it selects.
\<close>

record anv_image =
  vk_array_layers :: nat
  vk_mip_levels :: nat
  disjoint :: bool
  bindings_main_sparse_data :: anv_sparse_binding_data
  anv_image_aspect_to_binding :: "VkFlags \<Rightarrow> anv_sparse_binding_data"
  anv_image_aspect_to_plane :: "VkFlags \<Rightarrow> nat"
  planes_primary_surface_isl :: "nat \<Rightarrow> isl_surf"
  planes_primary_surface_offset :: "nat \<Rightarrow> nat"

text \<open>
  The four values that \<^verbatim>\<open>anv_sparse_calc_miptail_properties\<close> writes through its pointers.
\<close>

record miptail_properties =
  imageMipTailFirstLod :: nat
  imageMipTailSize :: nat
  imageMipTailOffset :: nat
  imageMipTailStride :: nat

text \<open>
  The function ends in one of three places: it falls through to the first \<^verbatim>\<open>return\<close> with a
  miptail level, its offset and the offset of layer 1, or it jumps to one of the labels
  \<^verbatim>\<open>out_no_miptail\<close> and \<^verbatim>\<open>out_everything_is_miptail\<close>.
\<close>

datatype miptail_exit =
    Fall_through nat nat nat nat
  | Out_no_miptail
  | Out_everything_is_miptail

definition miptail_goto ::
  "bool \<Rightarrow> format_tables \<Rightarrow> anv_image \<Rightarrow> VkFlags \<Rightarrow> miptail_exit option" where
  "miptail_goto ndebug tb img vk_aspect = do {
     c_assert ndebug (popcount vk_aspect = 1);
     let plane = anv_image_aspect_to_plane img vk_aspect;
     let surf = planes_primary_surface_isl img plane;
     let binding_plane_offset = planes_primary_surface_offset img plane;
     let isl_layout = isl_format_get_layout tb (format surf);
     let Bpb = bpb isl_layout div 8;
     let tile_info = isl_surf_get_tile_info surf;
     let tile_size = u32 (width (logical_extent_el tile_info) * Bpb *
                          height (logical_extent_el tile_info) *
                          depth (logical_extent_el tile_info));
     if tile_size \<noteq> ANV_SPARSE_BLOCK_SIZE then Some Out_everything_is_miptail
     else do {
       c_assert ndebug (tiling surf \<noteq> ISL_TILING_LINEAR);
       let (layer1_offset, x_off, y_off) =
         (if vk_array_layers img = 1 then (size_B surf, 0, 0)
          else isl_surf_get_image_offset_B_tile_sa surf 0 1 0);
       if vk_array_layers img \<noteq> 1 \<and> (x_off \<noteq> 0 \<or> y_off \<noteq> 0)
       then Some Out_everything_is_miptail
       else do {
         c_assert ndebug (layer1_offset mod tile_size = 0);
         if \<not> isl_tiling_supports_standard_block_shapes (tiling surf)
         then Some Out_everything_is_miptail
         else do {
           let miptail_first_level = miptail_start_level surf;
           if miptail_first_level \<ge> vk_mip_levels img then Some Out_no_miptail
           else do {
             let (miptail_offset, x_off, y_off) =
               isl_surf_get_image_offset_B_tile_sa surf miptail_first_level 0 0;
             c_assert ndebug (x_off = 0 \<and> y_off = 0);
             c_assert ndebug (miptail_offset mod tile_size = 0);
             Some (Fall_through miptail_first_level tile_size
                     (u64 (binding_plane_offset + miptail_offset)) layer1_offset)
           }
         }
       }
     }
   }"

definition anv_sparse_calc_miptail_properties ::
  "bool \<Rightarrow> format_tables \<Rightarrow> anv_image \<Rightarrow> VkFlags \<Rightarrow> miptail_properties option" where
  "anv_sparse_calc_miptail_properties ndebug tb img vk_aspect = do {
     e \<leftarrow> miptail_goto ndebug tb img vk_aspect;
     let plane = anv_image_aspect_to_plane img vk_aspect;
     let surf = planes_primary_surface_isl img plane;
     let binding_plane_offset = planes_primary_surface_offset img plane;
     Some (case e of
         Fall_through miptail_first_level tile_size miptail_offset layer1_offset \<Rightarrow>
           \<lparr>imageMipTailFirstLod = miptail_first_level,
            imageMipTailSize = tile_size,
            imageMipTailOffset = miptail_offset,
            imageMipTailStride = layer1_offset\<rparr>
       | Out_no_miptail \<Rightarrow>
           \<lparr>imageMipTailFirstLod = vk_mip_levels img,
            imageMipTailSize = 0,
            imageMipTailOffset = 0,
            imageMipTailStride = 0\<rparr>
       | Out_everything_is_miptail \<Rightarrow>
           \<lparr>imageMipTailFirstLod = 0,
            imageMipTailSize = size_B surf,
            imageMipTailOffset = binding_plane_offset,
            imageMipTailStride = 0\<rparr>)
   }"

subsection \<open>The device and the calls into it\<close>

text \<open>
  The kernel backend and the VMA allocator are outside the file. A device carries them as
  functions on a state \<open>'s\<close> of their own: \<open>vm_bind dev s b\<close> is the \<^verbatim>\<open>int\<close> that
  \<^verbatim>\<open>device->kmd_backend->vm_bind(device, 1, &b)\<close> returns and the state it leaves, and
  \<open>anv_vma_free dev s heap addr sz\<close> the state after \<^verbatim>\<open>anv_vma_free\<close>. The world is that state
  together with the list of calls made so far, oldest first.
\<close>

record 's anv_device =
  vm_bind :: "'s \<Rightarrow> anv_vm_bind \<Rightarrow> int \<times> 's"
  anv_vma_free :: "'s \<Rightarrow> nat \<Rightarrow> nat \<Rightarrow> nat \<Rightarrow> 's"
  physical :: anv_physical_device

datatype call = Call_vm_bind anv_vm_bind | Call_vma_free nat nat nat

record 's world =
  calls :: "call list"
  kstate :: 's

definition kmd_vm_bind :: "'s anv_device \<Rightarrow> anv_vm_bind \<Rightarrow> 's world \<Rightarrow> int \<times> 's world" where
  "kmd_vm_bind dev b w =
     (let (rc, s') = vm_bind dev (kstate w) b
      in (rc, \<lparr>calls = calls w @ [Call_vm_bind b], kstate = s'\<rparr>))"

definition vma_free :: "'s anv_device \<Rightarrow> nat \<Rightarrow> nat \<Rightarrow> nat \<Rightarrow> 's world \<Rightarrow> 's world" where
  "vma_free dev heap addr sz w =
     \<lparr>calls = calls w @ [Call_vma_free heap addr sz],
      kstate = anv_vma_free dev (kstate w) heap addr sz\<rparr>"

subsection \<open>Releasing a sparse binding\<close>

text \<open>
  The function takes the binding by pointer; the model returns it next to the result, as the
  function leaves it.
\<close>

definition anv_free_sparse_bindings ::
  "'s anv_device \<Rightarrow> anv_sparse_binding_data \<Rightarrow> 's world \<Rightarrow>
     VkResult \<times> anv_sparse_binding_data \<times> 's world" where
  "anv_free_sparse_bindings dev sparse w =
     (if sparse_address sparse = 0 then (VK_SUCCESS, sparse, w)
      else
        let unbind = \<lparr>bind_bo = None,
                      bind_address = sparse_address sparse,
                      bind_bo_offset = 0,
                      bind_size = sparse_size sparse,
                      bind_op = ANV_VM_UNBIND\<rparr>;
            (ret, w1) = kmd_vm_bind dev unbind w
        in if ret \<noteq> 0 then (VK_ERROR_UNKNOWN, sparse, w1)
           else (VK_SUCCESS, sparse,
                 vma_free dev (vma_heap sparse) (sparse_address sparse) (sparse_size sparse) w1))"

subsection \<open>Opaque binds\<close>

definition vk_bind_to_anv_vm_bind ::
  "bool \<Rightarrow> anv_sparse_binding_data \<Rightarrow> VkSparseMemoryBind \<Rightarrow> anv_vm_bind option" where
  "vk_bind_to_anv_vm_bind ndebug sparse vk_bind = do {
     let anv_bind = \<lparr>bind_bo = None,
                     bind_address = u64 (sparse_address sparse + resourceOffset vk_bind),
                     bind_bo_offset = 0,
                     bind_size = mb_size vk_bind,
                     bind_op = ANV_VM_BIND\<rparr>;
     c_assert ndebug (mb_size vk_bind \<noteq> 0);
     c_assert ndebug (u64 (resourceOffset vk_bind + mb_size vk_bind) \<le> sparse_size sparse);
     (case memory vk_bind of
        None \<Rightarrow> Some anv_bind
      | Some mem \<Rightarrow> do {
          let anv_bind = anv_bind\<lparr>bind_bo := Some (mem_bo mem),
                                   bind_bo_offset := memoryOffset vk_bind\<rparr>;
          c_assert ndebug
            (u64 (memoryOffset vk_bind + mb_size vk_bind) \<le> bo_size (mem_bo mem));
          Some anv_bind
        })
   }"

definition anv_sparse_bind_resource_memory ::
  "bool \<Rightarrow> 's anv_device \<Rightarrow> anv_sparse_binding_data \<Rightarrow> VkSparseMemoryBind \<Rightarrow> 's world \<Rightarrow>
     (VkResult \<times> 's world) option" where
  "anv_sparse_bind_resource_memory ndebug dev sparse vk_bind w = do {
     b \<leftarrow> vk_bind_to_anv_vm_bind ndebug sparse vk_bind;
     let (rc, w') = kmd_vm_bind dev b w;
     if rc \<noteq> 0 then Some (VK_ERROR_OUT_OF_DEVICE_MEMORY, w') else Some (VK_SUCCESS, w')
   }"

subsection \<open>Image binds\<close>

text \<open>
  The local variables that \<^verbatim>\<open>anv_sparse_bind_image_memory\<close> computes before its loops.
\<close>

record bind_locals =
  mip_level :: nat
  array_layer :: nat
  sparse_data :: anv_sparse_binding_data
  surf :: isl_surf
  binding_plane_offset :: nat
  block_shape_el :: VkExtent3D
  bind_offset_el :: VkOffset3D
  bind_extent_el :: VkExtent3D
  block_size_B :: nat
  blocks_per_line :: nat
  line_bind_size :: nat

definition image_bind_locals ::
  "bool \<Rightarrow> 's anv_device \<Rightarrow> anv_image \<Rightarrow> VkSparseImageMemoryBind \<Rightarrow> bind_locals option" where
  "image_bind_locals ndebug dev img req = do {
     let aspect = sub_aspectMask (subresource req);
     c_assert ndebug (popcount aspect = 1);
     c_assert ndebug (img_flags req AND VK_SPARSE_MEMORY_BIND_METADATA_BIT = 0);
     let sparse_data' = (if disjoint img then anv_image_aspect_to_binding img aspect
                         else bindings_main_sparse_data img);
     let plane = anv_image_aspect_to_plane img aspect;
     let surf' = planes_primary_surface_isl img plane;
     let layout = isl_format_get_layout (tables (physical dev)) (format surf');
     block_shape_px \<leftarrow> anv_sparse_calc_block_shape ndebug (physical dev) surf';
     block_shape_el' \<leftarrow> vk_extent3d_px_to_el block_shape_px layout;
     bind_offset_el' \<leftarrow> vk_offset3d_px_to_el (img_offset req) layout;
     w \<leftarrow> ALIGN_NPOT (width (img_extent req)) (width block_shape_px);
     h \<leftarrow> ALIGN_NPOT (height (img_extent req)) (height block_shape_px);
     d \<leftarrow> ALIGN_NPOT (depth (img_extent req)) (depth block_shape_px);
     bind_extent_el' \<leftarrow> vk_extent3d_px_to_el \<lparr>width = w, height = h, depth = d\<rparr> layout;
     let block_size_B' = u32 (width block_shape_el' * (bpb layout div 8) *
                              height block_shape_el' * depth block_shape_el');
     pitch_el \<leftarrow> udiv (row_pitch_B surf') (bpb layout div 8);
     blocks_per_line' \<leftarrow> udiv pitch_el (width block_shape_el');
     line_bind_size_in_blocks \<leftarrow> udiv (width bind_extent_el') (width block_shape_el');
     let line_bind_size' = u64 (line_bind_size_in_blocks * block_size_B');
     c_assert ndebug (line_bind_size_in_blocks \<noteq> 0);
     c_assert ndebug (line_bind_size' \<noteq> 0);
     Some \<lparr>mip_level = mipLevel (subresource req),
           array_layer = arrayLayer (subresource req),
           sparse_data = sparse_data',
           surf = surf',
           binding_plane_offset = planes_primary_surface_offset img plane,
           block_shape_el = block_shape_el',
           bind_offset_el = bind_offset_el',
           bind_extent_el = bind_extent_el',
           block_size_B = block_size_B',
           blocks_per_line = blocks_per_line',
           line_bind_size = line_bind_size'\<rparr>
   }"

text \<open>
  The body of the inner loop up to the backend call: the bind of the line of blocks at row
  \<open>y\<close> of the slice that starts at \<open>subresource_offset_B\<close>.
\<close>

definition line_bind ::
  "bool \<Rightarrow> VkSparseImageMemoryBind \<Rightarrow> bind_locals \<Rightarrow> nat \<Rightarrow> nat \<Rightarrow> nat \<Rightarrow>
     anv_vm_bind option" where
  "line_bind ndebug req L subresource_offset_B y memory_offset = do {
     row \<leftarrow> udiv y (height (block_shape_el L));
     let line_block_offset = u32 (row * blocks_per_line L);
     let line_start_B = u64 (subresource_offset_B + line_block_offset * block_size_B L);
     col \<leftarrow> udiv (to_u32 (off_x (bind_offset_el L))) (width (block_shape_el L));
     let bind_offset_B = u64 (line_start_B + col * block_size_B L);
     let opaque_bind = \<lparr>resourceOffset = u64 (binding_plane_offset L + bind_offset_B),
                        mb_size = line_bind_size L,
                        memory = img_memory req,
                        memoryOffset = memory_offset,
                        mb_flags = img_flags req\<rparr>;
     c_assert ndebug (block_size_B L \<noteq> 0 \<and> line_start_B mod block_size_B L = 0);
     c_assert ndebug (block_size_B L \<noteq> 0 \<and>
                      resourceOffset opaque_bind mod block_size_B L = 0);
     c_assert ndebug (block_size_B L \<noteq> 0 \<and> mb_size opaque_bind mod block_size_B L = 0);
     vk_bind_to_anv_vm_bind ndebug (sparse_data L) opaque_bind
   }"

text \<open>
  The inner loop over the rows \<open>y\<close> of one slice. It ends early, with \<open>Inl\<close> of the error and
  the world, when the backend fails; it ends normally with \<open>Inr\<close> of the accumulated
  \<^verbatim>\<open>memory_offset\<close> and the world.
\<close>

partial_function (option) bind_lines ::
  "bool \<Rightarrow> 's anv_device \<Rightarrow> VkSparseImageMemoryBind \<Rightarrow> bind_locals \<Rightarrow> nat \<Rightarrow> nat \<Rightarrow> nat \<Rightarrow>
     's world \<Rightarrow> (VkResult \<times> 's world + nat \<times> 's world) option" where
  "bind_lines ndebug dev req L subresource_offset_B y memory_offset w =
     (if y < u32 (to_u32 (off_y (bind_offset_el L)) + height (bind_extent_el L)) then do {
        b \<leftarrow> line_bind ndebug req L subresource_offset_B y memory_offset;
        let memory_offset' = u64 (memory_offset + line_bind_size L);
        let (rc, w') = kmd_vm_bind dev b w;
        if rc \<noteq> 0 then Some (Inl (VK_ERROR_OUT_OF_DEVICE_MEMORY, w'))
        else bind_lines ndebug dev req L subresource_offset_B
               (u32 (y + height (block_shape_el L))) memory_offset' w'
      } else Some (Inr (memory_offset, w)))"

text \<open>The outer loop over the depth slices \<open>z\<close>.\<close>

partial_function (option) bind_slices ::
  "bool \<Rightarrow> 's anv_device \<Rightarrow> VkSparseImageMemoryBind \<Rightarrow> bind_locals \<Rightarrow> nat \<Rightarrow> nat \<Rightarrow>
     's world \<Rightarrow> (VkResult \<times> 's world + nat \<times> 's world) option" where
  "bind_slices ndebug dev req L z memory_offset w =
     (if z < u32 (to_u32 (off_z (bind_offset_el L)) + depth (bind_extent_el L)) then do {
        let (subresource_offset_B, subresource_x_offset, subresource_y_offset) =
          isl_surf_get_image_offset_B_tile_sa (surf L) (mip_level L) (array_layer L) z;
        c_assert ndebug (subresource_x_offset = 0 \<and> subresource_y_offset = 0);
        c_assert ndebug (block_size_B L \<noteq> 0 \<and> subresource_offset_B mod block_size_B L = 0);
        r \<leftarrow> bind_lines ndebug dev req L subresource_offset_B
               (to_u32 (off_y (bind_offset_el L))) memory_offset w;
        (case r of
           Inl e \<Rightarrow> Some (Inl e)
         | Inr (memory_offset', w') \<Rightarrow>
             bind_slices ndebug dev req L (u32 (z + depth (block_shape_el L)))
               memory_offset' w')
      } else Some (Inr (memory_offset, w)))"

definition anv_sparse_bind_image_memory ::
  "bool \<Rightarrow> 's anv_device \<Rightarrow> anv_image \<Rightarrow> VkSparseImageMemoryBind \<Rightarrow> 's world \<Rightarrow>
     (VkResult \<times> 's world) option" where
  "anv_sparse_bind_image_memory ndebug dev img req w = do {
     L \<leftarrow> image_bind_locals ndebug dev img req;
     r \<leftarrow> bind_slices ndebug dev req L (to_u32 (off_z (bind_offset_el L)))
            (img_memoryOffset req) w;
     (case r of
        Inl (e, w') \<Rightarrow> Some (e, w')
      | Inr (memory_offset, w') \<Rightarrow> Some (VK_SUCCESS, w'))
   }"

subsection \<open>Support check\<close>

text \<open>The loop over the planes of a format, from plane \<open>p\<close> on.\<close>

function check_planes :: "format_tables \<Rightarrow> anv_format \<Rightarrow> nat \<Rightarrow> VkResult" where
  "check_planes tb anv_format' p =
     (if p < n_planes anv_format' then
        (let isl_format = planes_isl_format anv_format' p in
         if isl_format = ISL_FORMAT_UNSUPPORTED then VK_ERROR_FORMAT_NOT_SUPPORTED
         else
           (let isl_layout = isl_format_get_layout tb isl_format in
            if bpb isl_layout \<noteq> 8 \<and> bpb isl_layout \<noteq> 16 \<and> bpb isl_layout \<noteq> 32 \<and>
               bpb isl_layout \<noteq> 64 \<and> bpb isl_layout \<noteq> 128
            then VK_ERROR_FORMAT_NOT_SUPPORTED
            else check_planes tb anv_format' (p + 1)))
      else VK_SUCCESS)"
  by pat_completeness auto
termination
  by (relation "measure (\<lambda>(tb, f, p). n_planes f - p)") auto

definition anv_sparse_image_check_support ::
  "bool \<Rightarrow> anv_physical_device \<Rightarrow> VkFlags \<Rightarrow> VkImageTiling \<Rightarrow> VkFlags \<Rightarrow> VkImageType \<Rightarrow>
     VkFormat \<Rightarrow> VkResult option" where
  "anv_sparse_image_check_support ndebug pdevice create_flags tiling' samples type' vk_format = do {
     c_assert ndebug (create_flags AND VK_IMAGE_CREATE_SPARSE_BINDING_BIT \<noteq> 0);
     if create_flags AND VK_IMAGE_CREATE_SPARSE_RESIDENCY_BIT = 0 then Some VK_SUCCESS
     else if tiling' = VK_IMAGE_TILING_LINEAR then Some VK_ERROR_FORMAT_NOT_SUPPORTED
     else if samples \<noteq> VK_SAMPLE_COUNT_1_BIT then Some VK_ERROR_FEATURE_NOT_PRESENT
     else
       (let aspects = vk_format_aspects (tables pdevice) vk_format in
        if aspects AND (VK_IMAGE_ASPECT_DEPTH_BIT OR VK_IMAGE_ASPECT_STENCIL_BIT) \<noteq> 0 \<and>
           (if verx10 pdevice \<ge> 125 then type' = VK_IMAGE_TYPE_3D
            else type' \<noteq> VK_IMAGE_TYPE_2D)
        then Some VK_ERROR_FORMAT_NOT_SUPPORTED
        else
          (case anv_get_format (tables pdevice) vk_format of
             None \<Rightarrow> Some VK_ERROR_FORMAT_NOT_SUPPORTED
           | Some anv_format' \<Rightarrow> Some (check_planes (tables pdevice) anv_format' 0)))
   }"

subsection \<open>Runs of the two loops\<close>

text \<open>
  For the proofs, the finite runs of the loops are described by two inductive relations.
  \<open>lines_run ndebug dev req L sub y mo w bs res\<close> says that the inner loop, entered at row
  \<open>y\<close> with \<^verbatim>\<open>memory_offset\<close> \<open>mo\<close> in the world \<open>w\<close>, submits exactly the binds \<open>bs\<close>, in
  this order, and ends with \<open>res\<close>; \<open>slices_run\<close> says the same of the outer loop, with one
  list of binds for each slice. Both are shown below to describe exactly the runs of
  \<open>bind_lines\<close> and \<open>bind_slices\<close> that return.
\<close>

abbreviation lines_end :: "bind_locals \<Rightarrow> nat" where
  "lines_end L \<equiv> u32 (to_u32 (off_y (bind_offset_el L)) + height (bind_extent_el L))"

abbreviation slices_end :: "bind_locals \<Rightarrow> nat" where
  "slices_end L \<equiv> u32 (to_u32 (off_z (bind_offset_el L)) + depth (bind_extent_el L))"

inductive lines_run ::
  "bool \<Rightarrow> 's anv_device \<Rightarrow> VkSparseImageMemoryBind \<Rightarrow> bind_locals \<Rightarrow> nat \<Rightarrow> nat \<Rightarrow> nat \<Rightarrow>
     's world \<Rightarrow> anv_vm_bind list \<Rightarrow> (VkResult \<times> 's world + nat \<times> 's world) \<Rightarrow> bool"
  for ndebug dev req L sub
where
  lines_done: "\<not> y < lines_end L \<Longrightarrow> lines_run ndebug dev req L sub y mo w [] (Inr (mo, w))"
| lines_fail: "y < lines_end L \<Longrightarrow> line_bind ndebug req L sub y mo = Some b \<Longrightarrow>
     kmd_vm_bind dev b w = (rc, w') \<Longrightarrow> rc \<noteq> 0 \<Longrightarrow>
     lines_run ndebug dev req L sub y mo w [b] (Inl (VK_ERROR_OUT_OF_DEVICE_MEMORY, w'))"
| lines_step: "y < lines_end L \<Longrightarrow> line_bind ndebug req L sub y mo = Some b \<Longrightarrow>
     kmd_vm_bind dev b w = (rc, w') \<Longrightarrow> rc = 0 \<Longrightarrow>
     lines_run ndebug dev req L sub (u32 (y + height (block_shape_el L)))
       (u64 (mo + line_bind_size L)) w' bs res \<Longrightarrow>
     lines_run ndebug dev req L sub y mo w (b # bs) res"

inductive slices_run ::
  "bool \<Rightarrow> 's anv_device \<Rightarrow> VkSparseImageMemoryBind \<Rightarrow> bind_locals \<Rightarrow> nat \<Rightarrow> nat \<Rightarrow>
     's world \<Rightarrow> anv_vm_bind list list \<Rightarrow> (VkResult \<times> 's world + nat \<times> 's world) \<Rightarrow> bool"
  for ndebug dev req L
where
  slices_done: "\<not> z < slices_end L \<Longrightarrow> slices_run ndebug dev req L z mo w [] (Inr (mo, w))"
| slices_fail: "z < slices_end L \<Longrightarrow>
     isl_surf_get_image_offset_B_tile_sa (surf L) (mip_level L) (array_layer L) z = (sub, sx, sy) \<Longrightarrow>
     ndebug \<or> (sx = 0 \<and> sy = 0 \<and> block_size_B L \<noteq> 0 \<and> sub mod block_size_B L = 0) \<Longrightarrow>
     lines_run ndebug dev req L sub (to_u32 (off_y (bind_offset_el L))) mo w bs (Inl e) \<Longrightarrow>
     slices_run ndebug dev req L z mo w [bs] (Inl e)"
| slices_step: "z < slices_end L \<Longrightarrow>
     isl_surf_get_image_offset_B_tile_sa (surf L) (mip_level L) (array_layer L) z = (sub, sx, sy) \<Longrightarrow>
     ndebug \<or> (sx = 0 \<and> sy = 0 \<and> block_size_B L \<noteq> 0 \<and> sub mod block_size_B L = 0) \<Longrightarrow>
     lines_run ndebug dev req L sub (to_u32 (off_y (bind_offset_el L))) mo w bs (Inr (mo', w')) \<Longrightarrow>
     slices_run ndebug dev req L (u32 (z + depth (block_shape_el L))) mo' w' bss res \<Longrightarrow>
     slices_run ndebug dev req L z mo w (bs # bss) res"

text \<open>The world in which a loop ends, early or not.\<close>

definition loop_world :: "(VkResult \<times> 'w + nat \<times> 'w) \<Rightarrow> 'w" where
  "loop_world r = (case r of Inl (e, w) \<Rightarrow> w | Inr (m, w) \<Rightarrow> w)"

text \<open>
  \<open>replay dev s bs\<close> gives the binds \<open>bs\<close> to the backend one after the other, from the state
  \<open>s\<close> on: it is the list of the return codes and the state that the backend is left in.
\<close>

fun replay :: "'s anv_device \<Rightarrow> 's \<Rightarrow> anv_vm_bind list \<Rightarrow> int list \<times> 's" where
  "replay dev s [] = ([], s)"
| "replay dev s (b # bs) =
     (let (rc, s') = vm_bind dev s b; (rcs, s'') = replay dev s' bs in (rc # rcs, s''))"

text \<open>
  The \<^verbatim>\<open>resourceOffset\<close> that \<open>line_bind\<close> gives to the line at row \<open>y\<close> of the slice at \<open>sub\<close>,
  when its divisions do not trap.
\<close>

definition line_resource_offset :: "bind_locals \<Rightarrow> nat \<Rightarrow> nat \<Rightarrow> nat" where
  "line_resource_offset L sub y =
     u64 (binding_plane_offset L +
          u64 (u64 (sub + u32 (y div height (block_shape_el L) * blocks_per_line L) *
                          block_size_B L) +
               to_u32 (off_x (bind_offset_el L)) div width (block_shape_el L) *
                 block_size_B L))"

text \<open>
  \<open>trace_of dev w bs res\<close>: a loop that started in the world \<open>w\<close> and ended with \<open>res\<close> has
  made exactly the backend calls \<open>bs\<close>, the backend is in the state that these calls leave,
  and either the loop ended normally and every call succeeded, or it ended with
  \<^verbatim>\<open>VK_ERROR_OUT_OF_DEVICE_MEMORY\<close> and the last call is the only one that failed.
\<close>

definition trace_of ::
  "'s anv_device \<Rightarrow> 's world \<Rightarrow> anv_vm_bind list \<Rightarrow> (VkResult \<times> 's world + nat \<times> 's world) \<Rightarrow>
     bool" where
  "trace_of dev w bs res \<longleftrightarrow>
     calls (loop_world res) = calls w @ map Call_vm_bind bs \<and>
     snd (replay dev (kstate w) bs) = kstate (loop_world res) \<and>
     (case res of
        Inr p \<Rightarrow> (\<forall>rc \<in> set (fst (replay dev (kstate w) bs)). rc = 0)
      | Inl (e, w') \<Rightarrow> e = VK_ERROR_OUT_OF_DEVICE_MEMORY \<and>
          (\<exists>k rc. fst (replay dev (kstate w) bs) = replicate k 0 @ [rc] \<and> rc \<noteq> 0))"

text \<open>
  The local variables that \<open>image_bind_locals\<close> computes from the block shape \<open>bsp\<close> in pixels,
  when none of its divisions traps.
\<close>

definition locals_of ::
  "'s anv_device \<Rightarrow> anv_image \<Rightarrow> VkSparseImageMemoryBind \<Rightarrow> VkExtent3D \<Rightarrow> bind_locals" where
  "locals_of dev img req bsp =
     (let plane = anv_image_aspect_to_plane img (sub_aspectMask (subresource req));
          sf = planes_primary_surface_isl img plane;
          layout = isl_format_get_layout (tables (physical dev)) (format sf);
          bse = \<lparr>width = width bsp div bw layout, height = height bsp div bh layout,
                 depth = depth bsp div bd layout\<rparr>;
          bee = \<lparr>width = u32 ((width (img_extent req) + width bsp - 1) div width bsp *
                               width bsp) div bw layout,
                 height = u32 ((height (img_extent req) + height bsp - 1) div height bsp *
                                height bsp) div bh layout,
                 depth = u32 ((depth (img_extent req) + depth bsp - 1) div depth bsp *
                               depth bsp) div bd layout\<rparr>;
          bsB = u32 (width bse * (bpb layout div 8) * height bse * depth bse)
      in \<lparr>mip_level = mipLevel (subresource req),
          array_layer = arrayLayer (subresource req),
          sparse_data = (if disjoint img
                         then anv_image_aspect_to_binding img (sub_aspectMask (subresource req))
                         else bindings_main_sparse_data img),
          surf = sf,
          binding_plane_offset = planes_primary_surface_offset img plane,
          block_shape_el = bse,
          bind_offset_el =
            \<lparr>off_x = the (sdiv_c (off_x (img_offset req)) (int (bw layout))),
             off_y = the (sdiv_c (off_y (img_offset req)) (int (bh layout))),
             off_z = the (sdiv_c (off_z (img_offset req)) (int (bd layout)))\<rparr>,
          bind_extent_el = bee,
          block_size_B = bsB,
          blocks_per_line = row_pitch_B sf div (bpb layout div 8) div width bse,
          line_bind_size = u64 (width bee div width bse * bsB)\<rparr>)"

subsection \<open>A concrete image\<close>

text \<open>
  The data of the examples: a 2-D image of 256 by 256 texels of 32 bits with two mip levels,
  tiled with Tile64 (tiles of 128 by 128 elements, 64 KiB), on a device of generation 12.5;
  a request that binds the whole of mip level 0 to a memory object of 256 KiB; a backend that
  never fails and counts its calls; and a backend that fails from its second call on.
\<close>

definition ex_layout :: isl_format_layout where
  "ex_layout = \<lparr>bw = 1, bh = 1, bd = 1, bpb = 32\<rparr>"

definition ex_tables :: format_tables where
  "ex_tables = \<lparr>isl_format_get_layout = (\<lambda>f. ex_layout),
                 isl_format_is_yuv = (\<lambda>f. False),
                 vk_format_aspects = (\<lambda>f. VK_IMAGE_ASPECT_COLOR_BIT),
                 anv_get_format = (\<lambda>f. Some \<lparr>n_planes = 1, planes_isl_format = (\<lambda>p. 0)\<rparr>)\<rparr>"

definition ex_pdevice :: anv_physical_device where
  "ex_pdevice = \<lparr>verx10 = 125, tables = ex_tables\<rparr>"

definition ex_surf :: isl_surf where
  "ex_surf = \<lparr>format = 0, tiling = ISL_TILING_64, row_pitch_B = 1024, size_B = 327680,
               miptail_start_level = 1,
               isl_surf_get_tile_info =
                 \<lparr>logical_extent_el = \<lparr>width = 128, height = 128, depth = 1\<rparr>\<rparr>,
               isl_surf_get_image_offset_B_tile_sa =
                 (\<lambda>level layer z. (if level = 0 then 0 else 262144, 0, 0))\<rparr>"

definition ex_surf_linear :: isl_surf where
  "ex_surf_linear = \<lparr>format = 0, tiling = ISL_TILING_LINEAR, row_pitch_B = 4096,
               size_B = 1048576, miptail_start_level = 1,
               isl_surf_get_tile_info =
                 \<lparr>logical_extent_el = \<lparr>width = 1, height = 1, depth = 1\<rparr>\<rparr>,
               isl_surf_get_image_offset_B_tile_sa = (\<lambda>level layer z. (0, 0, 0))\<rparr>"

definition ex_sparse :: anv_sparse_binding_data where
  "ex_sparse = \<lparr>sparse_address = 1048576, sparse_size = 327680, vma_heap = 0\<rparr>"

definition ex_image :: anv_image where
  "ex_image = \<lparr>vk_array_layers = 1, vk_mip_levels = 2, disjoint = False,
                bindings_main_sparse_data = ex_sparse,
                anv_image_aspect_to_binding = (\<lambda>a. ex_sparse),
                anv_image_aspect_to_plane = (\<lambda>a. 0),
                planes_primary_surface_isl = (\<lambda>p. ex_surf),
                planes_primary_surface_offset = (\<lambda>p. 0)\<rparr>"

definition ex_mem :: anv_device_memory where
  "ex_mem = \<lparr>mem_bo = \<lparr>gem_handle = 1, bo_size = 262144\<rparr>\<rparr>"

definition ex_bind :: VkSparseImageMemoryBind where
  "ex_bind = \<lparr>subresource = \<lparr>sub_aspectMask = VK_IMAGE_ASPECT_COLOR_BIT, mipLevel = 0,
                              arrayLayer = 0\<rparr>,
               img_offset = \<lparr>off_x = 0, off_y = 0, off_z = 0\<rparr>,
               img_extent = \<lparr>width = 256, height = 256, depth = 1\<rparr>,
               img_memory = Some ex_mem,
               img_memoryOffset = 0,
               img_flags = 0\<rparr>"

definition ex_dev :: "nat anv_device" where
  "ex_dev = \<lparr>vm_bind = (\<lambda>s b. (0, s + 1)), anv_vma_free = (\<lambda>s h a z. s),
              physical = ex_pdevice\<rparr>"

definition ex_dev_fail :: "nat anv_device" where
  "ex_dev_fail = \<lparr>vm_bind = (\<lambda>s b. (if s = 0 then 0 else - 1, s + 1)),
                   anv_vma_free = (\<lambda>s h a z. s), physical = ex_pdevice\<rparr>"

definition ex_world :: "nat world" where
  "ex_world = \<lparr>calls = [], kstate = 0\<rparr>"

text \<open>
  The local variables of the bind of \<open>ex_bind\<close>, the two binds that it submits (one for each
  row of two tiles), and the two binds that the same request submits without memory.
\<close>

definition ex_locals :: bind_locals where
  "ex_locals = \<lparr>mip_level = 0, array_layer = 0, sparse_data = ex_sparse, surf = ex_surf,
                 binding_plane_offset = 0,
                 block_shape_el = \<lparr>width = 128, height = 128, depth = 1\<rparr>,
                 bind_offset_el = \<lparr>off_x = 0, off_y = 0, off_z = 0\<rparr>,
                 bind_extent_el = \<lparr>width = 256, height = 256, depth = 1\<rparr>,
                 block_size_B = 65536, blocks_per_line = 2, line_bind_size = 131072\<rparr>"

definition ex_op1 :: anv_vm_bind where
  "ex_op1 = \<lparr>bind_bo = Some \<lparr>gem_handle = 1, bo_size = 262144\<rparr>, bind_address = 1048576,
              bind_bo_offset = 0, bind_size = 131072, bind_op = ANV_VM_BIND\<rparr>"

definition ex_op2 :: anv_vm_bind where
  "ex_op2 = \<lparr>bind_bo = Some \<lparr>gem_handle = 1, bo_size = 262144\<rparr>, bind_address = 1179648,
              bind_bo_offset = 131072, bind_size = 131072, bind_op = ANV_VM_BIND\<rparr>"

definition ex_null1 :: anv_vm_bind where
  "ex_null1 = \<lparr>bind_bo = None, bind_address = 1048576,
                bind_bo_offset = 0, bind_size = 131072, bind_op = ANV_VM_BIND\<rparr>"

definition ex_null2 :: anv_vm_bind where
  "ex_null2 = \<lparr>bind_bo = None, bind_address = 1179648,
                bind_bo_offset = 0, bind_size = 131072, bind_op = ANV_VM_BIND\<rparr>"

text \<open>
  The worlds after the bind of \<open>ex_bind\<close>, after the same request without memory in the
  initial world, and after the bind followed by the request without memory; a world in which
  the backend has been called once before, and the world after one bind in it.
\<close>

definition ex_world_bound :: "nat world" where
  "ex_world_bound = \<lparr>calls = [Call_vm_bind ex_op1, Call_vm_bind ex_op2], kstate = 2\<rparr>"

definition ex_world_null :: "nat world" where
  "ex_world_null = \<lparr>calls = [Call_vm_bind ex_null1, Call_vm_bind ex_null2], kstate = 2\<rparr>"

definition ex_world_busy :: "nat world" where
  "ex_world_busy = \<lparr>calls = [], kstate = 1\<rparr>"

definition ex_world_failed :: "nat world" where
  "ex_world_failed = \<lparr>calls = [Call_vm_bind ex_op1], kstate = 2\<rparr>"

definition ex_world_unbound :: "nat world" where
  "ex_world_unbound = \<lparr>calls = [Call_vm_bind ex_op1, Call_vm_bind ex_op2,
                                  Call_vm_bind ex_null1, Call_vm_bind ex_null2], kstate = 4\<rparr>"

text \<open>
  Two opaque requests on the range \<open>ex_sparse\<close>: one of 64 KiB at the offset 64 KiB with the
  memory object, and one of 4 KiB at the offset 4 KiB without memory; and the bind that the
  second is translated to.
\<close>

definition ex_opaque :: VkSparseMemoryBind where
  "ex_opaque = \<lparr>resourceOffset = 65536, mb_size = 65536, memory = Some ex_mem,
                 memoryOffset = 0, mb_flags = 0\<rparr>"

definition ex_small :: VkSparseMemoryBind where
  "ex_small = \<lparr>resourceOffset = 4096, mb_size = 4096, memory = None,
                memoryOffset = 0, mb_flags = 0\<rparr>"

definition ex_small_op :: anv_vm_bind where
  "ex_small_op = \<lparr>bind_bo = None, bind_address = 1052672, bind_bo_offset = 0,
                   bind_size = 4096, bind_op = ANV_VM_BIND\<rparr>"

section \<open>Properties\<close>

subsection \<open>Arithmetic and assertions\<close>

lemma c_assert_simps [simp]:
  "c_assert True c = Some ()"
  "c_assert nd True = Some ()"
  "c_assert False c = (if c then Some () else None)"
  by (simp_all add: c_assert_def)

lemma c_assert_Some: "c_assert nd c = Some u \<longleftrightarrow> nd \<or> c"
  by (simp add: c_assert_def)

lemma u32_id: "n < 2 ^ 32 \<Longrightarrow> u32 n = n"
  by (simp add: u32_def)

lemma u64_id: "n < 2 ^ 64 \<Longrightarrow> u64 n = n"
  by (simp add: u64_def)

lemma u32_less [simp]: "u32 n < 2 ^ 32"
  by (simp add: u32_def)

lemma u64_less [simp]: "u64 n < 2 ^ 64"
  by (simp add: u64_def)

lemma u32_less_num [simp]: "u32 n < 4294967296"
  using u32_less [of n] by simp

lemma u64_less_num [simp]: "u64 n < 18446744073709551616"
  using u64_less [of n] by simp

lemma u64_add_left: "u64 (u64 a + b) = u64 (a + b)"
  by (simp add: u64_def mod_add_left_eq)

lemma u64_add_right: "u64 (a + u64 b) = u64 (a + b)"
  by (simp add: u64_def mod_add_right_eq)

lemma popcount_color: "popcount VK_IMAGE_ASPECT_COLOR_BIT = 1"
  by (simp add: popcount_def VK_IMAGE_ASPECT_COLOR_BIT_def upt_rec [of _ "numeral n" for n]
      bit_numeral_simps)

lemmas ex_defs = ex_layout_def ex_tables_def ex_pdevice_def ex_surf_def ex_surf_linear_def
  ex_sparse_def ex_image_def ex_mem_def ex_bind_def ex_dev_def ex_dev_fail_def ex_world_def

subsection \<open>Releasing a sparse binding\<close>

text \<open>
  C10. When the address of the binding is zero, \<open>anv_free_sparse_bindings\<close> returns success
  and calls nothing. Otherwise, when the backend fails the unbind, it returns an error
  (\<^verbatim>\<open>VK_ERROR_UNKNOWN\<close>), the only call made is that unbind, so the VMA range is not freed,
  and the binding keeps its address and size.
\<close>

theorem free_sparse_bindings_failure:
  "(sparse_address sparse = 0 \<longrightarrow>
      anv_free_sparse_bindings dev sparse w = (VK_SUCCESS, sparse, w)) \<and>
   (sparse_address sparse \<noteq> 0 \<and>
    fst (vm_bind dev (kstate w)
          \<lparr>bind_bo = None, bind_address = sparse_address sparse, bind_bo_offset = 0,
           bind_size = sparse_size sparse, bind_op = ANV_VM_UNBIND\<rparr>) \<noteq> 0 \<longrightarrow>
      anv_free_sparse_bindings dev sparse w =
        (VK_ERROR_UNKNOWN, sparse,
         \<lparr>calls = calls w @ [Call_vm_bind
             \<lparr>bind_bo = None, bind_address = sparse_address sparse, bind_bo_offset = 0,
              bind_size = sparse_size sparse, bind_op = ANV_VM_UNBIND\<rparr>],
          kstate = snd (vm_bind dev (kstate w)
             \<lparr>bind_bo = None, bind_address = sparse_address sparse, bind_bo_offset = 0,
              bind_size = sparse_size sparse, bind_op = ANV_VM_UNBIND\<rparr>)\<rparr>))"
  by (simp add: anv_free_sparse_bindings_def kmd_vm_bind_def Let_def split_beta)

theorem free_sparse_bindings_failure_witness:
  "anv_free_sparse_bindings ex_dev_fail ex_sparse \<lparr>calls = [], kstate = 1\<rparr> =
     (VK_ERROR_UNKNOWN, ex_sparse,
      \<lparr>calls = [Call_vm_bind \<lparr>bind_bo = None, bind_address = 1048576, bind_bo_offset = 0,
                               bind_size = 327680, bind_op = ANV_VM_UNBIND\<rparr>],
       kstate = 2\<rparr>) \<and>
   anv_free_sparse_bindings ex_dev_fail (ex_sparse\<lparr>sparse_address := 0\<rparr>) ex_world =
     (VK_SUCCESS, ex_sparse\<lparr>sparse_address := 0\<rparr>, ex_world)"
  using free_sparse_bindings_failure [of ex_sparse ex_dev_fail "\<lparr>calls = [], kstate = 1\<rparr>"]
    free_sparse_bindings_failure [of "ex_sparse\<lparr>sparse_address := 0\<rparr>" ex_dev_fail ex_world]
  by (simp add: ex_sparse_def ex_dev_fail_def)

subsection \<open>Support check\<close>

lemma check_planes_step:
  "check_planes tb f p =
     (if p < n_planes f then
        if planes_isl_format f p = ISL_FORMAT_UNSUPPORTED \<or>
           bpb (isl_format_get_layout tb (planes_isl_format f p)) \<notin> {8, 16, 32, 64, 128}
        then VK_ERROR_FORMAT_NOT_SUPPORTED else check_planes tb f (p + 1)
      else VK_SUCCESS)"
  by (subst check_planes.simps) (simp add: Let_def)

lemma check_planes_reject:
  "p \<le> q \<Longrightarrow> q < n_planes f \<Longrightarrow>
   bpb (isl_format_get_layout tb (planes_isl_format f q)) \<notin> {8, 16, 32, 64, 128} \<Longrightarrow>
   check_planes tb f p = VK_ERROR_FORMAT_NOT_SUPPORTED"
proof (induction tb f p rule: check_planes.induct)
  case (1 tb f p)
  show ?case
  proof (cases "p = q")
    case True
    with 1 show ?thesis by (subst check_planes_step) simp
  next
    case False
    with 1 have "p + 1 \<le> q" "p < n_planes f" by simp_all
    with 1 show ?thesis
      by (subst check_planes_step) auto
  qed
qed

text \<open>
  C9. In a call that passes the assertion on the binding flag (any call when assertions are
  compiled out), with \<open>r\<close> the result: without the residency flag every combination is
  accepted. With the residency flag, linear tiling is rejected with
  \<^verbatim>\<open>VK_ERROR_FORMAT_NOT_SUPPORTED\<close>; then a sample count other than one with
  \<^verbatim>\<open>VK_ERROR_FEATURE_NOT_PRESENT\<close>; then a depth or stencil format of type 3-D on generation
  12.5 and later, and of a type other than 2-D before, with \<^verbatim>\<open>VK_ERROR_FORMAT_NOT_SUPPORTED\<close>;
  then a format with a plane \<open>q\<close> whose bits per block are outside \<open>{8, 16, 32, 64, 128}\<close>, with
  the same error. The rules are tried in this order, and in each of these cases, whatever
  the other arguments, the combination is not accepted.
\<close>

theorem check_support_rules:
  assumes binding: "nd \<or> create_flags AND VK_IMAGE_CREATE_SPARSE_BINDING_BIT \<noteq> 0"
    and r: "r = anv_sparse_image_check_support nd pd create_flags tlg samples ty fmt"
    and res: "residency \<longleftrightarrow> create_flags AND VK_IMAGE_CREATE_SPARSE_RESIDENCY_BIT \<noteq> 0"
    and ds: "depth_stencil \<longleftrightarrow> vk_format_aspects (tables pd) fmt AND
               (VK_IMAGE_ASPECT_DEPTH_BIT OR VK_IMAGE_ASPECT_STENCIL_BIT) \<noteq> 0"
  shows "(\<not> residency \<longrightarrow> r = Some VK_SUCCESS) \<and>
    (residency \<and> tlg = VK_IMAGE_TILING_LINEAR \<longrightarrow> r = Some VK_ERROR_FORMAT_NOT_SUPPORTED) \<and>
    (residency \<and> tlg \<noteq> VK_IMAGE_TILING_LINEAR \<and> samples \<noteq> VK_SAMPLE_COUNT_1_BIT \<longrightarrow>
       r = Some VK_ERROR_FEATURE_NOT_PRESENT) \<and>
    (residency \<and> tlg \<noteq> VK_IMAGE_TILING_LINEAR \<and> samples = VK_SAMPLE_COUNT_1_BIT \<and>
     depth_stencil \<and>
     (if verx10 pd \<ge> 125 then ty = VK_IMAGE_TYPE_3D else ty \<noteq> VK_IMAGE_TYPE_2D) \<longrightarrow>
       r = Some VK_ERROR_FORMAT_NOT_SUPPORTED) \<and>
    (residency \<and> tlg \<noteq> VK_IMAGE_TILING_LINEAR \<and> samples = VK_SAMPLE_COUNT_1_BIT \<and>
     \<not> (depth_stencil \<and>
        (if verx10 pd \<ge> 125 then ty = VK_IMAGE_TYPE_3D else ty \<noteq> VK_IMAGE_TYPE_2D)) \<and>
     anv_get_format (tables pd) fmt = Some f \<and> q < n_planes f \<and>
     bpb (isl_format_get_layout (tables pd) (planes_isl_format f q)) \<notin> {8, 16, 32, 64, 128} \<longrightarrow>
       r = Some VK_ERROR_FORMAT_NOT_SUPPORTED) \<and>
    (residency \<and>
     (tlg = VK_IMAGE_TILING_LINEAR \<or> samples \<noteq> VK_SAMPLE_COUNT_1_BIT \<or>
      (depth_stencil \<and>
       (if verx10 pd \<ge> 125 then ty = VK_IMAGE_TYPE_3D else ty \<noteq> VK_IMAGE_TYPE_2D)) \<or>
      (anv_get_format (tables pd) fmt = Some f \<and> q < n_planes f \<and>
       bpb (isl_format_get_layout (tables pd) (planes_isl_format f q)) \<notin>
         {8, 16, 32, 64, 128})) \<longrightarrow>
       r \<noteq> None \<and> r \<noteq> Some VK_SUCCESS)"
proof -
  have bad: "check_planes (tables pd) f 0 = VK_ERROR_FORMAT_NOT_SUPPORTED"
    if "q < n_planes f"
      "bpb (isl_format_get_layout (tables pd) (planes_isl_format f q)) \<notin> {8, 16, 32, 64, 128}"
    using check_planes_reject [of 0 q f "tables pd"] that by simp
  have a1: "c_assert nd (create_flags AND VK_IMAGE_CREATE_SPARSE_BINDING_BIT \<noteq> 0) = Some ()"
    using binding by (auto simp: c_assert_def)
  show ?thesis
    unfolding r res ds anv_sparse_image_check_support_def a1 Let_def
    using bad by (auto split: option.splits)
qed

theorem check_support_rules_witness:
  "anv_sparse_image_check_support False ex_pdevice 1 VK_IMAGE_TILING_LINEAR 4
     VK_IMAGE_TYPE_3D 0 = Some VK_SUCCESS \<and>
   anv_sparse_image_check_support False ex_pdevice 3 VK_IMAGE_TILING_LINEAR 1
     VK_IMAGE_TYPE_2D 0 = Some VK_ERROR_FORMAT_NOT_SUPPORTED \<and>
   anv_sparse_image_check_support False ex_pdevice 3 VK_IMAGE_TILING_OPTIMAL 4
     VK_IMAGE_TYPE_2D 0 = Some VK_ERROR_FEATURE_NOT_PRESENT \<and>
   anv_sparse_image_check_support False
     (ex_pdevice\<lparr>tables := ex_tables\<lparr>vk_format_aspects := \<lambda>f. VK_IMAGE_ASPECT_DEPTH_BIT\<rparr>\<rparr>)
     3 VK_IMAGE_TILING_OPTIMAL 1 VK_IMAGE_TYPE_3D 0 = Some VK_ERROR_FORMAT_NOT_SUPPORTED \<and>
   anv_sparse_image_check_support False
     (ex_pdevice\<lparr>tables := ex_tables\<lparr>isl_format_get_layout := \<lambda>f. ex_layout\<lparr>bpb := 24\<rparr>\<rparr>\<rparr>)
     3 VK_IMAGE_TILING_OPTIMAL 1 VK_IMAGE_TYPE_2D 0 = Some VK_ERROR_FORMAT_NOT_SUPPORTED"
  using
    check_support_rules [where nd = False and pd = ex_pdevice and create_flags = 1
      and tlg = VK_IMAGE_TILING_LINEAR and samples = 4 and ty = VK_IMAGE_TYPE_3D and fmt = 0
      and residency = False and depth_stencil = False, OF _ refl]
    check_support_rules [where nd = False and pd = ex_pdevice and create_flags = 3
      and tlg = VK_IMAGE_TILING_LINEAR and samples = 1 and ty = VK_IMAGE_TYPE_2D and fmt = 0
      and residency = True and depth_stencil = False, OF _ refl]
    check_support_rules [where nd = False and pd = ex_pdevice and create_flags = 3
      and tlg = VK_IMAGE_TILING_OPTIMAL and samples = 4 and ty = VK_IMAGE_TYPE_2D and fmt = 0
      and residency = True and depth_stencil = False, OF _ refl]
    check_support_rules [where nd = False
      and pd = "ex_pdevice\<lparr>tables := ex_tables\<lparr>vk_format_aspects := \<lambda>f. VK_IMAGE_ASPECT_DEPTH_BIT\<rparr>\<rparr>"
      and create_flags = 3
      and tlg = VK_IMAGE_TILING_OPTIMAL and samples = 1 and ty = VK_IMAGE_TYPE_3D and fmt = 0
      and residency = True and depth_stencil = True, OF _ refl]
    check_support_rules [where nd = False
      and pd = "ex_pdevice\<lparr>tables := ex_tables\<lparr>isl_format_get_layout := \<lambda>f. ex_layout\<lparr>bpb := 24\<rparr>\<rparr>\<rparr>"
      and create_flags = 3
      and tlg = VK_IMAGE_TILING_OPTIMAL and samples = 1 and ty = VK_IMAGE_TYPE_2D and fmt = 0
      and residency = True and depth_stencil = False
      and f = "\<lparr>n_planes = 1, planes_isl_format = (\<lambda>p. 0)\<rparr>" and q = 0, OF _ refl]
  by (simp add: ex_pdevice_def ex_tables_def ex_layout_def
      VK_IMAGE_CREATE_SPARSE_BINDING_BIT_def VK_IMAGE_CREATE_SPARSE_RESIDENCY_BIT_def
      VK_IMAGE_ASPECT_COLOR_BIT_def VK_IMAGE_ASPECT_DEPTH_BIT_def
      VK_IMAGE_ASPECT_STENCIL_BIT_def VK_SAMPLE_COUNT_1_BIT_def)

subsection \<open>Granularity\<close>

text \<open>
  C6. For a linear surface, whose tile ISL reports as one element wide, with \<open>B\<close> the bytes
  per element: the element row length \<open>epr\<close> is the row pitch divided by \<open>B\<close>, the row count
  \<open>rows\<close> is \<^verbatim>\<open>ANV_SPARSE_BLOCK_SIZE\<close> divided by the byte size \<open>epr * B\<close> of a row, and the block
  shape is \<open>epr\<close> by \<open>rows\<close> blocks, one block deep (when assertions are checked, \<open>rows\<close> such
  rows must fill the constant exactly). With a row pitch of 4096 bytes and a 32-bit format of
  footprint 1 x 1 x 1 the shape is 1024 by 16 by 1.
\<close>

theorem linear_block_shape:
  assumes lin: "tiling sf = ISL_TILING_LINEAR"
    and lay: "layout = isl_format_get_layout (tables pd) (format sf)"
    and tile: "width (logical_extent_el (isl_surf_get_tile_info sf)) = 1"
  shows "(8 \<le> bpb layout \<and> bpb layout div 8 \<le> row_pitch_B sf \<and> row_pitch_B sf < 2 ^ 32 \<and>
          epr = row_pitch_B sf div (bpb layout div 8) \<and>
          rows = ANV_SPARSE_BLOCK_SIZE div (epr * (bpb layout div 8)) \<and>
          (nd \<or> rows * epr * (bpb layout div 8) = ANV_SPARSE_BLOCK_SIZE) \<longrightarrow>
          anv_sparse_calc_block_shape nd pd sf =
            Some \<lparr>width = u32 (epr * bw layout), height = u32 (rows * bh layout),
                  depth = bd layout\<rparr>) \<and>
         (row_pitch_B sf = 4096 \<and> layout = \<lparr>bw = 1, bh = 1, bd = 1, bpb = 32\<rparr> \<longrightarrow>
          anv_sparse_calc_block_shape nd pd sf = Some \<lparr>width = 1024, height = 16, depth = 1\<rparr>)"
proof (intro conjI impI)
  assume h: "8 \<le> bpb layout \<and> bpb layout div 8 \<le> row_pitch_B sf \<and> row_pitch_B sf < 2 ^ 32 \<and>
          epr = row_pitch_B sf div (bpb layout div 8) \<and>
          rows = ANV_SPARSE_BLOCK_SIZE div (epr * (bpb layout div 8)) \<and>
          (nd \<or> rows * epr * (bpb layout div 8) = ANV_SPARSE_BLOCK_SIZE)"
  define B where "B = bpb layout div 8"
  have B: "0 < B" "B \<le> row_pitch_B sf" using h by (auto simp: B_def)
  have B32: "u32 B = B" using B h by (intro u32_id) auto
  have e0: "0 < epr" using h B by (simp add: B_def div_greater_zero_iff)
  have "epr * B \<le> row_pitch_B sf" using h by (simp add: B_def)
  then have eB: "u32 (epr * B) = epr * B" "0 < epr * B"
    using h e0 B by (auto intro!: u32_id)
  have rows_le: "rows * (epr * B) \<le> ANV_SPARSE_BLOCK_SIZE"
    using h by (simp add: B_def)
  then have r32: "u32 (rows * epr * B) = rows * epr * B"
    by (intro u32_id) (simp add: ANV_SPARSE_BLOCK_SIZE_def mult.assoc)
  show "anv_sparse_calc_block_shape nd pd sf =
            Some \<lparr>width = u32 (epr * bw layout), height = u32 (rows * bh layout),
                  depth = bd layout\<rparr>"
    using h lin tile B32 eB r32 B
    unfolding anv_sparse_calc_block_shape_def Let_def lay [symmetric] B_def [symmetric]
    by (auto simp: udiv_def c_assert_def)
next
  assume "row_pitch_B sf = 4096 \<and> layout = \<lparr>bw = 1, bh = 1, bd = 1, bpb = 32\<rparr>"
  then show "anv_sparse_calc_block_shape nd pd sf = Some \<lparr>width = 1024, height = 16, depth = 1\<rparr>"
    using lin tile
    unfolding anv_sparse_calc_block_shape_def Let_def lay [symmetric]
    by (simp add: udiv_def u32_def ANV_SPARSE_BLOCK_SIZE_def)
qed

theorem linear_block_shape_witness:
  "anv_sparse_calc_block_shape False ex_pdevice ex_surf_linear =
     Some \<lparr>width = 1024, height = 16, depth = 1\<rparr> \<and>
   anv_sparse_calc_block_shape False ex_pdevice (ex_surf_linear\<lparr>row_pitch_B := 8192\<rparr>) =
     Some \<lparr>width = 2048, height = 8, depth = 1\<rparr>"
  using linear_block_shape [where sf = ex_surf_linear and pd = ex_pdevice and nd = False
      and layout = ex_layout and epr = 1024 and rows = 16]
    linear_block_shape [where sf = "ex_surf_linear\<lparr>row_pitch_B := 8192\<rparr>" and pd = ex_pdevice
      and nd = False and layout = ex_layout and epr = 2048 and rows = 8]
  by (simp add: ex_pdevice_def ex_tables_def ex_layout_def ex_surf_linear_def
      ANV_SPARSE_BLOCK_SIZE_def u32_def)

lemma standard_shape_release:
  "anv_sparse_get_standard_image_block_shape True tb fmt ty ts =
     Some (vk_extent3d_el_to_px
       (case ty of
          VK_IMAGE_TYPE_1D \<Rightarrow> \<lparr>width = 0, height = 0, depth = 0\<rparr>
        | VK_IMAGE_TYPE_2D \<Rightarrow>
            (case std_shape_2d ts of Some s \<Rightarrow> s
             | None \<Rightarrow> \<lparr>width = 0, height = 0, depth = 0\<rparr>)
        | VK_IMAGE_TYPE_3D \<Rightarrow>
            (case std_shape_3d ts of Some s \<Rightarrow> s
             | None \<Rightarrow> \<lparr>width = 0, height = 0, depth = 0\<rparr>))
       (isl_format_get_layout tb fmt))"
  unfolding anv_sparse_get_standard_image_block_shape_def Let_def
  by (cases ty; cases "std_shape_2d ts"; cases "std_shape_3d ts"; simp)

text \<open>
  C7. When assertions are compiled out and the tiling is not linear, the function returns.
  In the properties it returns, with the granularity \<open>g\<close> and the bytes per element \<open>B\<close>:
  the product \<open>width g * height g * depth g * B\<close>, as the function computes it in 32 bits,
  is \<^verbatim>\<open>ANV_SPARSE_BLOCK_SIZE\<close>, or the single-miptail flag is set; so whenever the product fits
  in 32 bits, it equals the constant or the flag is set.
\<close>

theorem format_properties_block_size:
  assumes g: "g = imageGranularity props"
    and B: "B = bpb (isl_format_get_layout (tables pd) (format sf)) div 8"
  shows "(nd \<and> tiling sf \<noteq> ISL_TILING_LINEAR \<longrightarrow>
            anv_sparse_calc_image_format_properties nd pd aspect ty sf \<noteq> None) \<and>
         (anv_sparse_calc_image_format_properties nd pd aspect ty sf = Some props \<longrightarrow>
            (u32 (width g * height g * depth g * B) = ANV_SPARSE_BLOCK_SIZE \<or>
             flags props AND VK_SPARSE_IMAGE_FORMAT_SINGLE_MIPTAIL_BIT \<noteq> 0) \<and>
            (width g * height g * depth g * B < 2 ^ 32 \<longrightarrow>
             width g * height g * depth g * B = ANV_SPARSE_BLOCK_SIZE \<or>
             flags props AND VK_SPARSE_IMAGE_FORMAT_SINGLE_MIPTAIL_BIT \<noteq> 0))"
proof (intro conjI impI)
  assume a: "nd \<and> tiling sf \<noteq> ISL_TILING_LINEAR"
  then obtain gr where gr: "anv_sparse_calc_block_shape nd pd sf = Some gr"
    by (simp add: anv_sparse_calc_block_shape_def Let_def)
  obtain st where st: "anv_sparse_get_standard_image_block_shape nd (tables pd) (format sf) ty
      (bpb (isl_format_get_layout (tables pd) (format sf))) = Some st"
    using a by (simp add: standard_shape_release)
  show "anv_sparse_calc_image_format_properties nd pd aspect ty sf \<noteq> None"
    using a unfolding anv_sparse_calc_image_format_properties_def Let_def gr st
    by simp
next
  assume ret: "anv_sparse_calc_image_format_properties nd pd aspect ty sf = Some props"
  have bits: "(x OR VK_SPARSE_IMAGE_FORMAT_SINGLE_MIPTAIL_BIT) AND
      VK_SPARSE_IMAGE_FORMAT_SINGLE_MIPTAIL_BIT \<noteq> 0" for x :: VkFlags
    by (simp add: VK_SPARSE_IMAGE_FORMAT_SINGLE_MIPTAIL_BIT_def)
  show 1: "u32 (width g * height g * depth g * B) = ANV_SPARSE_BLOCK_SIZE \<or>
          flags props AND VK_SPARSE_IMAGE_FORMAT_SINGLE_MIPTAIL_BIT \<noteq> 0"
    using ret bits unfolding anv_sparse_calc_image_format_properties_def Let_def g B
    by (auto simp: Option.bind_eq_Some_conv split: if_splits)
  assume "width g * height g * depth g * B < 2 ^ 32"
  with 1 show "width g * height g * depth g * B = ANV_SPARSE_BLOCK_SIZE \<or>
          flags props AND VK_SPARSE_IMAGE_FORMAT_SINGLE_MIPTAIL_BIT \<noteq> 0"
    by (auto simp: u32_id)
qed

theorem format_properties_block_size_witness:
  "anv_sparse_calc_image_format_properties True ex_pdevice VK_IMAGE_ASPECT_COLOR_BIT
     VK_IMAGE_TYPE_2D ex_surf =
     Some \<lparr>aspectMask = VK_IMAGE_ASPECT_COLOR_BIT,
           imageGranularity = \<lparr>width = 128, height = 128, depth = 1\<rparr>, flags = 0\<rparr> \<and>
   (128 * 128 * 1 * 4 = ANV_SPARSE_BLOCK_SIZE \<or>
    (0 :: VkFlags) AND VK_SPARSE_IMAGE_FORMAT_SINGLE_MIPTAIL_BIT \<noteq> 0)"
proof -
  have r: "anv_sparse_calc_image_format_properties True ex_pdevice VK_IMAGE_ASPECT_COLOR_BIT
     VK_IMAGE_TYPE_2D ex_surf =
     Some \<lparr>aspectMask = VK_IMAGE_ASPECT_COLOR_BIT,
           imageGranularity = \<lparr>width = 128, height = 128, depth = 1\<rparr>, flags = 0\<rparr>"
    by (simp add: anv_sparse_calc_image_format_properties_def anv_sparse_calc_block_shape_def
        anv_sparse_get_standard_image_block_shape_def std_shape_2d_def vk_extent3d_el_to_px_def
        ex_pdevice_def ex_tables_def ex_layout_def ex_surf_def u32_def ANV_SPARSE_BLOCK_SIZE_def)
  show ?thesis
    using r format_properties_block_size [where nd = True and pd = ex_pdevice
        and aspect = VK_IMAGE_ASPECT_COLOR_BIT and ty = VK_IMAGE_TYPE_2D and sf = ex_surf
        and props = "\<lparr>aspectMask = VK_IMAGE_ASPECT_COLOR_BIT,
           imageGranularity = \<lparr>width = 128, height = 128, depth = 1\<rparr>, flags = 0\<rparr>"
        and g = "\<lparr>width = 128, height = 128, depth = 1\<rparr>" and B = 4]
    by (simp add: ex_pdevice_def ex_tables_def ex_layout_def ex_surf_def)
qed

subsection \<open>Miptail\<close>

text \<open>
  C3. Let the tile of the plane have the byte size \<^verbatim>\<open>ANV_SPARSE_BLOCK_SIZE\<close>, let the offset of
  array layer 1 (the size of the surface when there is one layer) be a multiple of it with no
  offset inside the tile, and let the tiling support the standard block shapes. Then the
  function never reaches \<^verbatim>\<open>out_everything_is_miptail\<close>, and it returns either no miptail
  (first level the mip count, size, offset and stride 0) or a miptail whose size is
  exactly \<^verbatim>\<open>ANV_SPARSE_BLOCK_SIZE\<close>. It returns in every case when assertions are compiled out;
  when they are checked it aborts only if the aspect mask has not exactly one bit or the
  miptail level does not start on a tile.
\<close>

theorem miptail_sparse_friendly:
  assumes surf: "sf = planes_primary_surface_isl img (anv_image_aspect_to_plane img aspect)"
    and tile: "ti = logical_extent_el (isl_surf_get_tile_info sf)"
    and tile_size: "u32 (width ti * (bpb (isl_format_get_layout tb (format sf)) div 8) *
                      height ti * depth ti) = ANV_SPARSE_BLOCK_SIZE"
    and layer1: "layer_one = (if vk_array_layers img = 1 then (size_B sf, 0, 0)
                       else isl_surf_get_image_offset_B_tile_sa sf 0 1 0)"
    and intra: "snd layer_one = (0, 0)"
    and aligned: "fst layer_one mod ANV_SPARSE_BLOCK_SIZE = 0"
    and friendly: "isl_tiling_supports_standard_block_shapes (tiling sf)"
    and lvl: "lvl_off = isl_surf_get_image_offset_B_tile_sa sf (miptail_start_level sf) 0 0"
  shows "miptail_goto nd tb img aspect \<noteq> Some Out_everything_is_miptail \<and>
    anv_sparse_calc_miptail_properties nd tb img aspect =
      (if \<not> nd \<and> (popcount aspect \<noteq> 1 \<or>
            (miptail_start_level sf < vk_mip_levels img \<and>
             \<not> (snd lvl_off = (0, 0) \<and> fst lvl_off mod ANV_SPARSE_BLOCK_SIZE = 0)))
       then None
       else if miptail_start_level sf \<ge> vk_mip_levels img
       then Some \<lparr>imageMipTailFirstLod = vk_mip_levels img, imageMipTailSize = 0,
                  imageMipTailOffset = 0, imageMipTailStride = 0\<rparr>
       else Some \<lparr>imageMipTailFirstLod = miptail_start_level sf,
                  imageMipTailSize = ANV_SPARSE_BLOCK_SIZE,
                  imageMipTailOffset =
                    u64 (planes_primary_surface_offset img (anv_image_aspect_to_plane img aspect)
                         + fst lvl_off),
                  imageMipTailStride = fst layer_one\<rparr>)"
proof -
  have nl: "tiling sf \<noteq> ISL_TILING_LINEAR"
    using friendly by (auto simp: isl_tiling_supports_standard_block_shapes_def)
  obtain a b c where layv: "layer_one = (a, b, c)" by (cases layer_one) auto
  obtain d e f where lvlv: "lvl_off = (d, e, f)" by (cases lvl_off) auto
  have g: "miptail_goto nd tb img aspect =
      (if \<not> nd \<and> (popcount aspect \<noteq> 1 \<or>
            (miptail_start_level sf < vk_mip_levels img \<and>
             \<not> (snd lvl_off = (0, 0) \<and> fst lvl_off mod ANV_SPARSE_BLOCK_SIZE = 0)))
       then None
       else if miptail_start_level sf \<ge> vk_mip_levels img then Some Out_no_miptail
       else Some (Fall_through (miptail_start_level sf) ANV_SPARSE_BLOCK_SIZE
              (u64 (planes_primary_surface_offset img (anv_image_aspect_to_plane img aspect)
                         + fst lvl_off)) (fst layer_one)))"
    using tile_size intra aligned friendly nl
    unfolding miptail_goto_def Let_def surf [symmetric] tile [symmetric] layer1 [symmetric]
      lvl [symmetric] layv lvlv
    by (cases nd) (auto simp: c_assert_def)
  show ?thesis
    unfolding anv_sparse_calc_miptail_properties_def g
    by (auto simp: Let_def)
qed

theorem miptail_sparse_friendly_witness:
  "anv_sparse_calc_miptail_properties False ex_tables ex_image VK_IMAGE_ASPECT_COLOR_BIT =
     Some \<lparr>imageMipTailFirstLod = 1, imageMipTailSize = 65536,
           imageMipTailOffset = 262144, imageMipTailStride = 327680\<rparr> \<and>
   anv_sparse_calc_miptail_properties False ex_tables (ex_image\<lparr>vk_mip_levels := 1\<rparr>)
     VK_IMAGE_ASPECT_COLOR_BIT =
     Some \<lparr>imageMipTailFirstLod = 1, imageMipTailSize = 0,
           imageMipTailOffset = 0, imageMipTailStride = 0\<rparr>"
  using miptail_sparse_friendly [where sf = ex_surf and img = ex_image
      and aspect = VK_IMAGE_ASPECT_COLOR_BIT and tb = ex_tables and nd = False
      and ti = "\<lparr>width = 128, height = 128, depth = 1\<rparr>" and layer_one = "(327680, 0, 0)"
      and lvl_off = "(262144, 0, 0)"]
    miptail_sparse_friendly [where sf = ex_surf and img = "ex_image\<lparr>vk_mip_levels := 1\<rparr>"
      and aspect = VK_IMAGE_ASPECT_COLOR_BIT and tb = ex_tables and nd = False
      and ti = "\<lparr>width = 128, height = 128, depth = 1\<rparr>" and layer_one = "(327680, 0, 0)"
      and lvl_off = "(262144, 0, 0)"]
  by (simp add: ex_image_def ex_surf_def ex_tables_def ex_layout_def popcount_color
      isl_tiling_supports_standard_block_shapes_def ANV_SPARSE_BLOCK_SIZE_def u32_def u64_def)

subsection \<open>The loops and their runs\<close>

lemma lines_run_imp_bind_lines:
  "lines_run nd dev req L sub y mo w bs res \<Longrightarrow> bind_lines nd dev req L sub y mo w = Some res"
proof (induction rule: lines_run.induct)
  case (lines_done y mo w)
  then show ?case by (subst bind_lines.simps) simp
next
  case (lines_fail y mo b w rc w')
  then show ?case by (subst bind_lines.simps) simp
next
  case (lines_step y mo b w rc w' bs res)
  then show ?case by (subst bind_lines.simps) simp
qed

lemma bind_lines_imp_lines_run:
  "bind_lines nd dev req L sub y mo w = Some res \<Longrightarrow> \<exists>bs. lines_run nd dev req L sub y mo w bs res"
proof (induction rule: bind_lines.raw_induct [rotated 1, consumes 1])
  case (1 f nd dev req L sub y mo w res)
  show ?case
  proof (cases "y < lines_end L")
    case False
    with 1(2) have "res = Inr (mo, w)" by simp
    with False show ?thesis by (auto intro: lines_done)
  next
    case True
    with 1(2) obtain b where b: "line_bind nd req L sub y mo = Some b"
      by (auto simp: Option.bind_eq_Some_conv)
    obtain rc w' where k: "kmd_vm_bind dev b w = (rc, w')" by (cases "kmd_vm_bind dev b w") auto
    show ?thesis
    proof (cases "rc = 0")
      case False
      with 1(2) True b k have "res = Inl (VK_ERROR_OUT_OF_DEVICE_MEMORY, w')" by simp
      with True b k False show ?thesis by (auto intro: lines_fail)
    next
      case z: True
      with 1(2) True b k have "f nd dev req L sub (u32 (y + height (block_shape_el L)))
          (u64 (mo + line_bind_size L)) w' = Some res" by simp
      from 1(1) [OF this] obtain bs where
        "lines_run nd dev req L sub (u32 (y + height (block_shape_el L)))
          (u64 (mo + line_bind_size L)) w' bs res" ..
      with True b k z show ?thesis by (auto intro: lines_step)
    qed
  qed
qed

lemma bind_lines_iff:
  "bind_lines nd dev req L sub y mo w = Some res \<longleftrightarrow> (\<exists>bs. lines_run nd dev req L sub y mo w bs res)"
  using bind_lines_imp_lines_run lines_run_imp_bind_lines by blast

lemma slices_run_imp_bind_slices:
  "slices_run nd dev req L z mo w bss res \<Longrightarrow> bind_slices nd dev req L z mo w = Some res"
proof (induction rule: slices_run.induct)
  case (slices_done z mo w)
  then show ?case by (subst bind_slices.simps) simp
next
  case (slices_fail z sub sx sy mo w bs e)
  then show ?case
    by (subst bind_slices.simps) (auto simp: c_assert_def lines_run_imp_bind_lines)
next
  case (slices_step z sub sx sy mo w bs mo' w' bss res)
  then show ?case
    by (subst bind_slices.simps) (auto simp: c_assert_def lines_run_imp_bind_lines)
qed

lemma bind_slices_imp_slices_run:
  "bind_slices nd dev req L z mo w = Some res \<Longrightarrow> \<exists>bss. slices_run nd dev req L z mo w bss res"
proof (induction rule: bind_slices.raw_induct [rotated 1, consumes 1])
  case (1 f nd dev req L z mo w res)
  show ?case
  proof (cases "z < slices_end L")
    case False
    with 1(2) have "res = Inr (mo, w)" by simp
    with False show ?thesis by (auto intro: slices_done)
  next
    case True
    obtain sub sx sy where o:
      "isl_surf_get_image_offset_B_tile_sa (surf L) (mip_level L) (array_layer L) z = (sub, sx, sy)"
      by (cases "isl_surf_get_image_offset_B_tile_sa (surf L) (mip_level L) (array_layer L) z") auto
    from 1(2) True o have a: "nd \<or> (sx = 0 \<and> sy = 0 \<and> block_size_B L \<noteq> 0 \<and> sub mod block_size_B L = 0)"
      by (auto simp: c_assert_def Option.bind_eq_Some_conv split: if_splits)
    from 1(2) True o a obtain r where r:
      "bind_lines nd dev req L sub (to_u32 (off_y (bind_offset_el L))) mo w = Some r"
      and rest: "(case r of Inl e \<Rightarrow> Some (Inl e)
                  | Inr (mo', w') \<Rightarrow> f nd dev req L (u32 (z + depth (block_shape_el L))) mo' w') = Some res"
      by (auto simp: c_assert_def Option.bind_eq_Some_conv split: if_splits)
    from r obtain bs where bs: "lines_run nd dev req L sub (to_u32 (off_y (bind_offset_el L))) mo w bs r"
      using bind_lines_imp_lines_run by blast
    show ?thesis
    proof (cases r)
      case (Inl e)
      with rest have "res = Inl e" by simp
      with bs Inl have "slices_run nd dev req L z mo w [bs] res"
        using slices_fail [OF True o a] by simp
      then show ?thesis ..
    next
      case (Inr p)
      obtain mo' w' where p: "p = (mo', w')" by (cases p) auto
      with rest Inr have "f nd dev req L (u32 (z + depth (block_shape_el L))) mo' w' = Some res" by simp
      from 1(1) [OF this] obtain bss where
        "slices_run nd dev req L (u32 (z + depth (block_shape_el L))) mo' w' bss res" ..
      with bs Inr p have "slices_run nd dev req L z mo w (bs # bss) res"
        using slices_step [OF True o a] by simp
      then show ?thesis ..
    qed
  qed
qed

subsection \<open>One line of blocks\<close>

lemma vk_bind_to_anv_vm_bind_Some:
  assumes "vk_bind_to_anv_vm_bind nd sparse vb = Some b"
  shows "b = \<lparr>bind_bo = map_option mem_bo (memory vb),
              bind_address = u64 (sparse_address sparse + resourceOffset vb),
              bind_bo_offset = (if memory vb = None then 0 else memoryOffset vb),
              bind_size = mb_size vb, bind_op = ANV_VM_BIND\<rparr>"
    and "\<not> nd \<Longrightarrow> mb_size vb \<noteq> 0"
    and "\<not> nd \<Longrightarrow> u64 (resourceOffset vb + mb_size vb) \<le> sparse_size sparse"
    and "\<not> nd \<Longrightarrow> memory vb = Some m \<Longrightarrow>
           u64 (memoryOffset vb + mb_size vb) \<le> bo_size (mem_bo m)"
  using assms
  by (auto simp: vk_bind_to_anv_vm_bind_def Let_def c_assert_def Option.bind_eq_Some_conv
      split: option.splits if_splits)

lemma vk_bind_to_anv_vm_bind_release:
  "vk_bind_to_anv_vm_bind True sparse vb =
     Some \<lparr>bind_bo = map_option mem_bo (memory vb),
           bind_address = u64 (sparse_address sparse + resourceOffset vb),
           bind_bo_offset = (if memory vb = None then 0 else memoryOffset vb),
           bind_size = mb_size vb, bind_op = ANV_VM_BIND\<rparr>"
  by (simp add: vk_bind_to_anv_vm_bind_def Let_def split: option.splits)

lemma vk_bind_to_anv_vm_bind_mono:
  "vk_bind_to_anv_vm_bind nd sparse vb = Some b \<Longrightarrow>
   vk_bind_to_anv_vm_bind True sparse vb = Some b"
  using vk_bind_to_anv_vm_bind_Some(1) [of nd sparse vb b]
  by (simp add: vk_bind_to_anv_vm_bind_release)

text \<open>The opaque bind that \<open>line_bind\<close> builds, and the conditions under which it succeeds.\<close>

lemma line_bind_unfold:
  "line_bind nd req L sub y mo =
     (if height (block_shape_el L) = 0 \<or> width (block_shape_el L) = 0 then None
      else if nd \<or> (block_size_B L \<noteq> 0 \<and>
              u64 (sub + u32 (y div height (block_shape_el L) * blocks_per_line L) *
                     block_size_B L) mod block_size_B L = 0 \<and>
              line_resource_offset L sub y mod block_size_B L = 0 \<and>
              line_bind_size L mod block_size_B L = 0)
      then vk_bind_to_anv_vm_bind nd (sparse_data L)
             \<lparr>resourceOffset = line_resource_offset L sub y, mb_size = line_bind_size L,
              memory = img_memory req, memoryOffset = mo, mb_flags = img_flags req\<rparr>
      else None)"
  by (auto simp: line_bind_def line_resource_offset_def udiv_def Let_def c_assert_def)

lemma line_bind_SomeD:
  assumes "line_bind nd req L sub y mo = Some b"
  shows "0 < height (block_shape_el L)" and "0 < width (block_shape_el L)"
    and "nd \<or> (block_size_B L \<noteq> 0 \<and> line_resource_offset L sub y mod block_size_B L = 0 \<and>
               line_bind_size L mod block_size_B L = 0)"
    and "vk_bind_to_anv_vm_bind nd (sparse_data L)
           \<lparr>resourceOffset = line_resource_offset L sub y, mb_size = line_bind_size L,
            memory = img_memory req, memoryOffset = mo, mb_flags = img_flags req\<rparr> = Some b"
proof -
  have nz: "\<not> (height (block_shape_el L) = 0 \<or> width (block_shape_el L) = 0)"
  proof
    assume "height (block_shape_el L) = 0 \<or> width (block_shape_el L) = 0"
    then have "line_bind nd req L sub y mo = None" by (simp add: line_bind_unfold)
    with assms show False by simp
  qed
  then show "0 < height (block_shape_el L)" and "0 < width (block_shape_el L)" by simp_all
  have c: "nd \<or> (block_size_B L \<noteq> 0 \<and>
              u64 (sub + u32 (y div height (block_shape_el L) * blocks_per_line L) *
                     block_size_B L) mod block_size_B L = 0 \<and>
              line_resource_offset L sub y mod block_size_B L = 0 \<and>
              line_bind_size L mod block_size_B L = 0)"
  proof (rule ccontr)
    assume n: "\<not> ?thesis"
    have "line_bind nd req L sub y mo = None"
      by (subst line_bind_unfold) (simp only: nz n if_False)
    with assms show False by simp
  qed
  then show "nd \<or> (block_size_B L \<noteq> 0 \<and> line_resource_offset L sub y mod block_size_B L = 0 \<and>
               line_bind_size L mod block_size_B L = 0)" by blast
  have "line_bind nd req L sub y mo = vk_bind_to_anv_vm_bind nd (sparse_data L)
           \<lparr>resourceOffset = line_resource_offset L sub y, mb_size = line_bind_size L,
            memory = img_memory req, memoryOffset = mo, mb_flags = img_flags req\<rparr>"
    using nz c by (simp add: line_bind_unfold)
  with assms show "vk_bind_to_anv_vm_bind nd (sparse_data L)
           \<lparr>resourceOffset = line_resource_offset L sub y, mb_size = line_bind_size L,
            memory = img_memory req, memoryOffset = mo, mb_flags = img_flags req\<rparr> = Some b"
    by simp
qed

lemma line_bind_value:
  assumes "line_bind nd req L sub y mo = Some b"
  shows "b = \<lparr>bind_bo = map_option mem_bo (img_memory req),
              bind_address = u64 (sparse_address (sparse_data L) + line_resource_offset L sub y),
              bind_bo_offset = (if img_memory req = None then 0 else mo),
              bind_size = line_bind_size L, bind_op = ANV_VM_BIND\<rparr>"
proof -
  from assms have "vk_bind_to_anv_vm_bind nd (sparse_data L)
           \<lparr>resourceOffset = line_resource_offset L sub y, mb_size = line_bind_size L,
            memory = img_memory req, memoryOffset = mo, mb_flags = img_flags req\<rparr> = Some b"
    by (rule line_bind_SomeD)
  from vk_bind_to_anv_vm_bind_Some(1) [OF this] show ?thesis by simp
qed

lemma line_bind_checked:
  assumes "line_bind False req L sub y mo = Some b"
  shows "block_size_B L \<noteq> 0"
    and "bind_size b mod block_size_B L = 0"
    and "bind_size b \<noteq> 0"
    and "line_resource_offset L sub y mod block_size_B L = 0"
    and "u64 (line_resource_offset L sub y + bind_size b) \<le> sparse_size (sparse_data L)"
    and "bind_bo b = Some bo \<Longrightarrow> u64 (bind_bo_offset b + bind_size b) \<le> bo_size bo"
proof -
  from assms have al: "block_size_B L \<noteq> 0 \<and> line_resource_offset L sub y mod block_size_B L = 0 \<and>
               line_bind_size L mod block_size_B L = 0"
    using line_bind_SomeD(3) [OF assms] by simp
  from assms have vb: "vk_bind_to_anv_vm_bind False (sparse_data L)
           \<lparr>resourceOffset = line_resource_offset L sub y, mb_size = line_bind_size L,
            memory = img_memory req, memoryOffset = mo, mb_flags = img_flags req\<rparr> = Some b"
    by (rule line_bind_SomeD)
  note v = line_bind_value [OF assms]
  note c = vk_bind_to_anv_vm_bind_Some(2-4) [OF vb]
  show "block_size_B L \<noteq> 0" using al by simp
  show "bind_size b mod block_size_B L = 0" using al v by simp
  show "bind_size b \<noteq> 0" using c(1) v by simp
  show "line_resource_offset L sub y mod block_size_B L = 0" using al by simp
  show "u64 (line_resource_offset L sub y + bind_size b) \<le> sparse_size (sparse_data L)"
    using c(2) v by simp
  show "u64 (bind_bo_offset b + bind_size b) \<le> bo_size bo" if "bind_bo b = Some bo"
  proof -
    from that v obtain m where m: "img_memory req = Some m" "bo = mem_bo m"
      by (cases "img_memory req") auto
    have "u64 (mo + line_bind_size L) \<le> bo_size (mem_bo m)"
      using c(3) [of m] m by simp
    with v m show ?thesis by simp
  qed
qed

lemma line_bind_release:
  "0 < height (block_shape_el L) \<Longrightarrow> 0 < width (block_shape_el L) \<Longrightarrow>
   line_bind True req L sub y mo =
     Some \<lparr>bind_bo = map_option mem_bo (img_memory req),
           bind_address = u64 (sparse_address (sparse_data L) + line_resource_offset L sub y),
           bind_bo_offset = (if img_memory req = None then 0 else mo),
           bind_size = line_bind_size L, bind_op = ANV_VM_BIND\<rparr>"
  by (simp add: line_bind_unfold vk_bind_to_anv_vm_bind_release)

lemma line_bind_mono:
  assumes "line_bind nd req L sub y mo = Some b"
  shows "line_bind True req L sub y mo = Some b"
proof -
  from assms have "0 < height (block_shape_el L)" "0 < width (block_shape_el L)"
    by (rule line_bind_SomeD)+
  then show ?thesis using line_bind_value [OF assms] by (simp add: line_bind_release)
qed

subsection \<open>Backend calls of a run\<close>

lemma replay_append:
  "replay dev s (xs @ ys) =
     (fst (replay dev s xs) @ fst (replay dev (snd (replay dev s xs)) ys),
      snd (replay dev (snd (replay dev s xs)) ys))"
  by (induction xs arbitrary: s) (simp_all add: split_beta Let_def)

lemma trace_of_nil: "trace_of dev w [] (Inr (mo, w))"
  by (simp add: trace_of_def loop_world_def)

lemma trace_of_fail:
  assumes "kmd_vm_bind dev b w = (rc, w')" and "rc \<noteq> 0"
  shows "trace_of dev w [b] (Inl (VK_ERROR_OUT_OF_DEVICE_MEMORY, w'))"
proof -
  from assms(1) have "vm_bind dev (kstate w) b = (rc, kstate w')"
    and "calls w' = calls w @ [Call_vm_bind b]"
    by (auto simp: kmd_vm_bind_def split_beta Let_def prod_eq_iff)
  with assms(2) show ?thesis
    by (auto simp: trace_of_def loop_world_def intro: exI [of _ 0])
qed

lemma trace_of_cons:
  assumes k: "kmd_vm_bind dev b w = (0, w')" and t: "trace_of dev w' bs res"
  shows "trace_of dev w (b # bs) res"
proof -
  from k have v: "vm_bind dev (kstate w) b = (0, kstate w')"
    and c: "calls w' = calls w @ [Call_vm_bind b]"
    by (auto simp: kmd_vm_bind_def split_beta Let_def prod_eq_iff)
  have r: "replay dev (kstate w) (b # bs) =
      (0 # fst (replay dev (kstate w') bs), snd (replay dev (kstate w') bs))"
    using v by (simp add: split_beta)
  show ?thesis
  proof (cases res)
    case (Inr p)
    with t c show ?thesis unfolding trace_of_def r by simp
  next
    case (Inl q)
    obtain e w'' where q: "q = (e, w'')" by (cases q) auto
    from t Inl q obtain k rc where kr:
      "fst (replay dev (kstate w') bs) = replicate k 0 @ [rc]" "rc \<noteq> 0"
      by (auto simp: trace_of_def)
    then have "0 # fst (replay dev (kstate w') bs) = replicate (Suc k) 0 @ [rc]" by simp
    with t Inl q c kr(2) show ?thesis unfolding trace_of_def r
      by (simp del: replicate_Suc) blast
  qed
qed

lemma trace_of_append:
  assumes t1: "trace_of dev w bs (Inr (mo', w'))" and t2: "trace_of dev w' cs res"
  shows "trace_of dev w (bs @ cs) res"
proof -
  from t1 have c1: "calls w' = calls w @ map Call_vm_bind bs"
    and s1: "snd (replay dev (kstate w) bs) = kstate w'"
    and z1: "\<forall>rc \<in> set (fst (replay dev (kstate w) bs)). rc = 0"
    by (simp_all add: trace_of_def loop_world_def)
  from z1 have rep: "fst (replay dev (kstate w) bs) =
      replicate (length (fst (replay dev (kstate w) bs))) 0"
    by (simp add: replicate_length_same)
  show ?thesis
  proof (cases res)
    case (Inr p)
    with t2 c1 s1 z1 show ?thesis
      unfolding trace_of_def replay_append by auto
  next
    case (Inl q)
    obtain e w'' where q: "q = (e, w'')" by (cases q) auto
    from t2 Inl q obtain k rc where kr:
      "fst (replay dev (kstate w') cs) = replicate k 0 @ [rc]" "rc \<noteq> 0"
      by (auto simp: trace_of_def)
    have "fst (replay dev (kstate w) bs) @ fst (replay dev (kstate w') cs) =
        replicate (length (fst (replay dev (kstate w) bs)) + k) 0 @ [rc]"
      by (subst rep) (simp add: kr replicate_add)
    with t2 Inl q c1 s1 kr(2) show ?thesis
      unfolding trace_of_def replay_append by simp blast
  qed
qed

lemma lines_run_trace:
  "lines_run nd dev req L sub y mo w bs res \<Longrightarrow> trace_of dev w bs res"
proof (induction rule: lines_run.induct)
  case (lines_done y mo w)
  show ?case by (rule trace_of_nil)
next
  case (lines_fail y mo b w rc w')
  then show ?case by (auto intro: trace_of_fail)
next
  case (lines_step y mo b w rc w' bs res)
  then show ?case by (auto intro: trace_of_cons)
qed

lemma slices_run_trace:
  "slices_run nd dev req L z mo w bss res \<Longrightarrow> trace_of dev w (concat bss) res"
proof (induction rule: slices_run.induct)
  case (slices_done z mo w)
  show ?case by (simp add: trace_of_nil)
next
  case (slices_fail z sub sx sy mo w bs e)
  then show ?case by (auto dest: lines_run_trace)
next
  case (slices_step z sub sx sy mo w bs mo' w' bss res)
  from lines_run_trace [OF slices_step(4)] slices_step.IH
  show ?case by (simp add: trace_of_append)
qed

subsection \<open>The binds of a run\<close>

lemma lines_run_binds:
  "lines_run nd dev req L sub y mo w bs res \<Longrightarrow>
   \<forall>b \<in> set bs. bind_size b = line_bind_size L \<and> bind_op b = ANV_VM_BIND \<and>
      bind_bo b = map_option mem_bo (img_memory req) \<and>
      (img_memory req = None \<longrightarrow> bind_bo_offset b = 0)"
proof (induction rule: lines_run.induct)
  case (lines_done y mo w)
  show ?case by simp
next
  case (lines_fail y mo b w rc w')
  from line_bind_value [OF lines_fail(2)] show ?case by simp
next
  case (lines_step y mo b w rc w' bs res)
  from line_bind_value [OF lines_step(2)] lines_step.IH show ?case by simp
qed

lemma slices_run_binds:
  "slices_run nd dev req L z mo w bss res \<Longrightarrow>
   \<forall>b \<in> set (concat bss). bind_size b = line_bind_size L \<and> bind_op b = ANV_VM_BIND \<and>
      bind_bo b = map_option mem_bo (img_memory req) \<and>
      (img_memory req = None \<longrightarrow> bind_bo_offset b = 0)"
proof (induction rule: slices_run.induct)
  case (slices_done z mo w)
  show ?case by simp
next
  case (slices_fail z sub sx sy mo w bs e)
  from lines_run_binds [OF slices_fail(4)] show ?case by simp
next
  case (slices_step z sub sx sy mo w bs mo' w' bss res)
  from lines_run_binds [OF slices_step(4)] slices_step.IH show ?case by auto
qed

lemma lines_run_checked:
  "lines_run False dev req L sub y mo w bs res \<Longrightarrow>
   \<forall>b \<in> set bs. block_size_B L \<noteq> 0 \<and> bind_size b mod block_size_B L = 0 \<and> bind_size b \<noteq> 0 \<and>
      (\<exists>ro. bind_address b = u64 (sparse_address (sparse_data L) + ro) \<and>
            ro mod block_size_B L = 0 \<and>
            u64 (ro + bind_size b) \<le> sparse_size (sparse_data L)) \<and>
      (\<forall>bo. bind_bo b = Some bo \<longrightarrow> u64 (bind_bo_offset b + bind_size b) \<le> bo_size bo)"
proof (induction rule: lines_run.induct)
  case (lines_done y mo w)
  show ?case by simp
next
  case (lines_fail y mo b w rc w')
  note c = line_bind_checked [OF lines_fail(2)] and v = line_bind_value [OF lines_fail(2)]
  have "\<exists>ro. bind_address b = u64 (sparse_address (sparse_data L) + ro) \<and>
            ro mod block_size_B L = 0 \<and>
            u64 (ro + bind_size b) \<le> sparse_size (sparse_data L)"
    using c(4,5) v by (intro exI [of _ "line_resource_offset L sub y"]) simp
  with c(1-3) c(6) show ?case by simp
next
  case (lines_step y mo b w rc w' bs res)
  note c = line_bind_checked [OF lines_step(2)] and v = line_bind_value [OF lines_step(2)]
  have "\<exists>ro. bind_address b = u64 (sparse_address (sparse_data L) + ro) \<and>
            ro mod block_size_B L = 0 \<and>
            u64 (ro + bind_size b) \<le> sparse_size (sparse_data L)"
    using c(4,5) v by (intro exI [of _ "line_resource_offset L sub y"]) simp
  with c(1-3) c(6) lines_step.IH show ?case by simp
qed

lemma slices_run_checked:
  "slices_run False dev req L z mo w bss res \<Longrightarrow>
   \<forall>b \<in> set (concat bss). block_size_B L \<noteq> 0 \<and> bind_size b mod block_size_B L = 0 \<and>
      bind_size b \<noteq> 0 \<and>
      (\<exists>ro. bind_address b = u64 (sparse_address (sparse_data L) + ro) \<and>
            ro mod block_size_B L = 0 \<and>
            u64 (ro + bind_size b) \<le> sparse_size (sparse_data L)) \<and>
      (\<forall>bo. bind_bo b = Some bo \<longrightarrow> u64 (bind_bo_offset b + bind_size b) \<le> bo_size bo)"
proof (induction rule: slices_run.induct)
  case (slices_done z mo w)
  show ?case by simp
next
  case (slices_fail z sub sx sy mo w bs e)
  from lines_run_checked [OF slices_fail(4)] show ?case by simp
next
  case (slices_step z sub sx sy mo w bs mo' w' bss res)
  from lines_run_checked [OF slices_step(4)] slices_step.IH show ?case by auto
qed

subsection \<open>Memory offsets of a run\<close>

lemma map_upt_shift:
  "map f [0..<m + n] = map f [0..<m] @ map (\<lambda>i. f (m + i)) [0..<n]"
proof -
  have "[0..<m + n] = [0..<m] @ map (\<lambda>i. m + i) [0..<n]"
    by (induction n) simp_all
  then show ?thesis by (simp add: comp_def)
qed

lemma lines_run_offsets:
  "lines_run nd dev req L sub y mo w bs res \<Longrightarrow> mo < 2 ^ 64 \<Longrightarrow>
   map bind_bo_offset bs =
     map (\<lambda>i. if img_memory req = None then 0 else u64 (mo + i * line_bind_size L))
       [0..<length bs] \<and>
   (\<forall>mo' w'. res = Inr (mo', w') \<longrightarrow> mo' = u64 (mo + length bs * line_bind_size L))"
proof (induction rule: lines_run.induct)
  case (lines_done y mo w)
  then show ?case by (simp add: u64_id)
next
  case (lines_fail y mo b w rc w')
  from line_bind_value [OF lines_fail(2)] lines_fail.prems show ?case by (simp add: u64_id)
next
  case (lines_step y mo b w rc w' bs res)
  have ih: "map bind_bo_offset bs =
     map (\<lambda>i. if img_memory req = None then 0
               else u64 (u64 (mo + line_bind_size L) + i * line_bind_size L)) [0..<length bs]"
    and ih2: "\<forall>mo' w'. res = Inr (mo', w') \<longrightarrow>
       mo' = u64 (u64 (mo + line_bind_size L) + length bs * line_bind_size L)"
    using lines_step.IH [OF u64_less] by simp_all
  have e: "u64 (u64 (mo + line_bind_size L) + i * line_bind_size L) =
      u64 (mo + Suc i * line_bind_size L)" for i
    by (simp add: u64_add_left add.assoc)
  have hd: "bind_bo_offset b = (if img_memory req = None then 0 else u64 (mo + 0 * line_bind_size L))"
    using line_bind_value [OF lines_step(2)] lines_step.prems by (simp add: u64_id)
  have "[0..<Suc (length bs)] = 0 # map Suc [0..<length bs]"
    by (simp add: upt_conv_Cons map_Suc_upt del: upt_Suc)
  then have "map (\<lambda>i. if img_memory req = None then 0 else u64 (mo + i * line_bind_size L))
       [0..<length (b # bs)] =
     (if img_memory req = None then 0 else u64 (mo + 0 * line_bind_size L)) #
     map (\<lambda>i. if img_memory req = None then 0 else u64 (mo + Suc i * line_bind_size L))
       [0..<length bs]"
    by (simp add: comp_def del: upt_Suc)
  then show ?case using ih ih2 hd unfolding e by simp
qed

lemma slices_run_offsets:
  "slices_run nd dev req L z mo w bss res \<Longrightarrow> mo < 2 ^ 64 \<Longrightarrow>
   map bind_bo_offset (concat bss) =
     map (\<lambda>i. if img_memory req = None then 0 else u64 (mo + i * line_bind_size L))
       [0..<length (concat bss)] \<and>
   (\<forall>mo' w'. res = Inr (mo', w') \<longrightarrow> mo' = u64 (mo + length (concat bss) * line_bind_size L))"
proof (induction rule: slices_run.induct)
  case (slices_done z mo w)
  then show ?case by (simp add: u64_id)
next
  case (slices_fail z sub sx sy mo w bs e)
  from lines_run_offsets [OF slices_fail(4) slices_fail.prems] show ?case by simp
next
  case (slices_step z sub sx sy mo w bs mo' w' bss res)
  note l = lines_run_offsets [OF slices_step(4) slices_step.prems]
  from l have mo': "mo' = u64 (mo + length bs * line_bind_size L)" by simp
  then have "mo' < 2 ^ 64" by simp
  note ih = slices_step.IH [OF this]
  have e: "u64 (mo' + i * line_bind_size L) = u64 (mo + (length bs + i) * line_bind_size L)" for i
    unfolding mo' by (simp add: u64_add_left add.assoc distrib_right)
  show ?case
    using l ih unfolding e
    by (simp add: map_upt_shift [of _ "length bs" "length (concat bss)"])
qed

subsection \<open>The number of iterations\<close>

lemma lines_run_count:
  "lines_run nd dev req L sub y mo w bs res \<Longrightarrow> 0 < height (block_shape_el L) \<Longrightarrow>
   y + m * height (block_shape_el L) = lines_end L \<Longrightarrow>
   length bs \<le> m \<and> (\<forall>p. res = Inr p \<longrightarrow> length bs = m)"
proof (induction arbitrary: m rule: lines_run.induct)
  case (lines_done y mo w)
  from lines_done(1) lines_done.prems(2) have "m * height (block_shape_el L) = 0" by linarith
  with lines_done.prems(1) show ?case by simp
next
  case (lines_fail y mo b w rc w')
  then have "m \<noteq> 0" by (cases m) auto
  then show ?case by simp
next
  case (lines_step y mo b w rc w' bs res)
  from lines_step(1) lines_step.prems obtain m' where m: "m = Suc m'" by (cases m) auto
  have le: "y + height (block_shape_el L) \<le> lines_end L"
    using lines_step.prems(2) m by simp
  have "y + height (block_shape_el L) < 2 ^ 32"
    by (rule le_less_trans [OF le]) simp
  then have "u32 (y + height (block_shape_el L)) + m' * height (block_shape_el L) = lines_end L"
    using lines_step.prems(2) m by (simp add: u32_id)
  from lines_step.IH [OF lines_step.prems(1) this] m show ?case by simp
qed

lemma length_concat_same:
  "\<forall>bs \<in> set bss. length bs = m \<Longrightarrow> length (concat bss) = length bss * m"
  by (induction bss) simp_all

lemma slices_run_count:
  "slices_run nd dev req L z mo w bss res \<Longrightarrow> 0 < depth (block_shape_el L) \<Longrightarrow>
   0 < height (block_shape_el L) \<Longrightarrow>
   z + k * depth (block_shape_el L) = slices_end L \<Longrightarrow>
   to_u32 (off_y (bind_offset_el L)) + m * height (block_shape_el L) = lines_end L \<Longrightarrow>
   length (concat bss) \<le> k * m \<and> (\<forall>p. res = Inr p \<longrightarrow> length (concat bss) = k * m)"
proof (induction arbitrary: k rule: slices_run.induct)
  case (slices_done z mo w)
  from slices_done(1) slices_done.prems(3) have "k * depth (block_shape_el L) = 0" by linarith
  with slices_done.prems(1) show ?case by simp
next
  case (slices_fail z sub sx sy mo w bs e)
  then obtain k' where k: "k = Suc k'" by (cases k) auto
  from lines_run_count [OF slices_fail(4) slices_fail.prems(2) slices_fail.prems(4)]
  have "length bs \<le> m" by simp
  then have "length bs \<le> m + k' * m" by simp
  then show ?case using k by simp
next
  case (slices_step z sub sx sy mo w bs mo' w' bss res)
  from slices_step(1) slices_step.prems obtain k' where k: "k = Suc k'" by (cases k) auto
  have le: "z + depth (block_shape_el L) \<le> slices_end L"
    using slices_step.prems(3) k by simp
  have "z + depth (block_shape_el L) < 2 ^ 32"
    by (rule le_less_trans [OF le]) simp
  then have "u32 (z + depth (block_shape_el L)) + k' * depth (block_shape_el L) = slices_end L"
    using slices_step.prems(3) k by (simp add: u32_id)
  note ih = slices_step.IH [OF slices_step.prems(1) slices_step.prems(2) this slices_step.prems(4)]
  from lines_run_count [OF slices_step(4) slices_step.prems(2) slices_step.prems(4)]
  have "length bs = m" by simp
  with ih k show ?case by simp
qed

subsection \<open>Runs exist when assertions are compiled out\<close>

lemma lines_run_release:
  "0 < height (block_shape_el L) \<Longrightarrow> 0 < width (block_shape_el L) \<Longrightarrow>
   y + m * height (block_shape_el L) = lines_end L \<Longrightarrow>
   \<exists>bs res. lines_run True dev req L sub y mo w bs res"
proof (induction m arbitrary: y mo w)
  case 0
  then have "\<not> y < lines_end L" by simp
  then show ?case by (blast intro: lines_done)
next
  case (Suc m)
  then have lt: "y < lines_end L" by simp
  have le: "y + height (block_shape_el L) \<le> lines_end L" using Suc.prems(3) by simp
  have "y + height (block_shape_el L) < 2 ^ 32"
    by (rule le_less_trans [OF le]) simp
  then have nxt: "u32 (y + height (block_shape_el L)) + m * height (block_shape_el L) = lines_end L"
    using Suc.prems(3) by (simp add: u32_id)
  obtain b where b: "line_bind True req L sub y mo = Some b"
    using line_bind_release [OF Suc.prems(1,2)] by blast
  obtain rc w' where k: "kmd_vm_bind dev b w = (rc, w')" by (cases "kmd_vm_bind dev b w") auto
  show ?case
  proof (cases "rc = 0")
    case False
    from lines_fail [OF lt b k False] show ?thesis by blast
  next
    case True
    from Suc.IH [OF Suc.prems(1,2) nxt] obtain bs res where
      "lines_run True dev req L sub (u32 (y + height (block_shape_el L)))
         (u64 (mo + line_bind_size L)) w' bs res" by blast
    from lines_step [OF lt b k True this] show ?thesis by blast
  qed
qed

lemma slices_run_release:
  "0 < depth (block_shape_el L) \<Longrightarrow> 0 < height (block_shape_el L) \<Longrightarrow>
   0 < width (block_shape_el L) \<Longrightarrow>
   z + k * depth (block_shape_el L) = slices_end L \<Longrightarrow>
   to_u32 (off_y (bind_offset_el L)) + m * height (block_shape_el L) = lines_end L \<Longrightarrow>
   \<exists>bss res. slices_run True dev req L z mo w bss res"
proof (induction k arbitrary: z mo w)
  case 0
  then have "\<not> z < slices_end L" by simp
  then show ?case by (blast intro: slices_done)
next
  case (Suc k)
  then have lt: "z < slices_end L" by simp
  have le: "z + depth (block_shape_el L) \<le> slices_end L" using Suc.prems(4) by simp
  have "z + depth (block_shape_el L) < 2 ^ 32"
    by (rule le_less_trans [OF le]) simp
  then have nxt: "u32 (z + depth (block_shape_el L)) + k * depth (block_shape_el L) = slices_end L"
    using Suc.prems(4) by (simp add: u32_id)
  obtain sub sx sy where o:
    "isl_surf_get_image_offset_B_tile_sa (surf L) (mip_level L) (array_layer L) z = (sub, sx, sy)"
    by (cases "isl_surf_get_image_offset_B_tile_sa (surf L) (mip_level L) (array_layer L) z") auto
  have a: "True \<or> (sx = 0 \<and> sy = 0 \<and> block_size_B L \<noteq> 0 \<and> sub mod block_size_B L = 0)"
    by simp
  obtain bs r where r:
    "lines_run True dev req L sub (to_u32 (off_y (bind_offset_el L))) mo w bs r"
    using lines_run_release [OF Suc.prems(2,3,5)] by blast
  show ?case
  proof (cases r)
    case (Inl e)
    from slices_fail [OF lt o a r [unfolded Inl]] show ?thesis by blast
  next
    case (Inr p)
    obtain mo' w' where p: "p = (mo', w')" by (cases p) auto
    from Suc.IH [OF Suc.prems(1,2,3) nxt Suc.prems(5)] obtain bss res where
      "slices_run True dev req L (u32 (z + depth (block_shape_el L))) mo' w' bss res" by blast
    from slices_step [OF lt o a r [unfolded Inr p] this] show ?thesis by blast
  qed
qed

subsection \<open>Assertions only remove runs\<close>

lemma lines_run_mono:
  "lines_run nd dev req L sub y mo w bs res \<Longrightarrow> lines_run True dev req L sub y mo w bs res"
proof (induction rule: lines_run.induct)
  case (lines_done y mo w)
  then show ?case by (rule lines_run.lines_done)
next
  case (lines_fail y mo b w rc w')
  from lines_run.lines_fail [OF lines_fail(1) line_bind_mono [OF lines_fail(2)] lines_fail(3,4)]
  show ?case .
next
  case (lines_step y mo b w rc w' bs res)
  from lines_run.lines_step [OF lines_step(1) line_bind_mono [OF lines_step(2)]
      lines_step(3,4) lines_step.IH]
  show ?case .
qed

lemma slices_run_mono:
  "slices_run nd dev req L z mo w bss res \<Longrightarrow> slices_run True dev req L z mo w bss res"
proof (induction rule: slices_run.induct)
  case (slices_done z mo w)
  then show ?case by (rule slices_run.slices_done)
next
  case (slices_fail z sub sx sy mo w bs e)
  have a: "True \<or> (sx = 0 \<and> sy = 0 \<and> block_size_B L \<noteq> 0 \<and> sub mod block_size_B L = 0)"
    by simp
  from slices_run.slices_fail [OF slices_fail(1,2) a lines_run_mono [OF slices_fail(4)]]
  show ?case .
next
  case (slices_step z sub sx sy mo w bs mo' w' bss res)
  have a: "True \<or> (sx = 0 \<and> sy = 0 \<and> block_size_B L \<noteq> 0 \<and> sub mod block_size_B L = 0)"
    by simp
  from slices_run.slices_step [OF slices_step(1,2) a lines_run_mono [OF slices_step(4)]
      slices_step.IH]
  show ?case .
qed

subsection \<open>Addresses do not depend on the memory\<close>

lemma lines_run_same_addresses:
  "lines_run nd dev req L sub y mo w bs res \<Longrightarrow> res = Inr p \<Longrightarrow>
   lines_run nd' dev' req' L sub y mo' v bs' (Inr p') \<Longrightarrow>
   map bind_address bs' = map bind_address bs"
proof (induction arbitrary: mo' v bs' p p' rule: lines_run.induct)
  case (lines_done y mo w)
  from lines_done.prems(2) lines_done(1) show ?case
    by (cases rule: lines_run.cases) simp_all
next
  case (lines_fail y mo b w rc w')
  then show ?case by simp
next
  case (lines_step y mo b w rc w' bs res)
  from lines_step.prems(2) show ?case
  proof (cases rule: lines_run.cases)
    case lines_done
    with lines_step(1) show ?thesis by simp
  next
    case (lines_step b' rc' v' bs'')
    have "bind_address b' = bind_address b"
      using line_bind_value [OF lines_step(3)] line_bind_value [OF \<open>line_bind nd req L sub y mo = Some b\<close>]
      by simp
    moreover have "map bind_address bs'' = map bind_address bs"
      using lines_step.IH [OF \<open>res = Inr p\<close> lines_step(6)] .
    ultimately show ?thesis using lines_step(1) by simp
  qed
qed

lemma slices_run_same_addresses:
  "slices_run nd dev req L z mo w bss res \<Longrightarrow> res = Inr p \<Longrightarrow>
   slices_run nd' dev' req' L z mo' v bss' (Inr p') \<Longrightarrow>
   map bind_address (concat bss') = map bind_address (concat bss)"
proof (induction arbitrary: mo' v bss' p p' rule: slices_run.induct)
  case (slices_done z mo w)
  from slices_done.prems(2) slices_done(1) show ?case
    by (cases rule: slices_run.cases) simp_all
next
  case (slices_fail z sub sx sy mo w bs e)
  then show ?case by simp
next
  case (slices_step z sub sx sy mo w bs mo1 w1 bss res)
  from slices_step.prems(2) show ?case
  proof (cases rule: slices_run.cases)
    case slices_done
    with slices_step(1) show ?thesis by simp
  next
    case (slices_step sub' sx' sy' bs' mo2 v2 bss'')
    from slices_step(3) \<open>isl_surf_get_image_offset_B_tile_sa (surf L) (mip_level L) (array_layer L) z = (sub, sx, sy)\<close>
    have s: "sub' = sub" by simp
    have "map bind_address bs' = map bind_address bs"
      using lines_run_same_addresses [OF \<open>lines_run nd dev req L sub (to_u32 (off_y (bind_offset_el L))) mo w bs (Inr (mo1, w1))\<close> refl
          slices_step(5) [unfolded s]] .
    moreover have "map bind_address (concat bss'') = map bind_address (concat bss)"
      using slices_step.IH [OF \<open>res = Inr p\<close> slices_step(6)] .
    ultimately show ?thesis using slices_step(1) by simp
  qed
qed

lemma lines_run_same_end:
  "lines_run nd dev req L sub y mo w bs res \<Longrightarrow> res = Inr (m1, w1) \<Longrightarrow>
   lines_run nd' dev' req' L sub y mo v bs' (Inr (m2, w2)) \<Longrightarrow> m2 = m1"
proof (induction arbitrary: v bs' rule: lines_run.induct)
  case (lines_done y mo w)
  from lines_done.prems(2) lines_done(1) lines_done.prems(1) show ?case
    by (cases rule: lines_run.cases) simp_all
next
  case (lines_fail y mo b w rc w')
  then show ?case by simp
next
  case (lines_step y mo b w rc w' bs res)
  from lines_step.prems(2) show ?case
  proof (cases rule: lines_run.cases)
    case lines_done
    with lines_step(1) show ?thesis by simp
  next
    case (lines_step b' rc' v' bs'')
    from lines_step.IH [OF \<open>res = Inr (m1, w1)\<close> lines_step(6)] show ?thesis .
  qed
qed

subsection \<open>A run that completes against one backend returns against every backend\<close>

lemma lines_run_any_backend:
  "lines_run nd dev0 req L sub y mo w0 bs0 res0 \<Longrightarrow> res0 = Inr p \<Longrightarrow>
   \<exists>bs res. lines_run nd dev req L sub y mo w bs res"
proof (induction arbitrary: w rule: lines_run.induct)
  case (lines_done y mo w0)
  from lines_run.lines_done [OF lines_done(1)] show ?case by blast
next
  case (lines_fail y mo b w0 rc w0')
  then show ?case by simp
next
  case (lines_step y mo b w0 rc w0' bs0 res0)
  obtain rc' w' where k: "kmd_vm_bind dev b w = (rc', w')" by (cases "kmd_vm_bind dev b w") auto
  show ?case
  proof (cases "rc' = 0")
    case False
    from lines_run.lines_fail [OF lines_step(1,2) k False] show ?thesis by blast
  next
    case True
    from lines_step.IH [OF lines_step.prems, of w'] obtain bs res where
      "lines_run nd dev req L sub (u32 (y + height (block_shape_el L)))
         (u64 (mo + line_bind_size L)) w' bs res" by blast
    from lines_run.lines_step [OF lines_step(1,2) k True this] show ?thesis by blast
  qed
qed

lemma slices_run_any_backend:
  "slices_run nd dev0 req L z mo w0 bss0 res0 \<Longrightarrow> res0 = Inr p \<Longrightarrow>
   \<exists>bss res. slices_run nd dev req L z mo w bss res"
proof (induction arbitrary: w rule: slices_run.induct)
  case (slices_done z mo w0)
  from slices_run.slices_done [OF slices_done(1)] show ?case by blast
next
  case (slices_fail z sub sx sy mo w0 bs e)
  then show ?case by simp
next
  case (slices_step z sub sx sy mo w0 bs0 mo1 w1 bss0 res0)
  from lines_run_any_backend [OF slices_step(4) refl, of dev w] obtain bs r where
    r: "lines_run nd dev req L sub (to_u32 (off_y (bind_offset_el L))) mo w bs r" by blast
  show ?case
  proof (cases r)
    case (Inl e)
    from slices_run.slices_fail [OF slices_step(1,2,3) r [unfolded Inl]] show ?thesis by blast
  next
    case (Inr q)
    obtain mo2 w2 where q: "q = (mo2, w2)" by (cases q) auto
    have "mo2 = mo1"
      using lines_run_same_end [OF slices_step(4) refl r [unfolded Inr q]] .
    with r Inr q have r': "lines_run nd dev req L sub (to_u32 (off_y (bind_offset_el L))) mo w bs
        (Inr (mo1, w2))" by simp
    from slices_step.IH [OF slices_step.prems, of w2] obtain bss res where
      "slices_run nd dev req L (u32 (z + depth (block_shape_el L))) mo1 w2 bss res" by blast
    from slices_run.slices_step [OF slices_step(1,2,3) r' this] show ?thesis by blast
  qed
qed

subsection \<open>The whole function\<close>

lemma image_bind_SomeD:
  assumes "anv_sparse_bind_image_memory nd dev img req w = Some (r, w')"
  shows "\<exists>L bss res. image_bind_locals nd dev img req = Some L \<and>
           slices_run nd dev req L (to_u32 (off_z (bind_offset_el L))) (img_memoryOffset req) w
             bss res \<and>
           r = (case res of Inl q \<Rightarrow> fst q | Inr q \<Rightarrow> VK_SUCCESS) \<and> w' = loop_world res"
proof -
  obtain L where L: "image_bind_locals nd dev img req = Some L"
    using assms unfolding anv_sparse_bind_image_memory_def
    by (cases "image_bind_locals nd dev img req") simp_all
  obtain res where s:
    "bind_slices nd dev req L (to_u32 (off_z (bind_offset_el L))) (img_memoryOffset req) w
       = Some res"
    using assms L unfolding anv_sparse_bind_image_memory_def
    by (cases "bind_slices nd dev req L (to_u32 (off_z (bind_offset_el L)))
                 (img_memoryOffset req) w") simp_all
  have r: "r = (case res of Inl q \<Rightarrow> fst q | Inr q \<Rightarrow> VK_SUCCESS)" "w' = loop_world res"
    using assms L s unfolding anv_sparse_bind_image_memory_def loop_world_def
    by (auto split: sum.splits prod.splits)
  from bind_slices_imp_slices_run [OF s] obtain bss where
    "slices_run nd dev req L (to_u32 (off_z (bind_offset_el L))) (img_memoryOffset req) w bss res"
    ..
  with L r show ?thesis by blast
qed

lemma image_bind_SomeI:
  assumes "image_bind_locals nd dev img req = Some L"
    and "slices_run nd dev req L (to_u32 (off_z (bind_offset_el L))) (img_memoryOffset req) w
           bss res"
  shows "anv_sparse_bind_image_memory nd dev img req w =
           Some (case res of Inl q \<Rightarrow> fst q | Inr q \<Rightarrow> VK_SUCCESS, loop_world res)"
  using assms(1) slices_run_imp_bind_slices [OF assms(2)]
  unfolding anv_sparse_bind_image_memory_def
  by (simp add: loop_world_def split: sum.splits prod.splits)

lemma calc_block_shape_mono:
  "anv_sparse_calc_block_shape nd pd sf = Some s \<Longrightarrow>
   anv_sparse_calc_block_shape True pd sf = Some s"
  unfolding anv_sparse_calc_block_shape_def Let_def
  by (auto simp: Option.bind_eq_Some_conv split: if_splits)

lemma image_bind_locals_memory:
  "image_bind_locals nd dev img (req\<lparr>img_memory := m\<rparr>) = image_bind_locals nd dev img req"
  by (simp add: image_bind_locals_def)

lemma image_bind_locals_physical:
  "physical dev' = physical dev \<Longrightarrow>
   image_bind_locals nd dev' img req = image_bind_locals nd dev img req"
  by (simp add: image_bind_locals_def)

subsection \<open>The local variables\<close>

lemma image_bind_locals_unfold:
  assumes sf: "sf = planes_primary_surface_isl img
                      (anv_image_aspect_to_plane img (sub_aspectMask (subresource req)))"
    and layout: "layout = isl_format_get_layout (tables (physical dev)) (format sf)"
  shows "image_bind_locals nd dev img req =
     (if \<not> (nd \<or> (popcount (sub_aspectMask (subresource req)) = 1 \<and>
                   img_flags req AND VK_SPARSE_MEMORY_BIND_METADATA_BIT = 0)) then None
      else case anv_sparse_calc_block_shape nd (physical dev) sf of
        None \<Rightarrow> None
      | Some bsp \<Rightarrow>
          if bw layout = 0 \<or> bh layout = 0 \<or> bd layout = 0 \<or> width bsp = 0 \<or>
             height bsp = 0 \<or> depth bsp = 0 \<or> bpb layout div 8 = 0 \<or>
             width bsp div bw layout = 0 then None
          else if nd \<or> (width (bind_extent_el (locals_of dev img req bsp)) div
                          width (block_shape_el (locals_of dev img req bsp)) \<noteq> 0 \<and>
                        line_bind_size (locals_of dev img req bsp) \<noteq> 0)
          then Some (locals_of dev img req bsp) else None)"
proof (cases "nd \<or> (popcount (sub_aspectMask (subresource req)) = 1 \<and>
                   img_flags req AND VK_SPARSE_MEMORY_BIND_METADATA_BIT = 0)")
  case False
  then show ?thesis
    unfolding image_bind_locals_def Let_def by (auto simp: c_assert_def)
next
  case a: True
  then have a1: "c_assert nd (popcount (sub_aspectMask (subresource req)) = 1) = Some ()"
    and a2: "c_assert nd (img_flags req AND VK_SPARSE_MEMORY_BIND_METADATA_BIT = 0) = Some ()"
    by (auto simp: c_assert_def)
  show ?thesis
  proof (cases "anv_sparse_calc_block_shape nd (physical dev) sf")
    case None
    then show ?thesis using a
      unfolding image_bind_locals_def Let_def a1 a2 sf [symmetric] by simp
  next
    case (Some bsp)
    show ?thesis
    proof (cases "bw layout = 0 \<or> bh layout = 0 \<or> bd layout = 0 \<or> width bsp = 0 \<or>
             height bsp = 0 \<or> depth bsp = 0 \<or> bpb layout div 8 = 0 \<or>
             width bsp div bw layout = 0")
      case True
      then show ?thesis using a Some
        unfolding image_bind_locals_def Let_def a1 a2 sf [symmetric] layout [symmetric]
        by (auto simp: udiv_def sdiv_c_def ALIGN_NPOT_def vk_extent3d_px_to_el_def
            vk_offset3d_px_to_el_def)
    next
      case False
      then show ?thesis using a Some
        unfolding image_bind_locals_def locals_of_def Let_def a1 a2 sf [symmetric]
          layout [symmetric]
        by (simp add: udiv_def sdiv_c_def ALIGN_NPOT_def vk_extent3d_px_to_el_def
            vk_offset3d_px_to_el_def c_assert_def)
    qed
  qed
qed

lemma image_bind_locals_mono:
  assumes "image_bind_locals nd dev img req = Some L"
  shows "image_bind_locals True dev img req = Some L"
proof -
  define sf where "sf = planes_primary_surface_isl img
                      (anv_image_aspect_to_plane img (sub_aspectMask (subresource req)))"
  define layout where "layout = isl_format_get_layout (tables (physical dev)) (format sf)"
  note u = image_bind_locals_unfold [OF sf_def layout_def]
  from assms obtain bsp where bsp: "anv_sparse_calc_block_shape nd (physical dev) sf = Some bsp"
    unfolding u by (cases "anv_sparse_calc_block_shape nd (physical dev) sf")
      (simp_all split: if_splits)
  from assms bsp have nz: "\<not> (bw layout = 0 \<or> bh layout = 0 \<or> bd layout = 0 \<or> width bsp = 0 \<or>
             height bsp = 0 \<or> depth bsp = 0 \<or> bpb layout div 8 = 0 \<or>
             width bsp div bw layout = 0)"
    and L: "L = locals_of dev img req bsp"
    unfolding u by (simp_all split: if_splits)
  show ?thesis
    unfolding u [where nd = True] calc_block_shape_mono [OF bsp] using nz L by simp
qed

lemma image_bind_mono:
  assumes "anv_sparse_bind_image_memory nd dev img req w = Some (r, w')"
  shows "anv_sparse_bind_image_memory True dev img req w = Some (r, w')"
proof -
  from image_bind_SomeD [OF assms] obtain L bss res where
    L: "image_bind_locals nd dev img req = Some L"
    and s: "slices_run nd dev req L (to_u32 (off_z (bind_offset_el L))) (img_memoryOffset req) w
             bss res"
    and r: "r = (case res of Inl q \<Rightarrow> fst q | Inr q \<Rightarrow> VK_SUCCESS)" "w' = loop_world res"
    by blast
  from image_bind_SomeI [OF image_bind_locals_mono [OF L] slices_run_mono [OF s]] r
  show ?thesis by simp
qed

subsection \<open>A backend that never fails\<close>

lemma replay_never_fails:
  "\<forall>s b. fst (vm_bind dev s b) = 0 \<Longrightarrow> \<forall>rc \<in> set (fst (replay dev s bs)). rc = 0"
  by (induction bs arbitrary: s) (simp_all add: split_beta Let_def)

lemma trace_of_never_fails:
  assumes "\<forall>s b. fst (vm_bind dev s b) = 0" and "trace_of dev w bs res"
  shows "\<exists>p. res = Inr p"
proof (cases res)
  case (Inr p)
  then show ?thesis by simp
next
  case (Inl q)
  obtain e w' where "q = (e, w')" by (cases q) auto
  with assms(2) Inl obtain k rc where
    "fst (replay dev (kstate w) bs) = replicate k 0 @ [rc]" "rc \<noteq> 0"
    by (auto simp: trace_of_def)
  moreover from this have "rc \<in> set (fst (replay dev (kstate w) bs))" by simp
  ultimately show ?thesis using replay_never_fails [OF assms(1), of "kstate w" bs] by blast
qed


lemma map_same:
  "\<forall>x \<in> set xs. f x = c \<Longrightarrow> map f xs = replicate (length xs) c"
  by (induction xs) simp_all

lemma trace_of_success:
  assumes "trace_of dev w bs res"
    and "(case res of Inl q \<Rightarrow> fst q | Inr q \<Rightarrow> VK_SUCCESS) = VK_SUCCESS"
  shows "\<exists>p. res = Inr p"
proof (cases res)
  case (Inr p)
  then show ?thesis by simp
next
  case (Inl q)
  obtain e w'' where "q = (e, w'')" by (cases q) auto
  with assms Inl show ?thesis by (simp add: trace_of_def)
qed

lemma u64_mod_block: "u64 n mod ANV_SPARSE_BLOCK_SIZE = n mod ANV_SPARSE_BLOCK_SIZE"
proof -
  have "(65536::nat) dvd 2 ^ 64" by simp
  then show ?thesis
    unfolding u64_def ANV_SPARSE_BLOCK_SIZE_def by (rule mod_mod_cancel)
qed

lemma mod_add_zero: "a mod c = 0 \<Longrightarrow> b mod c = 0 \<Longrightarrow> (a + b) mod c = (0::nat)"
  by (simp add: mod_eq_0_iff_dvd)

subsection \<open>The concrete image\<close>

lemma ex_locals:
  "image_bind_locals False ex_dev ex_image ex_bind = Some ex_locals"
  by (simp add: image_bind_locals_def ex_locals_def ex_layout_def ex_tables_def ex_pdevice_def
      ex_surf_def ex_image_def ex_bind_def ex_dev_def popcount_color c_assert_def
      anv_sparse_calc_block_shape_def vk_extent3d_px_to_el_def vk_offset3d_px_to_el_def
      vk_extent3d_el_to_px_def udiv_def sdiv_c_def ALIGN_NPOT_def u32_def u64_def
      VK_SPARSE_MEMORY_BIND_METADATA_BIT_def Let_def)

lemma ex_locals_null:
  "image_bind_locals False ex_dev ex_image (ex_bind\<lparr>img_memory := None\<rparr>) = Some ex_locals"
  by (simp add: image_bind_locals_memory ex_locals)

lemma ex_locals_fail:
  "image_bind_locals False ex_dev_fail ex_image ex_bind = Some ex_locals"
proof -
  have "physical ex_dev_fail = physical ex_dev" by (simp add: ex_dev_def ex_dev_fail_def)
  from image_bind_locals_physical [OF this] show ?thesis by (simp add: ex_locals)
qed

lemmas ex_loop_simps = bind_slices.simps bind_lines.simps line_bind_def
  vk_bind_to_anv_vm_bind_def kmd_vm_bind_def to_u32_def u32_def u64_def udiv_def c_assert_def
  ex_locals_def ex_surf_def ex_sparse_def ex_mem_def ex_bind_def ex_world_def
  ex_op1_def ex_op2_def ex_null1_def ex_null2_def
  ex_world_bound_def ex_world_null_def ex_world_unbound_def Let_def

lemma ex_run:
  "anv_sparse_bind_image_memory False ex_dev ex_image ex_bind ex_world =
     Some (VK_SUCCESS, ex_world_bound)"
  unfolding anv_sparse_bind_image_memory_def ex_locals
  by (simp add: ex_loop_simps ex_dev_def)

lemma ex_run_null:
  "anv_sparse_bind_image_memory False ex_dev ex_image (ex_bind\<lparr>img_memory := None\<rparr>)
     ex_world_bound =
     Some (VK_SUCCESS,
       ex_world_unbound)"
  unfolding anv_sparse_bind_image_memory_def ex_locals_null
  by (simp add: ex_loop_simps ex_dev_def)

lemma ex_run_fail:
  "anv_sparse_bind_image_memory False ex_dev_fail ex_image ex_bind ex_world =
     Some (VK_ERROR_OUT_OF_DEVICE_MEMORY,
       ex_world_bound)"
  unfolding anv_sparse_bind_image_memory_def ex_locals_fail
  by (simp add: ex_loop_simps ex_dev_fail_def)

lemma ex_run_null_first:
  "anv_sparse_bind_image_memory False ex_dev ex_image (ex_bind\<lparr>img_memory := None\<rparr>) ex_world =
     Some (VK_SUCCESS, ex_world_null)"
  unfolding anv_sparse_bind_image_memory_def ex_locals_null
  by (simp add: ex_loop_simps ex_dev_def)

lemma ex_opaque_bind:
  "vk_bind_to_anv_vm_bind False ex_sparse ex_opaque =
     Some \<lparr>bind_bo = Some \<lparr>gem_handle = 1, bo_size = 262144\<rparr>, bind_address = 1114112,
           bind_bo_offset = 0, bind_size = 65536, bind_op = ANV_VM_BIND\<rparr>"
  by (simp add: vk_bind_to_anv_vm_bind_def ex_sparse_def ex_opaque_def ex_mem_def u64_def
      c_assert_def Let_def)

lemma ex_opaque_unbind:
  "vk_bind_to_anv_vm_bind False ex_sparse (ex_opaque\<lparr>memory := None\<rparr>) =
     Some \<lparr>bind_bo = None, bind_address = 1114112,
           bind_bo_offset = 0, bind_size = 65536, bind_op = ANV_VM_BIND\<rparr>"
  by (simp add: vk_bind_to_anv_vm_bind_def ex_sparse_def ex_opaque_def u64_def
      c_assert_def Let_def)

lemma ex_small_bind:
  "vk_bind_to_anv_vm_bind False ex_sparse ex_small = Some ex_small_op"
  by (simp add: vk_bind_to_anv_vm_bind_def ex_sparse_def ex_small_def ex_small_op_def u64_def
      c_assert_def Let_def)

text \<open>The run of the loops against the backend that fails at its second call.\<close>

lemma ex_line_first:
  "line_bind False ex_bind ex_locals 0 0 0 = Some ex_op1"
  by (simp add: ex_loop_simps)

lemma ex_line_second:
  "line_bind False ex_bind ex_locals 0 128 131072 = Some ex_op2"
  by (simp add: ex_loop_simps)

lemma ex_lines_fail:
  "lines_run False ex_dev_fail ex_bind ex_locals 0 0 0 ex_world [ex_op1, ex_op2]
     (Inl (VK_ERROR_OUT_OF_DEVICE_MEMORY, ex_world_bound))"
proof -
  have y: "(0::nat) < lines_end ex_locals" "(128::nat) < lines_end ex_locals"
    by (simp_all add: ex_locals_def to_u32_def u32_def)
  have k: "kmd_vm_bind ex_dev_fail ex_op1 ex_world = (0, ex_world_busy\<lparr>calls := [Call_vm_bind ex_op1]\<rparr>)"
    by (simp add: kmd_vm_bind_def ex_dev_fail_def ex_world_def ex_world_busy_def)
  have f: "kmd_vm_bind ex_dev_fail ex_op2 (ex_world_busy\<lparr>calls := [Call_vm_bind ex_op1]\<rparr>) =
      (- 1, ex_world_bound)"
    by (simp add: kmd_vm_bind_def ex_dev_fail_def ex_world_busy_def ex_world_bound_def)
  have n: "u32 (0 + height (block_shape_el ex_locals)) = 128"
    "u64 (0 + line_bind_size ex_locals) = 131072"
    by (simp_all add: ex_locals_def u32_def u64_def)
  have "lines_run False ex_dev_fail ex_bind ex_locals 0 128 131072
      (ex_world_busy\<lparr>calls := [Call_vm_bind ex_op1]\<rparr>) [ex_op2]
      (Inl (VK_ERROR_OUT_OF_DEVICE_MEMORY, ex_world_bound))"
    by (rule lines_run.lines_fail [OF y(2) ex_line_second f]) simp
  with n have "lines_run False ex_dev_fail ex_bind ex_locals 0
      (u32 (0 + height (block_shape_el ex_locals))) (u64 (0 + line_bind_size ex_locals))
      (ex_world_busy\<lparr>calls := [Call_vm_bind ex_op1]\<rparr>) [ex_op2]
      (Inl (VK_ERROR_OUT_OF_DEVICE_MEMORY, ex_world_bound))"
    by simp
  from lines_run.lines_step [OF y(1) ex_line_first k refl this] show ?thesis .
qed

lemma ex_slices_fail:
  "slices_run False ex_dev_fail ex_bind ex_locals (to_u32 (off_z (bind_offset_el ex_locals)))
     (img_memoryOffset ex_bind) ex_world [[ex_op1, ex_op2]]
     (Inl (VK_ERROR_OUT_OF_DEVICE_MEMORY, ex_world_bound))"
proof -
  have z: "(0::nat) < slices_end ex_locals"
    by (simp add: ex_locals_def to_u32_def u32_def)
  have o: "isl_surf_get_image_offset_B_tile_sa (surf ex_locals) (mip_level ex_locals)
      (array_layer ex_locals) 0 = (0, 0, 0)"
    by (simp add: ex_locals_def ex_surf_def)
  have a: "False \<or> ((0::nat) = 0 \<and> (0::nat) = 0 \<and> block_size_B ex_locals \<noteq> 0 \<and>
      0 mod block_size_B ex_locals = 0)"
    by (simp add: ex_locals_def)
  have y: "to_u32 (off_y (bind_offset_el ex_locals)) = 0"
    "to_u32 (off_z (bind_offset_el ex_locals)) = 0" "img_memoryOffset ex_bind = 0"
    by (simp_all add: ex_locals_def ex_bind_def to_u32_def)
  from ex_lines_fail y(1)
  have "lines_run False ex_dev_fail ex_bind ex_locals 0 (to_u32 (off_y (bind_offset_el ex_locals)))
      0 ex_world [ex_op1, ex_op2] (Inl (VK_ERROR_OUT_OF_DEVICE_MEMORY, ex_world_bound))"
    by simp
  from slices_run.slices_fail [OF z o a this] y(2,3) show ?thesis by simp
qed

lemma ex_first_call:
  "to_u32 (off_z (bind_offset_el ex_locals)) < slices_end ex_locals"
  "to_u32 (off_y (bind_offset_el ex_locals)) < lines_end ex_locals"
  "isl_surf_get_image_offset_B_tile_sa (surf ex_locals) (mip_level ex_locals)
     (array_layer ex_locals) (to_u32 (off_z (bind_offset_el ex_locals))) = (0, 0, 0)"
  "line_bind False ex_bind ex_locals 0 (to_u32 (off_y (bind_offset_el ex_locals)))
     (img_memoryOffset ex_bind) = Some ex_op1"
  "fst (vm_bind ex_dev_fail (kstate ex_world_busy) ex_op1) \<noteq> 0"
  "\<lparr>calls = calls ex_world_busy @ [Call_vm_bind ex_op1],
    kstate = snd (vm_bind ex_dev_fail (kstate ex_world_busy) ex_op1)\<rparr> = ex_world_failed"
proof -
  have y: "to_u32 (off_y (bind_offset_el ex_locals)) = 0"
    "to_u32 (off_z (bind_offset_el ex_locals)) = 0" "img_memoryOffset ex_bind = 0"
    by (simp_all add: ex_locals_def ex_bind_def to_u32_def)
  show "to_u32 (off_z (bind_offset_el ex_locals)) < slices_end ex_locals"
    "to_u32 (off_y (bind_offset_el ex_locals)) < lines_end ex_locals"
    by (simp_all add: ex_locals_def to_u32_def u32_def)
  show "isl_surf_get_image_offset_B_tile_sa (surf ex_locals) (mip_level ex_locals)
     (array_layer ex_locals) (to_u32 (off_z (bind_offset_el ex_locals))) = (0, 0, 0)"
    by (simp add: ex_locals_def ex_surf_def to_u32_def)
  show "line_bind False ex_bind ex_locals 0 (to_u32 (off_y (bind_offset_el ex_locals)))
     (img_memoryOffset ex_bind) = Some ex_op1"
    unfolding y by (rule ex_line_first)
  show "fst (vm_bind ex_dev_fail (kstate ex_world_busy) ex_op1) \<noteq> 0"
    by (simp add: ex_dev_fail_def ex_world_busy_def)
  show "\<lparr>calls = calls ex_world_busy @ [Call_vm_bind ex_op1],
    kstate = snd (vm_bind ex_dev_fail (kstate ex_world_busy) ex_op1)\<rparr> = ex_world_failed"
    by (simp add: ex_dev_fail_def ex_world_busy_def ex_world_failed_def)
qed

lemma ex_geometry:
  "0 < depth (block_shape_el ex_locals)" "0 < height (block_shape_el ex_locals)"
  "0 < width (block_shape_el ex_locals)"
  "to_u32 (off_z (bind_offset_el ex_locals)) + 1 * depth (block_shape_el ex_locals) =
     slices_end ex_locals"
  "to_u32 (off_y (bind_offset_el ex_locals)) + 2 * height (block_shape_el ex_locals) =
     lines_end ex_locals"
  by (simp_all add: ex_locals_def to_u32_def u32_def)

lemma ex_first_bind:
  "ex_op1 = \<lparr>bind_bo = map_option mem_bo (img_memory ex_bind),
      bind_address = u64 (sparse_address (sparse_data ex_locals) +
        line_resource_offset ex_locals
          (fst (isl_surf_get_image_offset_B_tile_sa (surf ex_locals) (mip_level ex_locals)
                  (array_layer ex_locals) (to_u32 (off_z (bind_offset_el ex_locals)))))
          (to_u32 (off_y (bind_offset_el ex_locals)))),
      bind_bo_offset = (if img_memory ex_bind = None then 0 else img_memoryOffset ex_bind),
      bind_size = line_bind_size ex_locals, bind_op = ANV_VM_BIND\<rparr>"
  by (simp add: ex_op1_def ex_bind_def ex_mem_def ex_locals_def ex_sparse_def ex_surf_def
      line_resource_offset_def to_u32_def u32_def u64_def)

subsection \<open>Runs against a backend that fails\<close>

text \<open>
  The binds of a loop do not depend on the backend. So the binds that a run submits to any
  backend are a prefix of the binds of a run that completes, and all of them when it
  completes too.
\<close>

lemma lines_run_prefix:
  "lines_run nd dev0 req L sub y mo w0 bs0 res0 \<Longrightarrow> res0 = Inr p \<Longrightarrow>
   \<exists>bs res cs. lines_run nd dev req L sub y mo w bs res \<and> bs0 = bs @ cs \<and>
     (\<forall>q. res = Inr q \<longrightarrow> cs = [])"
proof (induction arbitrary: w rule: lines_run.induct)
  case (lines_done y mo w0)
  from lines_run.lines_done [OF lines_done(1)]
  have "lines_run nd dev req L sub y mo w [] (Inr (mo, w))" .
  then have "lines_run nd dev req L sub y mo w [] (Inr (mo, w)) \<and> [] = [] @ [] \<and>
     (\<forall>q. Inr (mo, w) = (Inr q :: VkResult \<times> 'b world + nat \<times> 'b world) \<longrightarrow>
        ([] :: anv_vm_bind list) = [])"
    by simp
  then show ?case by (intro exI)
next
  case (lines_fail y mo b w0 rc w0')
  then show ?case by simp
next
  case (lines_step y mo b w0 rc w0' bs0 res0)
  obtain rc' w' where k: "kmd_vm_bind dev b w = (rc', w')" by (cases "kmd_vm_bind dev b w") auto
  show ?case
  proof (cases "rc' = 0")
    case False
    from lines_run.lines_fail [OF lines_step(1,2) k False]
    have "lines_run nd dev req L sub y mo w [b] (Inl (VK_ERROR_OUT_OF_DEVICE_MEMORY, w')) \<and>
      b # bs0 = [b] @ bs0 \<and>
      (\<forall>q. Inl (VK_ERROR_OUT_OF_DEVICE_MEMORY, w') =
             (Inr q :: VkResult \<times> 'b world + nat \<times> 'b world) \<longrightarrow> bs0 = [])"
      by simp
    then show ?thesis by (intro exI)
  next
    case True
    from lines_step.IH [OF lines_step.prems, of w'] obtain bs res cs where
      r: "lines_run nd dev req L sub (u32 (y + height (block_shape_el L)))
         (u64 (mo + line_bind_size L)) w' bs res"
      and c: "bs0 = bs @ cs" "\<forall>q. res = Inr q \<longrightarrow> cs = []"
      by (elim exE conjE)
    from lines_run.lines_step [OF lines_step(1,2) k True r] c
    have "lines_run nd dev req L sub y mo w (b # bs) res \<and> b # bs0 = (b # bs) @ cs \<and>
      (\<forall>q. res = Inr q \<longrightarrow> cs = [])"
      by simp
    then show ?thesis by (intro exI)
  qed
qed

lemma slices_run_prefix:
  "slices_run nd dev0 req L z mo w0 bss0 res0 \<Longrightarrow> res0 = Inr p \<Longrightarrow>
   \<exists>bss res cs. slices_run nd dev req L z mo w bss res \<and> concat bss0 = concat bss @ cs \<and>
     (\<forall>q. res = Inr q \<longrightarrow> cs = [])"
proof (induction arbitrary: w rule: slices_run.induct)
  case (slices_done z mo w0)
  from slices_run.slices_done [OF slices_done(1)]
  have "slices_run nd dev req L z mo w [] (Inr (mo, w))" .
  then have "slices_run nd dev req L z mo w [] (Inr (mo, w)) \<and>
     concat ([] :: anv_vm_bind list list) = concat [] @ [] \<and>
     (\<forall>q. Inr (mo, w) = (Inr q :: VkResult \<times> 'b world + nat \<times> 'b world) \<longrightarrow>
        ([] :: anv_vm_bind list) = [])"
    by simp
  then show ?case by (intro exI)
next
  case (slices_fail z sub sx sy mo w0 bs e)
  then show ?case by simp
next
  case (slices_step z sub sx sy mo w0 bs0 mo1 w1 bss0 res0)
  from lines_run_prefix [OF slices_step(4) refl, of dev w] obtain bs r cs where
    r: "lines_run nd dev req L sub (to_u32 (off_y (bind_offset_el L))) mo w bs r"
    and c: "bs0 = bs @ cs" "\<forall>q. r = Inr q \<longrightarrow> cs = []"
    by (elim exE conjE)
  show ?case
  proof (cases r)
    case (Inl e)
    from slices_run.slices_fail [OF slices_step(1,2,3) r [unfolded Inl]] c(1)
    have "slices_run nd dev req L z mo w [bs] (Inl e) \<and>
      concat (bs0 # bss0) = concat [bs] @ (cs @ concat bss0) \<and>
      (\<forall>q. Inl e = (Inr q :: VkResult \<times> 'b world + nat \<times> 'b world) \<longrightarrow>
         cs @ concat bss0 = [])"
      by simp
    then show ?thesis by (intro exI)
  next
    case (Inr q)
    obtain mo2 w2 where q: "q = (mo2, w2)" by (cases q) auto
    from c(2) Inr have "cs = []" by simp
    with c(1) have bs: "bs = bs0" by simp
    have "mo2 = mo1"
      using lines_run_same_end [OF slices_step(4) refl r [unfolded Inr q]] .
    with r Inr q have r': "lines_run nd dev req L sub (to_u32 (off_y (bind_offset_el L))) mo w bs
        (Inr (mo1, w2))" by simp
    from slices_step.IH [OF slices_step.prems, of w2] obtain bss res ds where
      s: "slices_run nd dev req L (u32 (z + depth (block_shape_el L))) mo1 w2 bss res"
      and d: "concat bss0 = concat bss @ ds" "\<forall>q. res = Inr q \<longrightarrow> ds = []"
      by (elim exE conjE)
    from slices_run.slices_step [OF slices_step(1,2,3) r' s] bs d
    have "slices_run nd dev req L z mo w (bs # bss) res \<and>
      concat (bs0 # bss0) = concat (bs # bss) @ ds \<and> (\<forall>q. res = Inr q \<longrightarrow> ds = [])"
      by simp
    then show ?thesis by (intro exI)
  qed
qed

text \<open>What a run of the function has done, from the run of its loops.\<close>

lemma trace_of_result:
  assumes t: "trace_of dev w ops res"
    and r: "r = (case res of Inl q \<Rightarrow> fst q | Inr q \<Rightarrow> VK_SUCCESS)"
  shows "r = VK_SUCCESS \<and> (\<exists>p. res = Inr p) \<and>
           (\<forall>rc \<in> set (fst (replay dev (kstate w) ops)). rc = 0) \<or>
         r = VK_ERROR_OUT_OF_DEVICE_MEMORY \<and> (\<exists>q. res = Inl q) \<and>
           (\<exists>k rc. fst (replay dev (kstate w) ops) = replicate k 0 @ [rc] \<and> rc \<noteq> 0)"
proof (cases res)
  case (Inr p)
  with t r show ?thesis by (simp add: trace_of_def)
next
  case (Inl q)
  obtain e w'' where "q = (e, w'')" by (cases q) auto
  with t r Inl show ?thesis by (simp add: trace_of_def)
qed

lemma image_bind_trace:
  assumes a: "anv_sparse_bind_image_memory nd dev img req w = Some (r, w')"
  shows "\<exists>ops. calls w' = calls w @ map Call_vm_bind ops \<and>
         kstate w' = snd (replay dev (kstate w) ops) \<and>
         (\<forall>b \<in> set ops. bind_op b = ANV_VM_BIND) \<and>
         (r = VK_SUCCESS \<and> (\<forall>rc \<in> set (fst (replay dev (kstate w) ops)). rc = 0) \<or>
          r = VK_ERROR_OUT_OF_DEVICE_MEMORY \<and>
          (\<exists>k rc. fst (replay dev (kstate w) ops) = replicate k 0 @ [rc] \<and> rc \<noteq> 0))"
proof -
  from image_bind_SomeD [OF a] obtain L bss res where
    s: "slices_run nd dev req L (to_u32 (off_z (bind_offset_el L))) (img_memoryOffset req) w
          bss res"
    and r: "r = (case res of Inl q \<Rightarrow> fst q | Inr q \<Rightarrow> VK_SUCCESS)"
    and w': "w' = loop_world res"
    by (elim exE conjE)
  note t = slices_run_trace [OF s]
  have k: "\<forall>b \<in> set (concat bss). bind_op b = ANV_VM_BIND"
    using slices_run_binds [OF s] by simp
  from trace_of_result [OF t r]
  have "r = VK_SUCCESS \<and> (\<forall>rc \<in> set (fst (replay dev (kstate w) (concat bss))). rc = 0) \<or>
        r = VK_ERROR_OUT_OF_DEVICE_MEMORY \<and>
        (\<exists>k rc. fst (replay dev (kstate w) (concat bss)) = replicate k 0 @ [rc] \<and> rc \<noteq> 0)"
    by (elim disjE conjE) simp_all
  with t k w' show ?thesis
    by (intro exI [of _ "concat bss"]) (simp add: trace_of_def)
qed

lemma image_bind_failing_run:
  assumes L: "image_bind_locals nd dev img req = Some L"
    and s: "slices_run nd dev req L (to_u32 (off_z (bind_offset_el L))) (img_memoryOffset req) w
              bss (Inl q)"
  shows "anv_sparse_bind_image_memory nd dev img req w =
           Some (VK_ERROR_OUT_OF_DEVICE_MEMORY, snd q) \<and>
         calls (snd q) = calls w @ map Call_vm_bind (concat bss) \<and>
         kstate (snd q) = snd (replay dev (kstate w) (concat bss)) \<and>
         (\<exists>k rc. fst (replay dev (kstate w) (concat bss)) = replicate k 0 @ [rc] \<and> rc \<noteq> 0)"
proof -
  obtain e w'' where q: "q = (e, w'')" by (cases q) auto
  from slices_run_trace [OF s] q have e: "e = VK_ERROR_OUT_OF_DEVICE_MEMORY"
    and c: "calls w'' = calls w @ map Call_vm_bind (concat bss)"
    and k: "kstate w'' = snd (replay dev (kstate w) (concat bss))"
    and f: "\<exists>k rc. fst (replay dev (kstate w) (concat bss)) = replicate k 0 @ [rc] \<and> rc \<noteq> 0"
    by (simp_all add: trace_of_def loop_world_def)
  from image_bind_SomeI [OF L s] q e
  have "anv_sparse_bind_image_memory nd dev img req w =
          Some (VK_ERROR_OUT_OF_DEVICE_MEMORY, snd q)"
    by (simp add: loop_world_def)
  with c k f q show ?thesis by simp
qed

lemma image_bind_first_call_fails:
  assumes L: "image_bind_locals nd dev img req = Some L"
    and z: "to_u32 (off_z (bind_offset_el L)) < slices_end L"
    and y: "to_u32 (off_y (bind_offset_el L)) < lines_end L"
    and o: "isl_surf_get_image_offset_B_tile_sa (surf L) (mip_level L) (array_layer L)
              (to_u32 (off_z (bind_offset_el L))) = (sub, sx, sy)"
    and a: "nd \<or> (sx = 0 \<and> sy = 0 \<and> block_size_B L \<noteq> 0 \<and> sub mod block_size_B L = 0)"
    and b: "line_bind nd req L sub (to_u32 (off_y (bind_offset_el L))) (img_memoryOffset req) =
              Some b"
    and f: "fst (vm_bind dev (kstate w) b) \<noteq> 0"
  shows "anv_sparse_bind_image_memory nd dev img req w =
           Some (VK_ERROR_OUT_OF_DEVICE_MEMORY,
                 \<lparr>calls = calls w @ [Call_vm_bind b],
                  kstate = snd (vm_bind dev (kstate w) b)\<rparr>)"
proof -
  have k: "kmd_vm_bind dev b w =
      (fst (vm_bind dev (kstate w) b),
       \<lparr>calls = calls w @ [Call_vm_bind b], kstate = snd (vm_bind dev (kstate w) b)\<rparr>)"
    by (simp add: kmd_vm_bind_def split_beta)
  note l = lines_run.lines_fail [OF y b k f]
  note s = slices_run.slices_fail [OF z o a l]
  from image_bind_SomeI [OF L s] show ?thesis by (simp add: loop_world_def)
qed

lemma image_bind_first_call_fails_release:
  assumes L: "image_bind_locals True dev img req = Some L"
    and z: "to_u32 (off_z (bind_offset_el L)) < slices_end L"
    and y: "to_u32 (off_y (bind_offset_el L)) < lines_end L"
    and h: "0 < height (block_shape_el L)"
    and w: "0 < width (block_shape_el L)"
    and b: "b = \<lparr>bind_bo = map_option mem_bo (img_memory req),
                bind_address = u64 (sparse_address (sparse_data L) +
                  line_resource_offset L
                    (fst (isl_surf_get_image_offset_B_tile_sa (surf L) (mip_level L)
                            (array_layer L) (to_u32 (off_z (bind_offset_el L)))))
                    (to_u32 (off_y (bind_offset_el L)))),
                bind_bo_offset = (if img_memory req = None then 0 else img_memoryOffset req),
                bind_size = line_bind_size L, bind_op = ANV_VM_BIND\<rparr>"
    and f: "fst (vm_bind dev (kstate v) b) \<noteq> 0"
  shows "anv_sparse_bind_image_memory True dev img req v =
           Some (VK_ERROR_OUT_OF_DEVICE_MEMORY,
                 \<lparr>calls = calls v @ [Call_vm_bind b],
                  kstate = snd (vm_bind dev (kstate v) b)\<rparr>)"
proof -
  obtain sub sx sy where o: "isl_surf_get_image_offset_B_tile_sa (surf L) (mip_level L)
      (array_layer L) (to_u32 (off_z (bind_offset_el L))) = (sub, sx, sy)"
    by (cases "isl_surf_get_image_offset_B_tile_sa (surf L) (mip_level L)
      (array_layer L) (to_u32 (off_z (bind_offset_el L)))") auto
  have a: "True \<or> (sx = 0 \<and> sy = 0 \<and> block_size_B L \<noteq> 0 \<and> sub mod block_size_B L = 0)"
    by simp
  have l: "line_bind True req L sub (to_u32 (off_y (bind_offset_el L))) (img_memoryOffset req) =
      Some b"
    unfolding b o using line_bind_release [OF h w, of req sub
        "to_u32 (off_y (bind_offset_el L))" "img_memoryOffset req"]
    by simp
  show ?thesis by (rule image_bind_first_call_fails [OF L z y o a l f])
qed

lemma image_bind_release_returns:
  assumes L: "image_bind_locals True dev img req = Some L"
    and d: "0 < depth (block_shape_el L)"
    and h: "0 < height (block_shape_el L)"
    and wd: "0 < width (block_shape_el L)"
    and k: "to_u32 (off_z (bind_offset_el L)) + k * depth (block_shape_el L) = slices_end L"
    and m: "to_u32 (off_y (bind_offset_el L)) + m * height (block_shape_el L) = lines_end L"
  shows "\<exists>r w' ops. anv_sparse_bind_image_memory True dev img req w = Some (r, w') \<and>
     calls w' = calls w @ map Call_vm_bind ops \<and>
     kstate w' = snd (replay dev (kstate w) ops) \<and>
     length ops \<le> k * m \<and>
     (r = VK_SUCCESS \<and> length ops = k * m \<and>
        (\<forall>rc \<in> set (fst (replay dev (kstate w) ops)). rc = 0) \<or>
      r = VK_ERROR_OUT_OF_DEVICE_MEMORY \<and>
        (\<exists>j rc. fst (replay dev (kstate w) ops) = replicate j 0 @ [rc] \<and> rc \<noteq> 0))"
proof -
  from slices_run_release [OF d h wd k m, of dev req "img_memoryOffset req" w]
  obtain bss res where
    s: "slices_run True dev req L (to_u32 (off_z (bind_offset_el L))) (img_memoryOffset req) w
          bss res"
    by (elim exE)
  note t = slices_run_trace [OF s]
  note c = slices_run_count [OF s d h k m]
  note i = image_bind_SomeI [OF L s]
  from t have tc: "calls (loop_world res) = calls w @ map Call_vm_bind (concat bss)"
    and tk: "kstate (loop_world res) = snd (replay dev (kstate w) (concat bss))"
    by (simp_all add: trace_of_def)
  from c have le: "length (concat bss) \<le> k * m" by (rule conjunct1)
  from trace_of_result [OF t refl] c
  have "(case res of Inl q \<Rightarrow> fst q | Inr q \<Rightarrow> VK_SUCCESS) = VK_SUCCESS \<and>
          length (concat bss) = k * m \<and>
          (\<forall>rc \<in> set (fst (replay dev (kstate w) (concat bss))). rc = 0) \<or>
        (case res of Inl q \<Rightarrow> fst q | Inr q \<Rightarrow> VK_SUCCESS) = VK_ERROR_OUT_OF_DEVICE_MEMORY \<and>
          (\<exists>j rc. fst (replay dev (kstate w) (concat bss)) = replicate j 0 @ [rc] \<and> rc \<noteq> 0)"
    by (elim disjE conjE exE) simp_all
  with i tc tk le show ?thesis by (intro exI conjI)
qed

lemma image_bind_prefix:
  assumes p: "physical dev0 = physical dev"
    and a: "anv_sparse_bind_image_memory nd dev0 img req w0 = Some (VK_SUCCESS, w0')"
  shows "\<exists>r w' ops rest. anv_sparse_bind_image_memory nd dev img req w = Some (r, w') \<and>
     calls w' = calls w @ map Call_vm_bind ops \<and>
     calls w0' = calls w0 @ map Call_vm_bind (ops @ rest) \<and>
     (r = VK_SUCCESS \<longrightarrow> rest = [])"
proof -
  from image_bind_SomeD [OF a] obtain L bss0 res0 where
    L0: "image_bind_locals nd dev0 img req = Some L"
    and s0: "slices_run nd dev0 req L (to_u32 (off_z (bind_offset_el L))) (img_memoryOffset req)
          w0 bss0 res0"
    and r0: "VK_SUCCESS = (case res0 of Inl q \<Rightarrow> fst q | Inr q \<Rightarrow> VK_SUCCESS)"
    and w0': "w0' = loop_world res0"
    by (elim exE conjE)
  from trace_of_success [OF slices_run_trace [OF s0] r0 [symmetric]]
  obtain p0 where "res0 = Inr p0" ..
  from slices_run_prefix [OF s0 this, of dev w] obtain bss res cs where
    s: "slices_run nd dev req L (to_u32 (off_z (bind_offset_el L))) (img_memoryOffset req) w
          bss res"
    and c: "concat bss0 = concat bss @ cs" "\<forall>q. res = Inr q \<longrightarrow> cs = []"
    by (elim exE conjE)
  from L0 image_bind_locals_physical [OF p, of nd img req]
  have L: "image_bind_locals nd dev img req = Some L" by simp
  note i = image_bind_SomeI [OF L s]
  from slices_run_trace [OF s]
  have tc: "calls (loop_world res) = calls w @ map Call_vm_bind (concat bss)"
    by (simp add: trace_of_def)
  from slices_run_trace [OF s0] w0' c(1)
  have t0: "calls w0' = calls w0 @ map Call_vm_bind (concat bss @ cs)"
    by (simp add: trace_of_def)
  have "(case res of Inl q \<Rightarrow> fst q | Inr q \<Rightarrow> VK_SUCCESS) = VK_SUCCESS \<longrightarrow> cs = []"
  proof
    assume "(case res of Inl q \<Rightarrow> fst q | Inr q \<Rightarrow> VK_SUCCESS) = VK_SUCCESS"
    from trace_of_success [OF slices_run_trace [OF s] this] c(2) show "cs = []" by blast
  qed
  with i tc t0 show ?thesis by (intro exI conjI)
qed

subsection \<open>The number and the size of the binds\<close>

text \<open>The local variables that are computed from others.\<close>

lemma image_bind_locals_fields:
  assumes "image_bind_locals nd dev img req = Some L"
  shows "line_bind_size L =
           u64 (width (bind_extent_el L) div width (block_shape_el L) * block_size_B L)"
    and "block_size_B L =
           u32 (width (block_shape_el L) *
                (bpb (isl_format_get_layout (tables (physical dev)) (format (surf L))) div 8) *
                height (block_shape_el L) * depth (block_shape_el L))"
    and "0 < width (block_shape_el L)"
proof -
  define sf where "sf = planes_primary_surface_isl img
      (anv_image_aspect_to_plane img (sub_aspectMask (subresource req)))"
  define layout where "layout = isl_format_get_layout (tables (physical dev)) (format sf)"
  note u = image_bind_locals_unfold [OF sf_def layout_def, of nd]
  have "\<exists>bsp. L = locals_of dev img req bsp \<and> width bsp div bw layout \<noteq> 0"
  proof (cases "anv_sparse_calc_block_shape nd (physical dev) sf")
    case None
    with assms u show ?thesis by (simp split: if_splits)
  next
    case (Some bsp)
    with assms u have "L = locals_of dev img req bsp \<and> width bsp div bw layout \<noteq> 0"
      by (simp split: if_splits)
    then show ?thesis by (rule exI)
  qed
  then obtain bsp where l: "L = locals_of dev img req bsp"
    and n: "width bsp div bw layout \<noteq> 0"
    by (elim exE conjE)
  have s: "surf L = sf" unfolding l by (simp add: locals_of_def Let_def sf_def)
  show "line_bind_size L =
           u64 (width (bind_extent_el L) div width (block_shape_el L) * block_size_B L)"
    unfolding l by (simp add: locals_of_def Let_def)
  show "block_size_B L =
           u32 (width (block_shape_el L) *
                (bpb (isl_format_get_layout (tables (physical dev)) (format (surf L))) div 8) *
                height (block_shape_el L) * depth (block_shape_el L))"
    unfolding s unfolding l by (simp add: locals_of_def Let_def sf_def)
  show "0 < width (block_shape_el L)"
    using n unfolding l by (simp add: locals_of_def Let_def sf_def layout_def)
qed

text \<open>
  The extent of the request is rounded up to the block shape. So it is a whole number of
  blocks in each direction, when the block shape in pixels is a whole number of blocks of the
  format and the rounding does not leave 32 bits.
\<close>

lemma whole_blocks:
  fixes q :: nat
  assumes "f dvd p" and "0 < f" and "q * p < 2 ^ 32"
  shows "p div f dvd u32 (q * p) div f"
proof -
  from assms(1) obtain c where c: "p = f * c" by (auto simp: dvd_def)
  have "u32 (q * p) = q * p" by (rule u32_id [OF assms(3)])
  moreover have "q * p div f = q * c" using c assms(2) by simp
  moreover have "p div f = c" using c assms(2) by simp
  ultimately show ?thesis by simp
qed

lemma image_bind_locals_whole:
  assumes loc: "image_bind_locals nd dev img req = Some L"
    and lay: "layout = isl_format_get_layout (tables (physical dev)) (format (surf L))"
    and shp: "anv_sparse_calc_block_shape nd (physical dev) (surf L) = Some bsp"
    and fw: "bw layout dvd width bsp" and fh: "bh layout dvd height bsp"
    and fd: "bd layout dvd depth bsp"
    and rw: "(width (img_extent req) + width bsp - 1) div width bsp * width bsp < 2 ^ 32"
    and rh: "(height (img_extent req) + height bsp - 1) div height bsp * height bsp < 2 ^ 32"
    and rd: "(depth (img_extent req) + depth bsp - 1) div depth bsp * depth bsp < 2 ^ 32"
  shows "width (block_shape_el L) dvd width (bind_extent_el L)"
    and "height (block_shape_el L) dvd height (bind_extent_el L)"
    and "depth (block_shape_el L) dvd depth (bind_extent_el L)"
proof -
  define sf where "sf = planes_primary_surface_isl img
      (anv_image_aspect_to_plane img (sub_aspectMask (subresource req)))"
  define lt where "lt = isl_format_get_layout (tables (physical dev)) (format sf)"
  note u = image_bind_locals_unfold [OF sf_def lt_def, of nd]
  have "\<exists>bsp'. anv_sparse_calc_block_shape nd (physical dev) sf = Some bsp' \<and>
      L = locals_of dev img req bsp' \<and> bw lt \<noteq> 0 \<and> bh lt \<noteq> 0 \<and> bd lt \<noteq> 0"
  proof (cases "anv_sparse_calc_block_shape nd (physical dev) sf")
    case None
    with loc u show ?thesis by (simp split: if_splits)
  next
    case (Some bsp')
    with loc u have "L = locals_of dev img req bsp' \<and> bw lt \<noteq> 0 \<and> bh lt \<noteq> 0 \<and> bd lt \<noteq> 0"
      by (simp split: if_splits)
    with Some show ?thesis by simp
  qed
  then obtain bsp' where c: "anv_sparse_calc_block_shape nd (physical dev) sf = Some bsp'"
    and l: "L = locals_of dev img req bsp'"
    and z: "0 < bw lt" "0 < bh lt" "0 < bd lt"
    by (elim exE conjE) simp
  have s: "surf L = sf" unfolding l by (simp add: locals_of_def Let_def sf_def)
  from shp c s have b: "bsp' = bsp" by simp
  from lay s have y: "layout = lt" by (simp add: lt_def)
  have e: "width (block_shape_el L) = width bsp div bw lt"
    "height (block_shape_el L) = height bsp div bh lt"
    "depth (block_shape_el L) = depth bsp div bd lt"
    "width (bind_extent_el L) =
       u32 ((width (img_extent req) + width bsp - 1) div width bsp * width bsp) div bw lt"
    "height (bind_extent_el L) =
       u32 ((height (img_extent req) + height bsp - 1) div height bsp * height bsp) div bh lt"
    "depth (bind_extent_el L) =
       u32 ((depth (img_extent req) + depth bsp - 1) div depth bsp * depth bsp) div bd lt"
    unfolding l b by (simp_all add: locals_of_def Let_def sf_def lt_def)
  show "width (block_shape_el L) dvd width (bind_extent_el L)"
    unfolding e by (rule whole_blocks [OF fw [unfolded y] z(1) rw])
  show "height (block_shape_el L) dvd height (bind_extent_el L)"
    unfolding e by (rule whole_blocks [OF fh [unfolded y] z(2) rh])
  show "depth (block_shape_el L) dvd depth (bind_extent_el L)"
    unfolding e by (rule whole_blocks [OF fd [unfolded y] z(3) rd])
qed


text \<open>
  With the assertions compiled out, a request of whole lines of blocks completes against a
  backend that never fails.
\<close>

lemma image_bind_release_success:
  assumes L: "image_bind_locals True dev img req = Some L"
    and d: "0 < depth (block_shape_el L)"
    and h: "0 < height (block_shape_el L)"
    and k: "to_u32 (off_z (bind_offset_el L)) + k * depth (block_shape_el L) = slices_end L"
    and m: "to_u32 (off_y (bind_offset_el L)) + m * height (block_shape_el L) = lines_end L"
    and ok: "\<forall>s b. fst (vm_bind dev s b) = 0"
  shows "\<exists>v'. anv_sparse_bind_image_memory True dev img req w = Some (VK_SUCCESS, v')"
proof -
  note wd = image_bind_locals_fields(3) [OF L]
  from image_bind_release_returns [OF L d h wd k m, of w] obtain e v' ops where
    a: "anv_sparse_bind_image_memory True dev img req w = Some (e, v')"
    and e: "e = VK_SUCCESS \<and> length ops = k * m \<and>
            (\<forall>rc \<in> set (fst (replay dev (kstate w) ops)). rc = 0) \<or>
          e = VK_ERROR_OUT_OF_DEVICE_MEMORY \<and>
            (\<exists>j rc. fst (replay dev (kstate w) ops) = replicate j 0 @ [rc] \<and> rc \<noteq> 0)"
    by (elim exE conjE)
  have "e = VK_SUCCESS"
  proof (rule disjE [OF e])
    assume "e = VK_SUCCESS \<and> length ops = k * m \<and>
            (\<forall>rc \<in> set (fst (replay dev (kstate w) ops)). rc = 0)"
    then show ?thesis by (rule conjunct1)
  next
    assume "e = VK_ERROR_OUT_OF_DEVICE_MEMORY \<and>
            (\<exists>j rc. fst (replay dev (kstate w) ops) = replicate j 0 @ [rc] \<and> rc \<noteq> 0)"
    then obtain j rc where f: "fst (replay dev (kstate w) ops) = replicate j 0 @ [rc]"
      and n: "rc \<noteq> 0"
      by (elim exE conjE)
    from f have "rc \<in> set (fst (replay dev (kstate w) ops))" by simp
    with replay_never_fails [OF ok, of "kstate w" ops] have "rc = 0" by (rule bspec)
    with n show ?thesis by simp
  qed
  with a show ?thesis by simp
qed


subsection \<open>The same request without memory\<close>

lemma vk_bind_unbind:
  assumes "vk_bind_to_anv_vm_bind nd sparse vb = Some b"
  shows "\<exists>b'. vk_bind_to_anv_vm_bind nd sparse (vb\<lparr>memory := None\<rparr>) = Some b' \<and>
     bind_address b' = bind_address b \<and> bind_size b' = bind_size b \<and>
     bind_op b = ANV_VM_BIND \<and> bind_op b' = ANV_VM_BIND \<and>
     bind_bo b' = None \<and> bind_bo_offset b' = 0"
proof -
  note v = vk_bind_to_anv_vm_bind_Some [OF assms]
  have u: "vk_bind_to_anv_vm_bind nd sparse (vb\<lparr>memory := None\<rparr>) =
      Some \<lparr>bind_bo = None,
            bind_address = u64 (sparse_address sparse + resourceOffset vb),
            bind_bo_offset = 0, bind_size = mb_size vb, bind_op = ANV_VM_BIND\<rparr>"
  proof (cases nd)
    case True
    with vk_bind_to_anv_vm_bind_release [of sparse "vb\<lparr>memory := None\<rparr>"]
    show ?thesis by simp
  next
    case False
    with v(2,3) show ?thesis
      by (simp add: vk_bind_to_anv_vm_bind_def c_assert_def Let_def)
  qed
  from u v(1) show ?thesis by simp
qed

lemma image_bind_unbind:
  assumes a1: "anv_sparse_bind_image_memory nd dev img req w = Some (VK_SUCCESS, w1)"
    and a2: "anv_sparse_bind_image_memory nd dev img (req\<lparr>img_memory := None\<rparr>) w1 =
      Some (VK_SUCCESS, w2)"
  shows "\<exists>ops ops'. calls w1 = calls w @ map Call_vm_bind ops \<and>
         calls w2 = calls w1 @ map Call_vm_bind ops' \<and>
         map bind_address ops' = map bind_address ops \<and>
         map bind_size ops' = map bind_size ops \<and>
         (\<forall>b \<in> set ops. bind_op b = ANV_VM_BIND) \<and>
         (\<forall>b \<in> set ops'. bind_op b = ANV_VM_BIND \<and> bind_bo b = None \<and>
            bind_bo_offset b = 0)"
proof -
  from image_bind_SomeD [OF a1] obtain L bss res where
    L: "image_bind_locals nd dev img req = Some L"
    and s1: "slices_run nd dev req L (to_u32 (off_z (bind_offset_el L))) (img_memoryOffset req) w
          bss res"
    and r1: "VK_SUCCESS = (case res of Inl q \<Rightarrow> fst q | Inr q \<Rightarrow> VK_SUCCESS)"
    and w1: "w1 = loop_world res"
    by (elim exE conjE)
  from image_bind_SomeD [OF a2] obtain L' bss' res' where
    L': "image_bind_locals nd dev img (req\<lparr>img_memory := None\<rparr>) = Some L'"
    and s2': "slices_run nd dev (req\<lparr>img_memory := None\<rparr>) L'
          (to_u32 (off_z (bind_offset_el L')))
          (img_memoryOffset (req\<lparr>img_memory := None\<rparr>)) w1 bss' res'"
    and r2: "VK_SUCCESS = (case res' of Inl q \<Rightarrow> fst q | Inr q \<Rightarrow> VK_SUCCESS)"
    and w2: "w2 = loop_world res'"
    by (elim exE conjE)
  from L L' have "L' = L" by (simp add: image_bind_locals_memory)
  with s2' have s2: "slices_run nd dev (req\<lparr>img_memory := None\<rparr>) L
          (to_u32 (off_z (bind_offset_el L)))
          (img_memoryOffset (req\<lparr>img_memory := None\<rparr>)) w1 bss' res'"
    by simp
  note t1 = slices_run_trace [OF s1] and t2 = slices_run_trace [OF s2]
  from trace_of_success [OF t1 r1 [symmetric]] obtain p where p: "res = Inr p" ..
  from trace_of_success [OF t2 r2 [symmetric]] obtain p' where p': "res' = Inr p'" ..
  have adr: "map bind_address (concat bss') = map bind_address (concat bss)"
    using slices_run_same_addresses [OF s1 p s2 [unfolded p']] .
  then have len: "length (concat bss') = length (concat bss)"
    using length_map [of bind_address "concat bss'"] length_map [of bind_address "concat bss"]
    by simp
  note b1 = slices_run_binds [OF s1] and b2 = slices_run_binds [OF s2]
  have "map bind_size (concat bss) = replicate (length (concat bss)) (line_bind_size L)"
    using b1 by (intro map_same) simp
  moreover
  have "map bind_size (concat bss') = replicate (length (concat bss')) (line_bind_size L)"
    using b2 by (intro map_same) simp
  ultimately have sz: "map bind_size (concat bss') = map bind_size (concat bss)"
    using len by simp
  have c1: "calls w1 = calls w @ map Call_vm_bind (concat bss)"
    using t1 w1 by (simp add: trace_of_def)
  have c2: "calls w2 = calls w1 @ map Call_vm_bind (concat bss')"
    using t2 w2 by (simp add: trace_of_def)
  have k1: "\<forall>b \<in> set (concat bss). bind_op b = ANV_VM_BIND" using b1 by simp
  have k2: "\<forall>b \<in> set (concat bss'). bind_op b = ANV_VM_BIND \<and> bind_bo b = None \<and>
            bind_bo_offset b = 0"
    using b2 by simp
  show ?thesis
    by (rule exI [of _ "concat bss"], rule exI [of _ "concat bss'"])
      (rule conjI [OF c1 conjI [OF c2 conjI [OF adr conjI [OF sz conjI [OF k1 k2]]]]])
qed

text \<open>
  With the assertions compiled out and a backend that never fails, the request and the same
  request without memory both complete, each with one call for each line of blocks.
\<close>

lemma image_bind_release_success_count:
  assumes L: "image_bind_locals True dev img req = Some L"
    and d: "0 < depth (block_shape_el L)"
    and h: "0 < height (block_shape_el L)"
    and k: "to_u32 (off_z (bind_offset_el L)) + k * depth (block_shape_el L) = slices_end L"
    and m: "to_u32 (off_y (bind_offset_el L)) + m * height (block_shape_el L) = lines_end L"
    and ok: "\<forall>s b. fst (vm_bind dev s b) = 0"
  shows "\<exists>v' ops. anv_sparse_bind_image_memory True dev img req w = Some (VK_SUCCESS, v') \<and>
     calls v' = calls w @ map Call_vm_bind ops \<and> length ops = k * m"
proof -
  note wd = image_bind_locals_fields(3) [OF L]
  from image_bind_release_success [OF L d h k m ok, of w] obtain v' where
    a: "anv_sparse_bind_image_memory True dev img req w = Some (VK_SUCCESS, v')" ..
  from image_bind_SomeD [OF a] obtain L' bss res where
    L': "image_bind_locals True dev img req = Some L'"
    and s': "slices_run True dev req L' (to_u32 (off_z (bind_offset_el L')))
          (img_memoryOffset req) w bss res"
    and r: "VK_SUCCESS = (case res of Inl q \<Rightarrow> fst q | Inr q \<Rightarrow> VK_SUCCESS)"
    and w': "v' = loop_world res"
    by (elim exE conjE)
  from L L' have "L' = L" by simp
  with s' have s: "slices_run True dev req L (to_u32 (off_z (bind_offset_el L)))
      (img_memoryOffset req) w bss res" by simp
  note t = slices_run_trace [OF s]
  from trace_of_success [OF t r [symmetric]] obtain p where p: "res = Inr p" ..
  from slices_run_count [OF s d h k m] p have len: "length (concat bss) = k * m" by simp
  from t w' have c: "calls v' = calls w @ map Call_vm_bind (concat bss)"
    by (simp add: trace_of_def)
  from a c len show ?thesis by (intro exI conjI)
qed

lemma image_bind_unbind_release:
  assumes L: "image_bind_locals True dev img req = Some L"
    and d: "0 < depth (block_shape_el L)"
    and h: "0 < height (block_shape_el L)"
    and k: "to_u32 (off_z (bind_offset_el L)) + k * depth (block_shape_el L) = slices_end L"
    and m: "to_u32 (off_y (bind_offset_el L)) + m * height (block_shape_el L) = lines_end L"
    and ok: "\<forall>s b. fst (vm_bind dev s b) = 0"
  shows "\<exists>w1 w2 ops ops'.
     anv_sparse_bind_image_memory True dev img req w = Some (VK_SUCCESS, w1) \<and>
     anv_sparse_bind_image_memory True dev img (req\<lparr>img_memory := None\<rparr>) w1 =
       Some (VK_SUCCESS, w2) \<and>
     calls w1 = calls w @ map Call_vm_bind ops \<and>
     calls w2 = calls w1 @ map Call_vm_bind ops' \<and>
     length ops = k * m \<and>
     map bind_address ops' = map bind_address ops \<and>
     map bind_size ops' = map bind_size ops \<and>
     (\<forall>b \<in> set ops. bind_op b = ANV_VM_BIND) \<and>
     (\<forall>b \<in> set ops'. bind_op b = ANV_VM_BIND \<and> bind_bo b = None \<and> bind_bo_offset b = 0)"
proof -
  from image_bind_release_success_count [OF L d h k m ok, of w] obtain w1 ops0 where
    a1: "anv_sparse_bind_image_memory True dev img req w = Some (VK_SUCCESS, w1)"
    and c0: "calls w1 = calls w @ map Call_vm_bind ops0"
    and len: "length ops0 = k * m"
    by (elim exE conjE)
  from L have Ln: "image_bind_locals True dev img (req\<lparr>img_memory := None\<rparr>) = Some L"
    by (simp add: image_bind_locals_memory)
  from image_bind_release_success [OF Ln d h k m ok, of w1] obtain w2 where
    a2: "anv_sparse_bind_image_memory True dev img (req\<lparr>img_memory := None\<rparr>) w1 =
       Some (VK_SUCCESS, w2)" ..
  from image_bind_unbind [OF a1 a2] obtain ops ops' where
    c1: "calls w1 = calls w @ map Call_vm_bind ops"
    and c2: "calls w2 = calls w1 @ map Call_vm_bind ops'"
    and ad: "map bind_address ops' = map bind_address ops"
    and sz: "map bind_size ops' = map bind_size ops"
    and k1: "\<forall>b \<in> set ops. bind_op b = ANV_VM_BIND"
    and k2: "\<forall>b \<in> set ops'. bind_op b = ANV_VM_BIND \<and> bind_bo b = None \<and>
            bind_bo_offset b = 0"
    by (elim exE conjE)
  have "inj Call_vm_bind" by (simp add: inj_on_def)
  with c0 c1 have "ops = ops0" by (simp add: inj_map_eq_map)
  with len have len': "length ops = k * m" by simp
  show ?thesis
    by (rule exI [of _ w1], rule exI [of _ w2], rule exI [of _ ops], rule exI [of _ ops'])
      (rule conjI [OF a1 conjI [OF a2 conjI [OF c1 conjI [OF c2 conjI [OF len'
         conjI [OF ad conjI [OF sz conjI [OF k1 k2]]]]]]]])
qed

text \<open>A request that satisfies the three assertions of the translator is translated.\<close>

lemma vk_bind_checked_returns:
  assumes "mb_size vb \<noteq> 0"
    and "u64 (resourceOffset vb + mb_size vb) \<le> sparse_size sparse"
    and "\<forall>m. memory vb = Some m \<longrightarrow> u64 (memoryOffset vb + mb_size vb) \<le> bo_size (mem_bo m)"
  shows "vk_bind_to_anv_vm_bind False sparse vb =
     Some \<lparr>bind_bo = map_option mem_bo (memory vb),
           bind_address = u64 (sparse_address sparse + resourceOffset vb),
           bind_bo_offset = (if memory vb = None then 0 else memoryOffset vb),
           bind_size = mb_size vb, bind_op = ANV_VM_BIND\<rparr>"
proof (cases "memory vb")
  case None
  with assms(1,2) show ?thesis
    by (simp add: vk_bind_to_anv_vm_bind_def c_assert_def Let_def)
next
  case (Some m)
  with assms(3) have "u64 (memoryOffset vb + mb_size vb) \<le> bo_size (mem_bo m)" by simp
  with assms(1,2) Some show ?thesis
    by (simp add: vk_bind_to_anv_vm_bind_def c_assert_def Let_def)
qed

text \<open>
  With the assertions compiled out the binds of a request are submitted unchecked: the
  function returns against every backend, and every call has the size of a line, the kind
  \<^verbatim>\<open>ANV_VM_BIND\<close> and the memory object of the request.
\<close>

lemma image_bind_release_binds:
  assumes L: "image_bind_locals True dev img req = Some L"
    and d: "0 < depth (block_shape_el L)"
    and h: "0 < height (block_shape_el L)"
    and k: "to_u32 (off_z (bind_offset_el L)) + k * depth (block_shape_el L) = slices_end L"
    and m: "to_u32 (off_y (bind_offset_el L)) + m * height (block_shape_el L) = lines_end L"
  shows "\<exists>e v' ops. anv_sparse_bind_image_memory True dev img req w = Some (e, v') \<and>
     calls v' = calls w @ map Call_vm_bind ops \<and>
     (\<forall>b \<in> set ops. bind_size b = line_bind_size L \<and> bind_op b = ANV_VM_BIND \<and>
        bind_bo b = map_option mem_bo (img_memory req) \<and>
        (img_memory req = None \<longrightarrow> bind_bo_offset b = 0))"
proof -
  note wd = image_bind_locals_fields(3) [OF L]
  from slices_run_release [OF d h wd k m, of dev req "img_memoryOffset req" w]
  obtain bss res where
    s: "slices_run True dev req L (to_u32 (off_z (bind_offset_el L))) (img_memoryOffset req) w
          bss res"
    by (elim exE)
  note i = image_bind_SomeI [OF L s]
  from slices_run_trace [OF s]
  have c: "calls (loop_world res) = calls w @ map Call_vm_bind (concat bss)"
    by (simp add: trace_of_def)
  note b = slices_run_binds [OF s]
  from i c b show ?thesis by (intro exI conjI)
qed

subsection \<open>Failure of the backend\<close>

text \<open>
  C4. The function stops at the first backend call that fails, and returns
  \<^verbatim>\<open>VK_ERROR_OUT_OF_DEVICE_MEMORY\<close> with the calls made so far left in place.
  \<^item> Whenever it returns, it has made the backend calls \<open>ops\<close> and nothing else, and the
    backend is in the state that these calls leave. Either every call succeeded and the
    result is \<^verbatim>\<open>VK_SUCCESS\<close>, or the last call is the first that failed and the result is
    \<^verbatim>\<open>VK_ERROR_OUT_OF_DEVICE_MEMORY\<close>. Every call is a bind: nothing is unbound again.
  \<^item> If the request completes against one backend with the binds \<open>ops @ rest\<close>, then against
    every backend of the same physical device the function returns, having made the
    calls \<open>ops\<close>, a prefix of them, and all of them when it returns \<^verbatim>\<open>VK_SUCCESS\<close>.
  \<^item> A run of the loops that reaches a failing call (the run ends with \<open>Inl q\<close>) makes the
    function return \<^verbatim>\<open>VK_ERROR_OUT_OF_DEVICE_MEMORY\<close>, in the world of the failing call;
    the calls before it succeeded and are the state of the backend.
  \<^item> If the first call, the bind \<open>b\<close> of the first line of the first slice, fails in the
    world \<open>v\<close>, the function returns \<^verbatim>\<open>VK_ERROR_OUT_OF_DEVICE_MEMORY\<close> and \<open>b\<close> is the only call.
  \<^item> With the assertions compiled out the bind \<open>c\<close> of the first line is always produced, for
    every request that enters the loops: if it fails, the function returns
    \<^verbatim>\<open>VK_ERROR_OUT_OF_DEVICE_MEMORY\<close> and \<open>c\<close> is the only call.
  \<^item> With the assertions compiled out, for a request of \<open>k\<close> slices of \<open>m\<close> lines of blocks, the
    function returns against every backend, after at most \<open>k * m\<close> calls: \<^verbatim>\<open>VK_SUCCESS\<close>
    after \<open>k * m\<close> calls that succeeded, or \<^verbatim>\<open>VK_ERROR_OUT_OF_DEVICE_MEMORY\<close> after the first
    call that failed.
\<close>

theorem image_bind_stops_at_failure:
  "(anv_sparse_bind_image_memory nd dev img req w = Some (r, w') \<longrightarrow>
      (\<exists>ops. calls w' = calls w @ map Call_vm_bind ops \<and>
         kstate w' = snd (replay dev (kstate w) ops) \<and>
         (\<forall>b \<in> set ops. bind_op b = ANV_VM_BIND) \<and>
         (r = VK_SUCCESS \<and> (\<forall>rc \<in> set (fst (replay dev (kstate w) ops)). rc = 0) \<or>
          r = VK_ERROR_OUT_OF_DEVICE_MEMORY \<and>
          (\<exists>k rc. fst (replay dev (kstate w) ops) = replicate k 0 @ [rc] \<and> rc \<noteq> 0)))) \<and>
   (physical dev0 = physical dev \<and>
    anv_sparse_bind_image_memory nd dev0 img req w0 = Some (VK_SUCCESS, w0') \<longrightarrow>
      (\<exists>e v' ops rest. anv_sparse_bind_image_memory nd dev img req w = Some (e, v') \<and>
         calls v' = calls w @ map Call_vm_bind ops \<and>
         calls w0' = calls w0 @ map Call_vm_bind (ops @ rest) \<and>
         (e = VK_SUCCESS \<longrightarrow> rest = []))) \<and>
   (image_bind_locals nd dev img req = Some L \<and>
    slices_run nd dev req L (to_u32 (off_z (bind_offset_el L))) (img_memoryOffset req) w
      bss (Inl q) \<longrightarrow>
      anv_sparse_bind_image_memory nd dev img req w =
        Some (VK_ERROR_OUT_OF_DEVICE_MEMORY, snd q) \<and>
      calls (snd q) = calls w @ map Call_vm_bind (concat bss) \<and>
      kstate (snd q) = snd (replay dev (kstate w) (concat bss)) \<and>
      (\<exists>k rc. fst (replay dev (kstate w) (concat bss)) = replicate k 0 @ [rc] \<and> rc \<noteq> 0)) \<and>
   (image_bind_locals nd dev img req = Some L \<and>
    to_u32 (off_z (bind_offset_el L)) < slices_end L \<and>
    to_u32 (off_y (bind_offset_el L)) < lines_end L \<and>
    isl_surf_get_image_offset_B_tile_sa (surf L) (mip_level L) (array_layer L)
      (to_u32 (off_z (bind_offset_el L))) = (sub, sx, sy) \<and>
    (nd \<or> (sx = 0 \<and> sy = 0 \<and> block_size_B L \<noteq> 0 \<and> sub mod block_size_B L = 0)) \<and>
    line_bind nd req L sub (to_u32 (off_y (bind_offset_el L))) (img_memoryOffset req) = Some b \<and>
    fst (vm_bind dev (kstate v) b) \<noteq> 0 \<longrightarrow>
      anv_sparse_bind_image_memory nd dev img req v =
        Some (VK_ERROR_OUT_OF_DEVICE_MEMORY,
              \<lparr>calls = calls v @ [Call_vm_bind b],
               kstate = snd (vm_bind dev (kstate v) b)\<rparr>)) \<and>
   (image_bind_locals True dev img req = Some Lr \<and>
    to_u32 (off_z (bind_offset_el Lr)) < slices_end Lr \<and>
    to_u32 (off_y (bind_offset_el Lr)) < lines_end Lr \<and>
    0 < height (block_shape_el Lr) \<and> 0 < width (block_shape_el Lr) \<and>
    c = \<lparr>bind_bo = map_option mem_bo (img_memory req),
          bind_address = u64 (sparse_address (sparse_data Lr) +
            line_resource_offset Lr
              (fst (isl_surf_get_image_offset_B_tile_sa (surf Lr) (mip_level Lr)
                      (array_layer Lr) (to_u32 (off_z (bind_offset_el Lr)))))
              (to_u32 (off_y (bind_offset_el Lr)))),
          bind_bo_offset = (if img_memory req = None then 0 else img_memoryOffset req),
          bind_size = line_bind_size Lr, bind_op = ANV_VM_BIND\<rparr> \<and>
    fst (vm_bind dev (kstate v) c) \<noteq> 0 \<longrightarrow>
      anv_sparse_bind_image_memory True dev img req v =
        Some (VK_ERROR_OUT_OF_DEVICE_MEMORY,
              \<lparr>calls = calls v @ [Call_vm_bind c],
               kstate = snd (vm_bind dev (kstate v) c)\<rparr>)) \<and>
   (image_bind_locals True dev img req = Some Lr \<and>
    0 < depth (block_shape_el Lr) \<and> 0 < height (block_shape_el Lr) \<and>
    0 < width (block_shape_el Lr) \<and>
    to_u32 (off_z (bind_offset_el Lr)) + k * depth (block_shape_el Lr) = slices_end Lr \<and>
    to_u32 (off_y (bind_offset_el Lr)) + m * height (block_shape_el Lr) = lines_end Lr \<longrightarrow>
      (\<exists>e v' ops. anv_sparse_bind_image_memory True dev img req w = Some (e, v') \<and>
         calls v' = calls w @ map Call_vm_bind ops \<and>
         kstate v' = snd (replay dev (kstate w) ops) \<and>
         length ops \<le> k * m \<and>
         (e = VK_SUCCESS \<and> length ops = k * m \<and>
            (\<forall>rc \<in> set (fst (replay dev (kstate w) ops)). rc = 0) \<or>
          e = VK_ERROR_OUT_OF_DEVICE_MEMORY \<and>
            (\<exists>j rc. fst (replay dev (kstate w) ops) = replicate j 0 @ [rc] \<and> rc \<noteq> 0))))"
proof (intro conjI)
  show "anv_sparse_bind_image_memory nd dev img req w = Some (r, w') \<longrightarrow>
      (\<exists>ops. calls w' = calls w @ map Call_vm_bind ops \<and>
         kstate w' = snd (replay dev (kstate w) ops) \<and>
         (\<forall>b \<in> set ops. bind_op b = ANV_VM_BIND) \<and>
         (r = VK_SUCCESS \<and> (\<forall>rc \<in> set (fst (replay dev (kstate w) ops)). rc = 0) \<or>
          r = VK_ERROR_OUT_OF_DEVICE_MEMORY \<and>
          (\<exists>k rc. fst (replay dev (kstate w) ops) = replicate k 0 @ [rc] \<and> rc \<noteq> 0)))"
    by (rule impI) (rule image_bind_trace)
next
  show "physical dev0 = physical dev \<and>
    anv_sparse_bind_image_memory nd dev0 img req w0 = Some (VK_SUCCESS, w0') \<longrightarrow>
      (\<exists>e v' ops rest. anv_sparse_bind_image_memory nd dev img req w = Some (e, v') \<and>
         calls v' = calls w @ map Call_vm_bind ops \<and>
         calls w0' = calls w0 @ map Call_vm_bind (ops @ rest) \<and>
         (e = VK_SUCCESS \<longrightarrow> rest = []))"
    by (rule impI, elim conjE) (rule image_bind_prefix)
next
  show "image_bind_locals nd dev img req = Some L \<and>
    slices_run nd dev req L (to_u32 (off_z (bind_offset_el L))) (img_memoryOffset req) w
      bss (Inl q) \<longrightarrow>
      anv_sparse_bind_image_memory nd dev img req w =
        Some (VK_ERROR_OUT_OF_DEVICE_MEMORY, snd q) \<and>
      calls (snd q) = calls w @ map Call_vm_bind (concat bss) \<and>
      kstate (snd q) = snd (replay dev (kstate w) (concat bss)) \<and>
      (\<exists>k rc. fst (replay dev (kstate w) (concat bss)) = replicate k 0 @ [rc] \<and> rc \<noteq> 0)"
    by (rule impI, elim conjE) (rule image_bind_failing_run)
next
  show "image_bind_locals nd dev img req = Some L \<and>
    to_u32 (off_z (bind_offset_el L)) < slices_end L \<and>
    to_u32 (off_y (bind_offset_el L)) < lines_end L \<and>
    isl_surf_get_image_offset_B_tile_sa (surf L) (mip_level L) (array_layer L)
      (to_u32 (off_z (bind_offset_el L))) = (sub, sx, sy) \<and>
    (nd \<or> (sx = 0 \<and> sy = 0 \<and> block_size_B L \<noteq> 0 \<and> sub mod block_size_B L = 0)) \<and>
    line_bind nd req L sub (to_u32 (off_y (bind_offset_el L))) (img_memoryOffset req) = Some b \<and>
    fst (vm_bind dev (kstate v) b) \<noteq> 0 \<longrightarrow>
      anv_sparse_bind_image_memory nd dev img req v =
        Some (VK_ERROR_OUT_OF_DEVICE_MEMORY,
              \<lparr>calls = calls v @ [Call_vm_bind b],
               kstate = snd (vm_bind dev (kstate v) b)\<rparr>)"
  proof
    assume h: "image_bind_locals nd dev img req = Some L \<and>
      to_u32 (off_z (bind_offset_el L)) < slices_end L \<and>
      to_u32 (off_y (bind_offset_el L)) < lines_end L \<and>
      isl_surf_get_image_offset_B_tile_sa (surf L) (mip_level L) (array_layer L)
        (to_u32 (off_z (bind_offset_el L))) = (sub, sx, sy) \<and>
      (nd \<or> (sx = 0 \<and> sy = 0 \<and> block_size_B L \<noteq> 0 \<and> sub mod block_size_B L = 0)) \<and>
      line_bind nd req L sub (to_u32 (off_y (bind_offset_el L))) (img_memoryOffset req) =
        Some b \<and>
      fst (vm_bind dev (kstate v) b) \<noteq> 0"
    note h1 = conjunct1 [OF h] and r1 = conjunct2 [OF h]
    note h2 = conjunct1 [OF r1] and r2 = conjunct2 [OF r1]
    note h3 = conjunct1 [OF r2] and r3 = conjunct2 [OF r2]
    note h4 = conjunct1 [OF r3] and r4 = conjunct2 [OF r3]
    note h5 = conjunct1 [OF r4] and r5 = conjunct2 [OF r4]
    note h6 = conjunct1 [OF r5] and h7 = conjunct2 [OF r5]
    show "anv_sparse_bind_image_memory nd dev img req v =
        Some (VK_ERROR_OUT_OF_DEVICE_MEMORY,
              \<lparr>calls = calls v @ [Call_vm_bind b],
               kstate = snd (vm_bind dev (kstate v) b)\<rparr>)"
      by (rule image_bind_first_call_fails [OF h1 h2 h3 h4 h5 h6 h7])
  qed
next
  show "image_bind_locals True dev img req = Some Lr \<and>
    to_u32 (off_z (bind_offset_el Lr)) < slices_end Lr \<and>
    to_u32 (off_y (bind_offset_el Lr)) < lines_end Lr \<and>
    0 < height (block_shape_el Lr) \<and> 0 < width (block_shape_el Lr) \<and>
    c = \<lparr>bind_bo = map_option mem_bo (img_memory req),
          bind_address = u64 (sparse_address (sparse_data Lr) +
            line_resource_offset Lr
              (fst (isl_surf_get_image_offset_B_tile_sa (surf Lr) (mip_level Lr)
                      (array_layer Lr) (to_u32 (off_z (bind_offset_el Lr)))))
              (to_u32 (off_y (bind_offset_el Lr)))),
          bind_bo_offset = (if img_memory req = None then 0 else img_memoryOffset req),
          bind_size = line_bind_size Lr, bind_op = ANV_VM_BIND\<rparr> \<and>
    fst (vm_bind dev (kstate v) c) \<noteq> 0 \<longrightarrow>
      anv_sparse_bind_image_memory True dev img req v =
        Some (VK_ERROR_OUT_OF_DEVICE_MEMORY,
              \<lparr>calls = calls v @ [Call_vm_bind c],
               kstate = snd (vm_bind dev (kstate v) c)\<rparr>)"
  proof
    assume h: "image_bind_locals True dev img req = Some Lr \<and>
      to_u32 (off_z (bind_offset_el Lr)) < slices_end Lr \<and>
      to_u32 (off_y (bind_offset_el Lr)) < lines_end Lr \<and>
      0 < height (block_shape_el Lr) \<and> 0 < width (block_shape_el Lr) \<and>
      c = \<lparr>bind_bo = map_option mem_bo (img_memory req),
            bind_address = u64 (sparse_address (sparse_data Lr) +
              line_resource_offset Lr
                (fst (isl_surf_get_image_offset_B_tile_sa (surf Lr) (mip_level Lr)
                        (array_layer Lr) (to_u32 (off_z (bind_offset_el Lr)))))
                (to_u32 (off_y (bind_offset_el Lr)))),
            bind_bo_offset = (if img_memory req = None then 0 else img_memoryOffset req),
            bind_size = line_bind_size Lr, bind_op = ANV_VM_BIND\<rparr> \<and>
      fst (vm_bind dev (kstate v) c) \<noteq> 0"
    note h1 = conjunct1 [OF h] and r1 = conjunct2 [OF h]
    note h2 = conjunct1 [OF r1] and r2 = conjunct2 [OF r1]
    note h3 = conjunct1 [OF r2] and r3 = conjunct2 [OF r2]
    note h4 = conjunct1 [OF r3] and r4 = conjunct2 [OF r3]
    note h5 = conjunct1 [OF r4] and r5 = conjunct2 [OF r4]
    note h6 = conjunct1 [OF r5] and h7 = conjunct2 [OF r5]
    show "anv_sparse_bind_image_memory True dev img req v =
        Some (VK_ERROR_OUT_OF_DEVICE_MEMORY,
              \<lparr>calls = calls v @ [Call_vm_bind c],
               kstate = snd (vm_bind dev (kstate v) c)\<rparr>)"
      by (rule image_bind_first_call_fails_release [OF h1 h2 h3 h4 h5 h6 h7])
  qed
next
  show "image_bind_locals True dev img req = Some Lr \<and>
    0 < depth (block_shape_el Lr) \<and> 0 < height (block_shape_el Lr) \<and>
    0 < width (block_shape_el Lr) \<and>
    to_u32 (off_z (bind_offset_el Lr)) + k * depth (block_shape_el Lr) = slices_end Lr \<and>
    to_u32 (off_y (bind_offset_el Lr)) + m * height (block_shape_el Lr) = lines_end Lr \<longrightarrow>
      (\<exists>e v' ops. anv_sparse_bind_image_memory True dev img req w = Some (e, v') \<and>
         calls v' = calls w @ map Call_vm_bind ops \<and>
         kstate v' = snd (replay dev (kstate w) ops) \<and>
         length ops \<le> k * m \<and>
         (e = VK_SUCCESS \<and> length ops = k * m \<and>
            (\<forall>rc \<in> set (fst (replay dev (kstate w) ops)). rc = 0) \<or>
          e = VK_ERROR_OUT_OF_DEVICE_MEMORY \<and>
            (\<exists>j rc. fst (replay dev (kstate w) ops) = replicate j 0 @ [rc] \<and> rc \<noteq> 0)))"
  proof
    assume h: "image_bind_locals True dev img req = Some Lr \<and>
      0 < depth (block_shape_el Lr) \<and> 0 < height (block_shape_el Lr) \<and>
      0 < width (block_shape_el Lr) \<and>
      to_u32 (off_z (bind_offset_el Lr)) + k * depth (block_shape_el Lr) = slices_end Lr \<and>
      to_u32 (off_y (bind_offset_el Lr)) + m * height (block_shape_el Lr) = lines_end Lr"
    note h1 = conjunct1 [OF h] and r1 = conjunct2 [OF h]
    note h2 = conjunct1 [OF r1] and r2 = conjunct2 [OF r1]
    note h3 = conjunct1 [OF r2] and r3 = conjunct2 [OF r2]
    note h4 = conjunct1 [OF r3] and r4 = conjunct2 [OF r3]
    note h5 = conjunct1 [OF r4] and h6 = conjunct2 [OF r4]
    show "\<exists>e v' ops. anv_sparse_bind_image_memory True dev img req w = Some (e, v') \<and>
         calls v' = calls w @ map Call_vm_bind ops \<and>
         kstate v' = snd (replay dev (kstate w) ops) \<and>
         length ops \<le> k * m \<and>
         (e = VK_SUCCESS \<and> length ops = k * m \<and>
            (\<forall>rc \<in> set (fst (replay dev (kstate w) ops)). rc = 0) \<or>
          e = VK_ERROR_OUT_OF_DEVICE_MEMORY \<and>
            (\<exists>j rc. fst (replay dev (kstate w) ops) = replicate j 0 @ [rc] \<and> rc \<noteq> 0))"
      by (rule image_bind_release_returns [OF h1 h2 h3 h4 h5 h6])
  qed
qed

theorem image_bind_stops_at_failure_witness:
  "(\<exists>ops. calls ex_world_bound = calls ex_world @ map Call_vm_bind ops \<and>
      kstate ex_world_bound = snd (replay ex_dev_fail (kstate ex_world) ops) \<and>
      (\<forall>b \<in> set ops. bind_op b = ANV_VM_BIND) \<and>
      (VK_ERROR_OUT_OF_DEVICE_MEMORY = VK_SUCCESS \<and>
         (\<forall>rc \<in> set (fst (replay ex_dev_fail (kstate ex_world) ops)). rc = 0) \<or>
       VK_ERROR_OUT_OF_DEVICE_MEMORY = VK_ERROR_OUT_OF_DEVICE_MEMORY \<and>
       (\<exists>k rc. fst (replay ex_dev_fail (kstate ex_world) ops) = replicate k 0 @ [rc] \<and>
          rc \<noteq> 0))) \<and>
   (\<exists>e v' ops rest.
      anv_sparse_bind_image_memory False ex_dev_fail ex_image ex_bind ex_world = Some (e, v') \<and>
      calls v' = calls ex_world @ map Call_vm_bind ops \<and>
      calls ex_world_bound = calls ex_world @ map Call_vm_bind (ops @ rest) \<and>
      (e = VK_SUCCESS \<longrightarrow> rest = [])) \<and>
   (anv_sparse_bind_image_memory False ex_dev_fail ex_image ex_bind ex_world =
      Some (VK_ERROR_OUT_OF_DEVICE_MEMORY, snd (VK_ERROR_OUT_OF_DEVICE_MEMORY, ex_world_bound)) \<and>
    calls (snd (VK_ERROR_OUT_OF_DEVICE_MEMORY, ex_world_bound)) =
      calls ex_world @ map Call_vm_bind (concat [[ex_op1, ex_op2]]) \<and>
    kstate (snd (VK_ERROR_OUT_OF_DEVICE_MEMORY, ex_world_bound)) =
      snd (replay ex_dev_fail (kstate ex_world) (concat [[ex_op1, ex_op2]])) \<and>
    (\<exists>k rc. fst (replay ex_dev_fail (kstate ex_world) (concat [[ex_op1, ex_op2]])) =
       replicate k 0 @ [rc] \<and> rc \<noteq> 0)) \<and>
   anv_sparse_bind_image_memory False ex_dev_fail ex_image ex_bind ex_world_busy =
     Some (VK_ERROR_OUT_OF_DEVICE_MEMORY, ex_world_failed) \<and>
   anv_sparse_bind_image_memory True ex_dev_fail ex_image ex_bind ex_world_busy =
     Some (VK_ERROR_OUT_OF_DEVICE_MEMORY, ex_world_failed) \<and>
   (\<exists>e v' ops. anv_sparse_bind_image_memory True ex_dev_fail ex_image ex_bind ex_world =
        Some (e, v') \<and>
      calls v' = calls ex_world @ map Call_vm_bind ops \<and>
      kstate v' = snd (replay ex_dev_fail (kstate ex_world) ops) \<and>
      length ops \<le> 1 * 2 \<and>
      (e = VK_SUCCESS \<and> length ops = 1 * 2 \<and>
         (\<forall>rc \<in> set (fst (replay ex_dev_fail (kstate ex_world) ops)). rc = 0) \<or>
       e = VK_ERROR_OUT_OF_DEVICE_MEMORY \<and>
         (\<exists>j rc. fst (replay ex_dev_fail (kstate ex_world) ops) = replicate j 0 @ [rc] \<and>
            rc \<noteq> 0)))"
proof -
  note t = image_bind_stops_at_failure [where nd = False and dev = ex_dev_fail
      and img = ex_image and req = ex_bind and w = ex_world
      and r = VK_ERROR_OUT_OF_DEVICE_MEMORY and w' = ex_world_bound
      and dev0 = ex_dev and w0 = ex_world and w0' = ex_world_bound
      and L = ex_locals and bss = "[[ex_op1, ex_op2]]"
      and q = "(VK_ERROR_OUT_OF_DEVICE_MEMORY, ex_world_bound)"
      and sub = 0 and sx = 0 and sy = 0 and b = ex_op1 and v = ex_world_busy
      and Lr = ex_locals and c = ex_op1 and k = 1 and m = 2]
  note t1 = conjunct1 [OF t] and u1 = conjunct2 [OF t]
  note t2 = conjunct1 [OF u1] and u2 = conjunct2 [OF u1]
  note t3 = conjunct1 [OF u2] and u3 = conjunct2 [OF u2]
  note t4 = conjunct1 [OF u3] and u4 = conjunct2 [OF u3]
  note t6 = conjunct1 [OF u4] and t5 = conjunct2 [OF u4]
  note rel = image_bind_locals_mono [OF ex_locals_fail]
  note c6 = mp [OF t6 conjI [OF rel conjI [OF ex_first_call(1) conjI [OF ex_first_call(2)
      conjI [OF ex_geometry(2) conjI [OF ex_geometry(3) conjI [OF ex_first_bind
      ex_first_call(5)]]]]]]]
  from c6 have c6': "anv_sparse_bind_image_memory True ex_dev_fail ex_image ex_bind
      ex_world_busy = Some (VK_ERROR_OUT_OF_DEVICE_MEMORY, ex_world_failed)"
    by (simp only: ex_first_call(6))
  have p: "physical ex_dev = physical ex_dev_fail" by (simp add: ex_dev_def ex_dev_fail_def)
  have a: "False \<or> ((0::nat) = 0 \<and> (0::nat) = 0 \<and> block_size_B ex_locals \<noteq> 0 \<and>
      0 mod block_size_B ex_locals = 0)"
    by (simp add: ex_locals_def)
  note c1 = mp [OF t1 ex_run_fail]
  note c2 = mp [OF t2 conjI [OF p ex_run]]
  note c3 = mp [OF t3 conjI [OF ex_locals_fail ex_slices_fail]]
  note c4 = mp [OF t4 conjI [OF ex_locals_fail conjI [OF ex_first_call(1)
      conjI [OF ex_first_call(2) conjI [OF ex_first_call(3) conjI [OF a
      conjI [OF ex_first_call(4) ex_first_call(5)]]]]]]]
  note c5 = mp [OF t5 conjI [OF image_bind_locals_mono [OF ex_locals_fail]
      conjI [OF ex_geometry(1) conjI [OF ex_geometry(2) conjI [OF ex_geometry(3)
      conjI [OF ex_geometry(4) ex_geometry(5)]]]]]]
  from c4 have c4': "anv_sparse_bind_image_memory False ex_dev_fail ex_image ex_bind
      ex_world_busy = Some (VK_ERROR_OUT_OF_DEVICE_MEMORY, ex_world_failed)"
    by (simp only: ex_first_call(6))
  show ?thesis
    by (rule conjI [OF c1 conjI [OF c2 conjI [OF c3 conjI [OF c4' conjI [OF c6' c5]]]]])
qed

subsection \<open>Memory offsets\<close>

text \<open>
  C5, as the claim states it, fails for a request without memory: the second line of the
  request \<open>ex_bind\<close> with \<^verbatim>\<open>VK_NULL_HANDLE\<close> as memory is bound with the offset 0, not with
  \<^verbatim>\<open>memoryOffset\<close> plus one line.
\<close>

theorem image_bind_memory_offsets_counterexample:
  "anv_sparse_bind_image_memory False ex_dev ex_image (ex_bind\<lparr>img_memory := None\<rparr>) ex_world =
     Some (VK_SUCCESS, ex_world_null) \<and>
   image_bind_locals False ex_dev ex_image (ex_bind\<lparr>img_memory := None\<rparr>) = Some ex_locals \<and>
   bind_bo_offset ex_null2 \<noteq>
     img_memoryOffset (ex_bind\<lparr>img_memory := None\<rparr>) + 1 * line_bind_size ex_locals"
  by (simp add: ex_run_null_first ex_locals_null)
    (simp add: ex_null2_def ex_locals_def ex_bind_def)

text \<open>
  C5, amended. When the function returns, the backend calls it has made are the binds
  \<open>ops\<close>; each has the size \<^verbatim>\<open>line_bind_size\<close> and the memory object of the request. When the
  request has a memory object, the \<open>i\<close>-th bind carries the offset \<^verbatim>\<open>memoryOffset\<close> plus \<open>i\<close>
  lines, in 64-bit arithmetic; when it has none, every bind carries the offset 0.
\<close>

theorem image_bind_memory_offsets:
  assumes ret: "anv_sparse_bind_image_memory nd dev img req w = Some (r, w')"
    and loc: "image_bind_locals nd dev img req = Some L"
    and mo: "img_memoryOffset req < 2 ^ 64"
  shows "\<exists>ops. calls w' = calls w @ map Call_vm_bind ops \<and>
     (\<forall>i < length ops.
        bind_bo (ops ! i) = map_option mem_bo (img_memory req) \<and>
        bind_size (ops ! i) = line_bind_size L \<and>
        bind_bo_offset (ops ! i) =
          (if img_memory req = None then 0
           else u64 (img_memoryOffset req + i * line_bind_size L)))"
proof -
  from image_bind_SomeD [OF ret] loc obtain bss res where
    s: "slices_run nd dev req L (to_u32 (off_z (bind_offset_el L))) (img_memoryOffset req) w
          bss res"
    and w': "w' = loop_world res"
    by auto
  note t = slices_run_trace [OF s] and b = slices_run_binds [OF s]
    and o = slices_run_offsets [OF s mo]
  have "bind_bo_offset (concat bss ! i) =
          (if img_memory req = None then 0
           else u64 (img_memoryOffset req + i * line_bind_size L))"
    if "i < length (concat bss)" for i
  proof -
    have "bind_bo_offset (concat bss ! i) = map bind_bo_offset (concat bss) ! i"
      using that by simp
    also have "\<dots> = map (\<lambda>i. if img_memory req = None then 0
        else u64 (img_memoryOffset req + i * line_bind_size L)) [0..<length (concat bss)] ! i"
      using o by simp
    also have "\<dots> = (if img_memory req = None then 0
           else u64 (img_memoryOffset req + i * line_bind_size L))"
      using that by simp
    finally show ?thesis .
  qed
  moreover have "bind_bo (concat bss ! i) = map_option mem_bo (img_memory req) \<and>
      bind_size (concat bss ! i) = line_bind_size L"
    if "i < length (concat bss)" for i
    using b nth_mem [OF that] by blast
  moreover have "calls w' = calls w @ map Call_vm_bind (concat bss)"
    using t w' by (simp add: trace_of_def)
  ultimately show ?thesis
    by (intro exI [of _ "concat bss"]) blast
qed

theorem image_bind_memory_offsets_witness:
  "\<exists>ops. calls ex_world_bound =
           calls ex_world @ map Call_vm_bind ops \<and>
     (\<forall>i < length ops.
        bind_bo (ops ! i) = map_option mem_bo (img_memory ex_bind) \<and>
        bind_size (ops ! i) = line_bind_size ex_locals \<and>
        bind_bo_offset (ops ! i) =
          (if img_memory ex_bind = None then 0
           else u64 (img_memoryOffset ex_bind + i * line_bind_size ex_locals)))"
proof -
  have "img_memoryOffset ex_bind < 2 ^ 64" by (simp add: ex_bind_def)
  from image_bind_memory_offsets [OF ex_run ex_locals this] show ?thesis .
qed

subsection \<open>Bind, then unbind\<close>

text \<open>
  C8, as the claim states it, fails: the request \<open>ex_bind\<close> and then the same request
  without memory, which is how Vulkan unbinds, give the same two addresses and sizes, but
  the two operations of the unbind are of the kind \<^verbatim>\<open>ANV_VM_BIND\<close> again, not
  \<^verbatim>\<open>ANV_VM_UNBIND\<close>. The translator never produces \<^verbatim>\<open>ANV_VM_UNBIND\<close>: it binds the range to
  no memory.
\<close>

theorem bind_then_unbind_counterexample:
  "anv_sparse_bind_image_memory False ex_dev ex_image ex_bind ex_world =
     Some (VK_SUCCESS, ex_world_bound) \<and>
   anv_sparse_bind_image_memory False ex_dev ex_image (ex_bind\<lparr>img_memory := None\<rparr>)
     ex_world_bound = Some (VK_SUCCESS, ex_world_unbound) \<and>
   calls ex_world_unbound =
     calls ex_world_bound @ [Call_vm_bind ex_null1, Call_vm_bind ex_null2] \<and>
   bind_op ex_null1 \<noteq> ANV_VM_UNBIND \<and> bind_op ex_null2 \<noteq> ANV_VM_UNBIND"
  by (simp add: ex_run ex_run_null)
    (simp add: ex_world_bound_def ex_world_unbound_def ex_null1_def ex_null2_def)

text \<open>
  C8, amended. A request and then the same request without memory give the same addresses
  and sizes. The kind of every operation is \<^verbatim>\<open>ANV_VM_BIND\<close> in both, and the operations of the
  request without memory carry no backing object and the offset 0.
  \<^item> Opaque path: when the request is translated, so is the request without memory, to an
    operation with the same address and size.
  \<^item> With the assertions compiled out both are always translated.
  \<^item> Image path: when both calls return \<^verbatim>\<open>VK_SUCCESS\<close>, they have made the calls \<open>ops\<close> and
    \<open>ops'\<close>, with the same addresses and sizes in the same order.
  \<^item> With the assertions compiled out, for a request of \<open>k\<close> slices of \<open>m\<close> lines of blocks and a
    backend that never fails, both calls do return \<^verbatim>\<open>VK_SUCCESS\<close>, after \<open>k * m\<close> calls each.
\<close>

theorem bind_then_unbind:
  "(vk_bind_to_anv_vm_bind nd sparse vb = Some b \<longrightarrow>
      (\<exists>b'. vk_bind_to_anv_vm_bind nd sparse (vb\<lparr>memory := None\<rparr>) = Some b' \<and>
         bind_address b' = bind_address b \<and> bind_size b' = bind_size b \<and>
         bind_op b = ANV_VM_BIND \<and> bind_op b' = ANV_VM_BIND \<and>
         bind_bo b' = None \<and> bind_bo_offset b' = 0)) \<and>
   (\<exists>c c'. vk_bind_to_anv_vm_bind True sparse vb = Some c \<and>
      vk_bind_to_anv_vm_bind True sparse (vb\<lparr>memory := None\<rparr>) = Some c' \<and>
      bind_address c' = bind_address c \<and> bind_size c' = bind_size c \<and>
      bind_op c = ANV_VM_BIND \<and> bind_op c' = ANV_VM_BIND \<and>
      bind_bo c' = None \<and> bind_bo_offset c' = 0) \<and>
   (anv_sparse_bind_image_memory nd dev img req w = Some (VK_SUCCESS, w1) \<and>
    anv_sparse_bind_image_memory nd dev img (req\<lparr>img_memory := None\<rparr>) w1 =
      Some (VK_SUCCESS, w2) \<longrightarrow>
      (\<exists>ops ops'. calls w1 = calls w @ map Call_vm_bind ops \<and>
         calls w2 = calls w1 @ map Call_vm_bind ops' \<and>
         map bind_address ops' = map bind_address ops \<and>
         map bind_size ops' = map bind_size ops \<and>
         (\<forall>b \<in> set ops. bind_op b = ANV_VM_BIND) \<and>
         (\<forall>b \<in> set ops'. bind_op b = ANV_VM_BIND \<and> bind_bo b = None \<and>
            bind_bo_offset b = 0))) \<and>
   (image_bind_locals True dev img req = Some L \<and>
    0 < depth (block_shape_el L) \<and> 0 < height (block_shape_el L) \<and>
    to_u32 (off_z (bind_offset_el L)) + k * depth (block_shape_el L) = slices_end L \<and>
    to_u32 (off_y (bind_offset_el L)) + m * height (block_shape_el L) = lines_end L \<and>
    (\<forall>s b. fst (vm_bind dev s b) = 0) \<longrightarrow>
      (\<exists>v1 v2 ops ops'.
         anv_sparse_bind_image_memory True dev img req w = Some (VK_SUCCESS, v1) \<and>
         anv_sparse_bind_image_memory True dev img (req\<lparr>img_memory := None\<rparr>) v1 =
           Some (VK_SUCCESS, v2) \<and>
         calls v1 = calls w @ map Call_vm_bind ops \<and>
         calls v2 = calls v1 @ map Call_vm_bind ops' \<and>
         length ops = k * m \<and>
         map bind_address ops' = map bind_address ops \<and>
         map bind_size ops' = map bind_size ops \<and>
         (\<forall>b \<in> set ops. bind_op b = ANV_VM_BIND) \<and>
         (\<forall>b \<in> set ops'. bind_op b = ANV_VM_BIND \<and> bind_bo b = None \<and>
            bind_bo_offset b = 0)))"
proof (intro conjI)
  show "vk_bind_to_anv_vm_bind nd sparse vb = Some b \<longrightarrow>
      (\<exists>b'. vk_bind_to_anv_vm_bind nd sparse (vb\<lparr>memory := None\<rparr>) = Some b' \<and>
         bind_address b' = bind_address b \<and> bind_size b' = bind_size b \<and>
         bind_op b = ANV_VM_BIND \<and> bind_op b' = ANV_VM_BIND \<and>
         bind_bo b' = None \<and> bind_bo_offset b' = 0)"
    by (rule impI) (rule vk_bind_unbind)
next
  note r = vk_bind_to_anv_vm_bind_release [of sparse vb]
  from vk_bind_unbind [OF r] obtain c' where
    u: "vk_bind_to_anv_vm_bind True sparse (vb\<lparr>memory := None\<rparr>) = Some c' \<and>
     bind_address c' = bind_address \<lparr>bind_bo = map_option mem_bo (memory vb),
           bind_address = u64 (sparse_address sparse + resourceOffset vb),
           bind_bo_offset = (if memory vb = None then 0 else memoryOffset vb),
           bind_size = mb_size vb, bind_op = ANV_VM_BIND\<rparr> \<and>
     bind_size c' = bind_size \<lparr>bind_bo = map_option mem_bo (memory vb),
           bind_address = u64 (sparse_address sparse + resourceOffset vb),
           bind_bo_offset = (if memory vb = None then 0 else memoryOffset vb),
           bind_size = mb_size vb, bind_op = ANV_VM_BIND\<rparr> \<and>
     bind_op \<lparr>bind_bo = map_option mem_bo (memory vb),
           bind_address = u64 (sparse_address sparse + resourceOffset vb),
           bind_bo_offset = (if memory vb = None then 0 else memoryOffset vb),
           bind_size = mb_size vb, bind_op = ANV_VM_BIND\<rparr> = ANV_VM_BIND \<and>
     bind_op c' = ANV_VM_BIND \<and> bind_bo c' = None \<and> bind_bo_offset c' = 0" ..
  show "\<exists>c c'. vk_bind_to_anv_vm_bind True sparse vb = Some c \<and>
      vk_bind_to_anv_vm_bind True sparse (vb\<lparr>memory := None\<rparr>) = Some c' \<and>
      bind_address c' = bind_address c \<and> bind_size c' = bind_size c \<and>
      bind_op c = ANV_VM_BIND \<and> bind_op c' = ANV_VM_BIND \<and>
      bind_bo c' = None \<and> bind_bo_offset c' = 0"
    by (rule exI, rule exI [of _ c']) (rule conjI [OF r u])
next
  show "anv_sparse_bind_image_memory nd dev img req w = Some (VK_SUCCESS, w1) \<and>
    anv_sparse_bind_image_memory nd dev img (req\<lparr>img_memory := None\<rparr>) w1 =
      Some (VK_SUCCESS, w2) \<longrightarrow>
      (\<exists>ops ops'. calls w1 = calls w @ map Call_vm_bind ops \<and>
         calls w2 = calls w1 @ map Call_vm_bind ops' \<and>
         map bind_address ops' = map bind_address ops \<and>
         map bind_size ops' = map bind_size ops \<and>
         (\<forall>b \<in> set ops. bind_op b = ANV_VM_BIND) \<and>
         (\<forall>b \<in> set ops'. bind_op b = ANV_VM_BIND \<and> bind_bo b = None \<and>
            bind_bo_offset b = 0))"
    by (rule impI, elim conjE) (rule image_bind_unbind)
next
  show "image_bind_locals True dev img req = Some L \<and>
    0 < depth (block_shape_el L) \<and> 0 < height (block_shape_el L) \<and>
    to_u32 (off_z (bind_offset_el L)) + k * depth (block_shape_el L) = slices_end L \<and>
    to_u32 (off_y (bind_offset_el L)) + m * height (block_shape_el L) = lines_end L \<and>
    (\<forall>s b. fst (vm_bind dev s b) = 0) \<longrightarrow>
      (\<exists>v1 v2 ops ops'.
         anv_sparse_bind_image_memory True dev img req w = Some (VK_SUCCESS, v1) \<and>
         anv_sparse_bind_image_memory True dev img (req\<lparr>img_memory := None\<rparr>) v1 =
           Some (VK_SUCCESS, v2) \<and>
         calls v1 = calls w @ map Call_vm_bind ops \<and>
         calls v2 = calls v1 @ map Call_vm_bind ops' \<and>
         length ops = k * m \<and>
         map bind_address ops' = map bind_address ops \<and>
         map bind_size ops' = map bind_size ops \<and>
         (\<forall>b \<in> set ops. bind_op b = ANV_VM_BIND) \<and>
         (\<forall>b \<in> set ops'. bind_op b = ANV_VM_BIND \<and> bind_bo b = None \<and>
            bind_bo_offset b = 0))"
  proof
    assume h: "image_bind_locals True dev img req = Some L \<and>
      0 < depth (block_shape_el L) \<and> 0 < height (block_shape_el L) \<and>
      to_u32 (off_z (bind_offset_el L)) + k * depth (block_shape_el L) = slices_end L \<and>
      to_u32 (off_y (bind_offset_el L)) + m * height (block_shape_el L) = lines_end L \<and>
      (\<forall>s b. fst (vm_bind dev s b) = 0)"
    note h1 = conjunct1 [OF h] and r1 = conjunct2 [OF h]
    note h2 = conjunct1 [OF r1] and r2 = conjunct2 [OF r1]
    note h3 = conjunct1 [OF r2] and r3 = conjunct2 [OF r2]
    note h4 = conjunct1 [OF r3] and r4 = conjunct2 [OF r3]
    note h5 = conjunct1 [OF r4] and h6 = conjunct2 [OF r4]
    show "\<exists>v1 v2 ops ops'.
         anv_sparse_bind_image_memory True dev img req w = Some (VK_SUCCESS, v1) \<and>
         anv_sparse_bind_image_memory True dev img (req\<lparr>img_memory := None\<rparr>) v1 =
           Some (VK_SUCCESS, v2) \<and>
         calls v1 = calls w @ map Call_vm_bind ops \<and>
         calls v2 = calls v1 @ map Call_vm_bind ops' \<and>
         length ops = k * m \<and>
         map bind_address ops' = map bind_address ops \<and>
         map bind_size ops' = map bind_size ops \<and>
         (\<forall>b \<in> set ops. bind_op b = ANV_VM_BIND) \<and>
         (\<forall>b \<in> set ops'. bind_op b = ANV_VM_BIND \<and> bind_bo b = None \<and>
            bind_bo_offset b = 0)"
      by (rule image_bind_unbind_release [OF h1 h2 h3 h4 h5 h6])
  qed
qed

theorem bind_then_unbind_witness:
  "(\<exists>b'. vk_bind_to_anv_vm_bind False ex_sparse (ex_opaque\<lparr>memory := None\<rparr>) = Some b' \<and>
      bind_address b' =
        bind_address \<lparr>bind_bo = Some \<lparr>gem_handle = 1, bo_size = 262144\<rparr>,
                       bind_address = 1114112, bind_bo_offset = 0, bind_size = 65536,
                       bind_op = ANV_VM_BIND\<rparr> \<and>
      bind_size b' =
        bind_size \<lparr>bind_bo = Some \<lparr>gem_handle = 1, bo_size = 262144\<rparr>,
                    bind_address = 1114112, bind_bo_offset = 0, bind_size = 65536,
                    bind_op = ANV_VM_BIND\<rparr> \<and>
      bind_op \<lparr>bind_bo = Some \<lparr>gem_handle = 1, bo_size = 262144\<rparr>,
               bind_address = 1114112, bind_bo_offset = 0, bind_size = 65536,
               bind_op = ANV_VM_BIND\<rparr> = ANV_VM_BIND \<and>
      bind_op b' = ANV_VM_BIND \<and> bind_bo b' = None \<and> bind_bo_offset b' = 0) \<and>
   (\<exists>ops ops'. calls ex_world_bound = calls ex_world @ map Call_vm_bind ops \<and>
         calls ex_world_unbound = calls ex_world_bound @ map Call_vm_bind ops' \<and>
         map bind_address ops' = map bind_address ops \<and>
         map bind_size ops' = map bind_size ops \<and>
         (\<forall>b \<in> set ops. bind_op b = ANV_VM_BIND) \<and>
         (\<forall>b \<in> set ops'. bind_op b = ANV_VM_BIND \<and> bind_bo b = None \<and>
            bind_bo_offset b = 0)) \<and>
   (\<exists>v1 v2 ops ops'.
      anv_sparse_bind_image_memory True ex_dev ex_image ex_bind ex_world =
        Some (VK_SUCCESS, v1) \<and>
      anv_sparse_bind_image_memory True ex_dev ex_image (ex_bind\<lparr>img_memory := None\<rparr>) v1 =
        Some (VK_SUCCESS, v2) \<and>
      calls v1 = calls ex_world @ map Call_vm_bind ops \<and>
      calls v2 = calls v1 @ map Call_vm_bind ops' \<and>
      length ops = 1 * 2 \<and>
      map bind_address ops' = map bind_address ops \<and>
      map bind_size ops' = map bind_size ops \<and>
      (\<forall>b \<in> set ops. bind_op b = ANV_VM_BIND) \<and>
      (\<forall>b \<in> set ops'. bind_op b = ANV_VM_BIND \<and> bind_bo b = None \<and>
         bind_bo_offset b = 0))"
proof -
  note t = bind_then_unbind [where nd = False and sparse = ex_sparse and vb = ex_opaque
      and b = "\<lparr>bind_bo = Some \<lparr>gem_handle = 1, bo_size = 262144\<rparr>, bind_address = 1114112,
        bind_bo_offset = 0, bind_size = 65536, bind_op = ANV_VM_BIND\<rparr>"
      and dev = ex_dev and img = ex_image and req = ex_bind and w = ex_world
      and ?w1.0 = ex_world_bound and ?w2.0 = ex_world_unbound
      and L = ex_locals and k = 1 and m = 2]
  note t1 = conjunct1 [OF t] and u1 = conjunct2 [OF t]
  note t3 = conjunct1 [OF conjunct2 [OF u1]] and t4 = conjunct2 [OF conjunct2 [OF u1]]
  have ok: "\<forall>s b. fst (vm_bind ex_dev s b) = 0" by (simp add: ex_dev_def)
  note p1 = mp [OF t1 ex_opaque_bind]
  note p3 = mp [OF t3 conjI [OF ex_run ex_run_null]]
  note p4 = mp [OF t4 conjI [OF image_bind_locals_mono [OF ex_locals]
      conjI [OF ex_geometry(1) conjI [OF ex_geometry(2) conjI [OF ex_geometry(4)
      conjI [OF ex_geometry(5) ok]]]]]]
  show ?thesis by (rule conjI [OF p1 conjI [OF p3 p4]])
qed

subsection \<open>What the translator checks\<close>

text \<open>
  C2, as the claim states it, fails on the opaque path: the request \<open>ex_small\<close> of 4 KiB at
  the offset 4 KiB passes every assertion and is given to the backend as it is, and neither
  its address nor its size is a multiple of \<^verbatim>\<open>ANV_SPARSE_BLOCK_SIZE\<close>.
\<close>

theorem bind_operation_checks_counterexample:
  "anv_sparse_bind_resource_memory False ex_dev ex_sparse ex_small ex_world =
     Some (VK_SUCCESS, \<lparr>calls = [Call_vm_bind ex_small_op], kstate = 1\<rparr>) \<and>
   bind_address ex_small_op mod ANV_SPARSE_BLOCK_SIZE \<noteq> 0 \<and>
   bind_size ex_small_op mod ANV_SPARSE_BLOCK_SIZE \<noteq> 0"
  by (simp add: anv_sparse_bind_resource_memory_def ex_small_bind kmd_vm_bind_def ex_dev_def
      ex_world_def)
    (simp add: ex_small_op_def ANV_SPARSE_BLOCK_SIZE_def)

text \<open>
  C2, amended. The translator of the opaque path produces the operation of the request as it
  is: always when the assertions are compiled out, and in a build that checks them exactly
  when the size is not 0, the request lies inside the VA range and, with memory, inside the
  memory object. In a build that checks its assertions, every operation that the translator
  produces has a size other than 0, lies inside the VA range of the resource, and, when it
  has a backing object, ends inside that object (the sums in 64-bit arithmetic). On the
  opaque path the operation has the offset and the size of the request: its address and
  size are multiples of \<^verbatim>\<open>ANV_SPARSE_BLOCK_SIZE\<close> when the base of the range and the offset
  and size of the request are. On the image path the offset in the range and the size are
  multiples of the block size in bytes: address and size are multiples of
  \<^verbatim>\<open>ANV_SPARSE_BLOCK_SIZE\<close> when the block has that size and the base of the range is
  aligned to it. With the assertions compiled out, the image path submits its binds
  unchecked: for a request of \<open>k\<close> slices of \<open>m\<close> lines of blocks it returns against every
  backend, each call with the size of a line and the memory object of the request.
\<close>

theorem bind_operation_checks:
  "(mb_size vb \<noteq> 0 \<and> u64 (resourceOffset vb + mb_size vb) \<le> sparse_size sparse \<and>
    (\<forall>m. memory vb = Some m \<longrightarrow>
       u64 (memoryOffset vb + mb_size vb) \<le> bo_size (mem_bo m)) \<longrightarrow>
      vk_bind_to_anv_vm_bind False sparse vb =
        Some \<lparr>bind_bo = map_option mem_bo (memory vb),
              bind_address = u64 (sparse_address sparse + resourceOffset vb),
              bind_bo_offset = (if memory vb = None then 0 else memoryOffset vb),
              bind_size = mb_size vb, bind_op = ANV_VM_BIND\<rparr>) \<and>
   vk_bind_to_anv_vm_bind True sparse vb =
     Some \<lparr>bind_bo = map_option mem_bo (memory vb),
           bind_address = u64 (sparse_address sparse + resourceOffset vb),
           bind_bo_offset = (if memory vb = None then 0 else memoryOffset vb),
           bind_size = mb_size vb, bind_op = ANV_VM_BIND\<rparr> \<and>
   (vk_bind_to_anv_vm_bind False sparse vb = Some b \<longrightarrow>
      bind_address b = u64 (sparse_address sparse + resourceOffset vb) \<and>
      bind_size b = mb_size vb \<and> bind_size b \<noteq> 0 \<and>
      u64 (resourceOffset vb + bind_size b) \<le> sparse_size sparse \<and>
      (\<forall>bo. bind_bo b = Some bo \<longrightarrow> u64 (bind_bo_offset b + bind_size b) \<le> bo_size bo) \<and>
      (sparse_address sparse mod ANV_SPARSE_BLOCK_SIZE = 0 \<and>
       resourceOffset vb mod ANV_SPARSE_BLOCK_SIZE = 0 \<and>
       mb_size vb mod ANV_SPARSE_BLOCK_SIZE = 0 \<longrightarrow>
         bind_address b mod ANV_SPARSE_BLOCK_SIZE = 0 \<and>
         bind_size b mod ANV_SPARSE_BLOCK_SIZE = 0)) \<and>
   (anv_sparse_bind_image_memory False dev img req w = Some (r, w') \<and>
    image_bind_locals False dev img req = Some L \<longrightarrow>
      (\<exists>ops. calls w' = calls w @ map Call_vm_bind ops \<and>
         (\<forall>b \<in> set ops.
            block_size_B L \<noteq> 0 \<and> bind_size b mod block_size_B L = 0 \<and> bind_size b \<noteq> 0 \<and>
            (\<exists>ro. bind_address b = u64 (sparse_address (sparse_data L) + ro) \<and>
                  ro mod block_size_B L = 0 \<and>
                  u64 (ro + bind_size b) \<le> sparse_size (sparse_data L)) \<and>
            (\<forall>bo. bind_bo b = Some bo \<longrightarrow>
               u64 (bind_bo_offset b + bind_size b) \<le> bo_size bo) \<and>
            (block_size_B L = ANV_SPARSE_BLOCK_SIZE \<and>
             sparse_address (sparse_data L) mod ANV_SPARSE_BLOCK_SIZE = 0 \<longrightarrow>
               bind_address b mod ANV_SPARSE_BLOCK_SIZE = 0 \<and>
               bind_size b mod ANV_SPARSE_BLOCK_SIZE = 0)))) \<and>
   (image_bind_locals True dev img req = Some Lr \<and>
    0 < depth (block_shape_el Lr) \<and> 0 < height (block_shape_el Lr) \<and>
    to_u32 (off_z (bind_offset_el Lr)) + k * depth (block_shape_el Lr) = slices_end Lr \<and>
    to_u32 (off_y (bind_offset_el Lr)) + m * height (block_shape_el Lr) = lines_end Lr \<longrightarrow>
      (\<exists>e v' ops. anv_sparse_bind_image_memory True dev img req w = Some (e, v') \<and>
         calls v' = calls w @ map Call_vm_bind ops \<and>
         (\<forall>b \<in> set ops. bind_size b = line_bind_size Lr \<and> bind_op b = ANV_VM_BIND \<and>
            bind_bo b = map_option mem_bo (img_memory req) \<and>
            (img_memory req = None \<longrightarrow> bind_bo_offset b = 0))))"
proof (rule conjI [OF _ conjI [OF vk_bind_to_anv_vm_bind_release conjI [OF _ conjI]]];
    rule impI)
  assume "mb_size vb \<noteq> 0 \<and> u64 (resourceOffset vb + mb_size vb) \<le> sparse_size sparse \<and>
    (\<forall>m. memory vb = Some m \<longrightarrow>
       u64 (memoryOffset vb + mb_size vb) \<le> bo_size (mem_bo m))"
  then show "vk_bind_to_anv_vm_bind False sparse vb =
        Some \<lparr>bind_bo = map_option mem_bo (memory vb),
              bind_address = u64 (sparse_address sparse + resourceOffset vb),
              bind_bo_offset = (if memory vb = None then 0 else memoryOffset vb),
              bind_size = mb_size vb, bind_op = ANV_VM_BIND\<rparr>"
    by (elim conjE) (rule vk_bind_checked_returns)
next
  assume a: "vk_bind_to_anv_vm_bind False sparse vb = Some b"
  note v = vk_bind_to_anv_vm_bind_Some [OF a]
  have bo: "u64 (bind_bo_offset b + bind_size b) \<le> bo_size bo" if "bind_bo b = Some bo" for bo
  proof -
    from that v(1) obtain m where m: "memory vb = Some m" "bo = mem_bo m"
      by (cases "memory vb") auto
    with v(1) v(4) [OF _ m(1)] show ?thesis by simp
  qed
  have al: "bind_address b mod ANV_SPARSE_BLOCK_SIZE = 0 \<and>
         bind_size b mod ANV_SPARSE_BLOCK_SIZE = 0"
    if "sparse_address sparse mod ANV_SPARSE_BLOCK_SIZE = 0 \<and>
       resourceOffset vb mod ANV_SPARSE_BLOCK_SIZE = 0 \<and>
       mb_size vb mod ANV_SPARSE_BLOCK_SIZE = 0"
  proof -
    have "(sparse_address sparse + resourceOffset vb) mod ANV_SPARSE_BLOCK_SIZE = 0"
      using that by (simp add: mod_add_zero)
    with that v(1) show ?thesis by (simp add: u64_mod_block)
  qed
  from v(1) v(2) v(3) bo al
  show "bind_address b = u64 (sparse_address sparse + resourceOffset vb) \<and>
      bind_size b = mb_size vb \<and> bind_size b \<noteq> 0 \<and>
      u64 (resourceOffset vb + bind_size b) \<le> sparse_size sparse \<and>
      (\<forall>bo. bind_bo b = Some bo \<longrightarrow> u64 (bind_bo_offset b + bind_size b) \<le> bo_size bo) \<and>
      (sparse_address sparse mod ANV_SPARSE_BLOCK_SIZE = 0 \<and>
       resourceOffset vb mod ANV_SPARSE_BLOCK_SIZE = 0 \<and>
       mb_size vb mod ANV_SPARSE_BLOCK_SIZE = 0 \<longrightarrow>
         bind_address b mod ANV_SPARSE_BLOCK_SIZE = 0 \<and>
         bind_size b mod ANV_SPARSE_BLOCK_SIZE = 0)"
    by simp
next
  assume "anv_sparse_bind_image_memory False dev img req w = Some (r, w') \<and>
    image_bind_locals False dev img req = Some L"
  then have a: "anv_sparse_bind_image_memory False dev img req w = Some (r, w')"
    and L: "image_bind_locals False dev img req = Some L"
    by simp_all
  from image_bind_SomeD [OF a] L obtain bss res where
    s: "slices_run False dev req L (to_u32 (off_z (bind_offset_el L))) (img_memoryOffset req) w
          bss res"
    and w': "w' = loop_world res"
    by auto
  note t = slices_run_trace [OF s] and c = slices_run_checked [OF s]
  have al: "bind_address b mod ANV_SPARSE_BLOCK_SIZE = 0 \<and>
            bind_size b mod ANV_SPARSE_BLOCK_SIZE = 0"
    if b: "b \<in> set (concat bss)" and e: "block_size_B L = ANV_SPARSE_BLOCK_SIZE"
      and base: "sparse_address (sparse_data L) mod ANV_SPARSE_BLOCK_SIZE = 0" for b
  proof -
    note cb = bspec [OF c b]
    have sz: "bind_size b mod block_size_B L = 0"
      by (rule conjunct1 [OF conjunct2 [OF cb]])
    have "\<exists>ro. bind_address b = u64 (sparse_address (sparse_data L) + ro) \<and>
                  ro mod block_size_B L = 0 \<and>
                  u64 (ro + bind_size b) \<le> sparse_size (sparse_data L)"
      by (rule conjunct1 [OF conjunct2 [OF conjunct2 [OF conjunct2 [OF cb]]]])
    then obtain ro where ro: "bind_address b = u64 (sparse_address (sparse_data L) + ro)"
      "ro mod block_size_B L = 0"
      by (elim exE conjE)
    have "(sparse_address (sparse_data L) + ro) mod ANV_SPARSE_BLOCK_SIZE = 0"
      using ro(2) base e by (simp add: mod_add_zero)
    with ro(1) sz e show ?thesis by (simp add: u64_mod_block)
  qed
  have cw: "calls w' = calls w @ map Call_vm_bind (concat bss)"
    using t w' by (simp add: trace_of_def)
  have each: "\<forall>b \<in> set (concat bss).
            block_size_B L \<noteq> 0 \<and> bind_size b mod block_size_B L = 0 \<and> bind_size b \<noteq> 0 \<and>
            (\<exists>ro. bind_address b = u64 (sparse_address (sparse_data L) + ro) \<and>
                  ro mod block_size_B L = 0 \<and>
                  u64 (ro + bind_size b) \<le> sparse_size (sparse_data L)) \<and>
            (\<forall>bo. bind_bo b = Some bo \<longrightarrow>
               u64 (bind_bo_offset b + bind_size b) \<le> bo_size bo) \<and>
            (block_size_B L = ANV_SPARSE_BLOCK_SIZE \<and>
             sparse_address (sparse_data L) mod ANV_SPARSE_BLOCK_SIZE = 0 \<longrightarrow>
               bind_address b mod ANV_SPARSE_BLOCK_SIZE = 0 \<and>
               bind_size b mod ANV_SPARSE_BLOCK_SIZE = 0)"
  proof (rule ballI)
    fix b assume b: "b \<in> set (concat bss)"
    note cb = bspec [OF c b]
    have f: "block_size_B L = ANV_SPARSE_BLOCK_SIZE \<and>
             sparse_address (sparse_data L) mod ANV_SPARSE_BLOCK_SIZE = 0 \<longrightarrow>
               bind_address b mod ANV_SPARSE_BLOCK_SIZE = 0 \<and>
               bind_size b mod ANV_SPARSE_BLOCK_SIZE = 0"
      using al [OF b] by simp
    show "block_size_B L \<noteq> 0 \<and> bind_size b mod block_size_B L = 0 \<and> bind_size b \<noteq> 0 \<and>
            (\<exists>ro. bind_address b = u64 (sparse_address (sparse_data L) + ro) \<and>
                  ro mod block_size_B L = 0 \<and>
                  u64 (ro + bind_size b) \<le> sparse_size (sparse_data L)) \<and>
            (\<forall>bo. bind_bo b = Some bo \<longrightarrow>
               u64 (bind_bo_offset b + bind_size b) \<le> bo_size bo) \<and>
            (block_size_B L = ANV_SPARSE_BLOCK_SIZE \<and>
             sparse_address (sparse_data L) mod ANV_SPARSE_BLOCK_SIZE = 0 \<longrightarrow>
               bind_address b mod ANV_SPARSE_BLOCK_SIZE = 0 \<and>
               bind_size b mod ANV_SPARSE_BLOCK_SIZE = 0)"
      by (rule conjI [OF conjunct1 [OF cb] conjI [OF conjunct1 [OF conjunct2 [OF cb]]
            conjI [OF conjunct1 [OF conjunct2 [OF conjunct2 [OF cb]]]
              conjI [OF conjunct1 [OF conjunct2 [OF conjunct2 [OF conjunct2 [OF cb]]]]
                conjI [OF conjunct2 [OF conjunct2 [OF conjunct2 [OF conjunct2 [OF cb]]]] f]]]]])
  qed
  show "\<exists>ops. calls w' = calls w @ map Call_vm_bind ops \<and>
         (\<forall>b \<in> set ops.
            block_size_B L \<noteq> 0 \<and> bind_size b mod block_size_B L = 0 \<and> bind_size b \<noteq> 0 \<and>
            (\<exists>ro. bind_address b = u64 (sparse_address (sparse_data L) + ro) \<and>
                  ro mod block_size_B L = 0 \<and>
                  u64 (ro + bind_size b) \<le> sparse_size (sparse_data L)) \<and>
            (\<forall>bo. bind_bo b = Some bo \<longrightarrow>
               u64 (bind_bo_offset b + bind_size b) \<le> bo_size bo) \<and>
            (block_size_B L = ANV_SPARSE_BLOCK_SIZE \<and>
             sparse_address (sparse_data L) mod ANV_SPARSE_BLOCK_SIZE = 0 \<longrightarrow>
               bind_address b mod ANV_SPARSE_BLOCK_SIZE = 0 \<and>
               bind_size b mod ANV_SPARSE_BLOCK_SIZE = 0))"
    by (rule exI [of _ "concat bss"]) (rule conjI [OF cw each])
next
  assume h: "image_bind_locals True dev img req = Some Lr \<and>
    0 < depth (block_shape_el Lr) \<and> 0 < height (block_shape_el Lr) \<and>
    to_u32 (off_z (bind_offset_el Lr)) + k * depth (block_shape_el Lr) = slices_end Lr \<and>
    to_u32 (off_y (bind_offset_el Lr)) + m * height (block_shape_el Lr) = lines_end Lr"
  note h1 = conjunct1 [OF h] and r1 = conjunct2 [OF h]
  note h2 = conjunct1 [OF r1] and r2 = conjunct2 [OF r1]
  note h3 = conjunct1 [OF r2] and r3 = conjunct2 [OF r2]
  note h4 = conjunct1 [OF r3] and h5 = conjunct2 [OF r3]
  show "\<exists>e v' ops. anv_sparse_bind_image_memory True dev img req w = Some (e, v') \<and>
         calls v' = calls w @ map Call_vm_bind ops \<and>
         (\<forall>b \<in> set ops. bind_size b = line_bind_size Lr \<and> bind_op b = ANV_VM_BIND \<and>
            bind_bo b = map_option mem_bo (img_memory req) \<and>
            (img_memory req = None \<longrightarrow> bind_bo_offset b = 0))"
    by (rule image_bind_release_binds [OF h1 h2 h3 h4 h5])
qed

theorem bind_operation_checks_witness:
  "vk_bind_to_anv_vm_bind False ex_sparse ex_opaque =
     Some \<lparr>bind_bo = map_option mem_bo (memory ex_opaque),
           bind_address = u64 (sparse_address ex_sparse + resourceOffset ex_opaque),
           bind_bo_offset = (if memory ex_opaque = None then 0 else memoryOffset ex_opaque),
           bind_size = mb_size ex_opaque, bind_op = ANV_VM_BIND\<rparr> \<and>
   (bind_address \<lparr>bind_bo = Some \<lparr>gem_handle = 1, bo_size = 262144\<rparr>, bind_address = 1114112,
                   bind_bo_offset = 0, bind_size = 65536, bind_op = ANV_VM_BIND\<rparr>
      mod ANV_SPARSE_BLOCK_SIZE = 0 \<and>
    bind_size \<lparr>bind_bo = Some \<lparr>gem_handle = 1, bo_size = 262144\<rparr>, bind_address = 1114112,
                bind_bo_offset = 0, bind_size = 65536, bind_op = ANV_VM_BIND\<rparr>
      mod ANV_SPARSE_BLOCK_SIZE = 0) \<and>
   (\<exists>ops. calls ex_world_bound = calls ex_world @ map Call_vm_bind ops \<and>
      (\<forall>b \<in> set ops. bind_address b mod ANV_SPARSE_BLOCK_SIZE = 0 \<and>
         bind_size b mod ANV_SPARSE_BLOCK_SIZE = 0 \<and> bind_size b \<noteq> 0 \<and>
         (\<forall>bo. bind_bo b = Some bo \<longrightarrow>
            u64 (bind_bo_offset b + bind_size b) \<le> bo_size bo))) \<and>
   (\<exists>e v' ops. anv_sparse_bind_image_memory True ex_dev ex_image ex_bind ex_world =
        Some (e, v') \<and>
      calls v' = calls ex_world @ map Call_vm_bind ops \<and>
      (\<forall>b \<in> set ops. bind_size b = line_bind_size ex_locals \<and> bind_op b = ANV_VM_BIND \<and>
         bind_bo b = map_option mem_bo (img_memory ex_bind) \<and>
         (img_memory ex_bind = None \<longrightarrow> bind_bo_offset b = 0)))"
proof -
  note t = bind_operation_checks [where sparse = ex_sparse and vb = ex_opaque
      and b = "\<lparr>bind_bo = Some \<lparr>gem_handle = 1, bo_size = 262144\<rparr>, bind_address = 1114112,
                bind_bo_offset = 0, bind_size = 65536, bind_op = ANV_VM_BIND\<rparr>"
      and dev = ex_dev and img = ex_image and req = ex_bind and w = ex_world
      and r = VK_SUCCESS and w' = ex_world_bound and L = ex_locals
      and Lr = ex_locals and k = 1 and m = 2]
  note p = mp [OF conjunct1 [OF conjunct2 [OF conjunct2 [OF t]]] ex_opaque_bind]
  note q = mp [OF conjunct1 [OF conjunct2 [OF conjunct2 [OF conjunct2 [OF t]]]]
      conjI [OF ex_run ex_locals]]
  note rl = mp [OF conjunct2 [OF conjunct2 [OF conjunct2 [OF conjunct2 [OF t]]]]
      conjI [OF image_bind_locals_mono [OF ex_locals] conjI [OF ex_geometry(1)
      conjI [OF ex_geometry(2) conjI [OF ex_geometry(4) ex_geometry(5)]]]]]
  have ck: "mb_size ex_opaque \<noteq> 0 \<and>
      u64 (resourceOffset ex_opaque + mb_size ex_opaque) \<le> sparse_size ex_sparse \<and>
      (\<forall>m. memory ex_opaque = Some m \<longrightarrow>
         u64 (memoryOffset ex_opaque + mb_size ex_opaque) \<le> bo_size (mem_bo m))"
    by (simp add: ex_opaque_def ex_sparse_def ex_mem_def u64_def)
  note o = mp [OF conjunct1 [OF t] ck]
  have al: "sparse_address ex_sparse mod ANV_SPARSE_BLOCK_SIZE = 0 \<and>
      resourceOffset ex_opaque mod ANV_SPARSE_BLOCK_SIZE = 0 \<and>
      mb_size ex_opaque mod ANV_SPARSE_BLOCK_SIZE = 0"
    by (simp add: ex_sparse_def ex_opaque_def ANV_SPARSE_BLOCK_SIZE_def)
  note p' = mp [OF conjunct2 [OF conjunct2 [OF conjunct2 [OF conjunct2 [OF conjunct2 [OF p]]]]]
      al]
  have bl: "block_size_B ex_locals = ANV_SPARSE_BLOCK_SIZE \<and>
      sparse_address (sparse_data ex_locals) mod ANV_SPARSE_BLOCK_SIZE = 0"
    by (simp add: ex_locals_def ex_sparse_def ANV_SPARSE_BLOCK_SIZE_def)
  from q obtain ops where c: "calls ex_world_bound = calls ex_world @ map Call_vm_bind ops"
    and e: "\<forall>b \<in> set ops.
            block_size_B ex_locals \<noteq> 0 \<and> bind_size b mod block_size_B ex_locals = 0 \<and>
            bind_size b \<noteq> 0 \<and>
            (\<exists>ro. bind_address b = u64 (sparse_address (sparse_data ex_locals) + ro) \<and>
                  ro mod block_size_B ex_locals = 0 \<and>
                  u64 (ro + bind_size b) \<le> sparse_size (sparse_data ex_locals)) \<and>
            (\<forall>bo. bind_bo b = Some bo \<longrightarrow>
               u64 (bind_bo_offset b + bind_size b) \<le> bo_size bo) \<and>
            (block_size_B ex_locals = ANV_SPARSE_BLOCK_SIZE \<and>
             sparse_address (sparse_data ex_locals) mod ANV_SPARSE_BLOCK_SIZE = 0 \<longrightarrow>
               bind_address b mod ANV_SPARSE_BLOCK_SIZE = 0 \<and>
               bind_size b mod ANV_SPARSE_BLOCK_SIZE = 0)"
    by (elim exE conjE)
  have "\<forall>b \<in> set ops. bind_address b mod ANV_SPARSE_BLOCK_SIZE = 0 \<and>
         bind_size b mod ANV_SPARSE_BLOCK_SIZE = 0 \<and> bind_size b \<noteq> 0 \<and>
         (\<forall>bo. bind_bo b = Some bo \<longrightarrow>
            u64 (bind_bo_offset b + bind_size b) \<le> bo_size bo)"
  proof (rule ballI)
    fix b assume "b \<in> set ops"
    note eb = bspec [OF e this]
    note e3 = conjunct1 [OF conjunct2 [OF conjunct2 [OF eb]]]
    note e5 = conjunct1 [OF conjunct2 [OF conjunct2 [OF conjunct2 [OF conjunct2 [OF eb]]]]]
    note e6 = mp [OF conjunct2 [OF conjunct2 [OF conjunct2 [OF conjunct2 [OF conjunct2 [OF eb]]]]]
        bl]
    show "bind_address b mod ANV_SPARSE_BLOCK_SIZE = 0 \<and>
         bind_size b mod ANV_SPARSE_BLOCK_SIZE = 0 \<and> bind_size b \<noteq> 0 \<and>
         (\<forall>bo. bind_bo b = Some bo \<longrightarrow>
            u64 (bind_bo_offset b + bind_size b) \<le> bo_size bo)"
      by (rule conjI [OF conjunct1 [OF e6] conjI [OF conjunct2 [OF e6] conjI [OF e3 e5]]])
  qed
  with c have "\<exists>ops. calls ex_world_bound = calls ex_world @ map Call_vm_bind ops \<and>
      (\<forall>b \<in> set ops. bind_address b mod ANV_SPARSE_BLOCK_SIZE = 0 \<and>
         bind_size b mod ANV_SPARSE_BLOCK_SIZE = 0 \<and> bind_size b \<noteq> 0 \<and>
         (\<forall>bo. bind_bo b = Some bo \<longrightarrow>
            u64 (bind_bo_offset b + bind_size b) \<le> bo_size bo))"
    by (intro exI conjI)
  with p' have "(bind_address \<lparr>bind_bo = Some \<lparr>gem_handle = 1, bo_size = 262144\<rparr>,
                   bind_address = 1114112,
                   bind_bo_offset = 0, bind_size = 65536, bind_op = ANV_VM_BIND\<rparr>
      mod ANV_SPARSE_BLOCK_SIZE = 0 \<and>
    bind_size \<lparr>bind_bo = Some \<lparr>gem_handle = 1, bo_size = 262144\<rparr>, bind_address = 1114112,
                bind_bo_offset = 0, bind_size = 65536, bind_op = ANV_VM_BIND\<rparr>
      mod ANV_SPARSE_BLOCK_SIZE = 0) \<and>
   (\<exists>ops. calls ex_world_bound = calls ex_world @ map Call_vm_bind ops \<and>
      (\<forall>b \<in> set ops. bind_address b mod ANV_SPARSE_BLOCK_SIZE = 0 \<and>
         bind_size b mod ANV_SPARSE_BLOCK_SIZE = 0 \<and> bind_size b \<noteq> 0 \<and>
         (\<forall>bo. bind_bo b = Some bo \<longrightarrow>
            u64 (bind_bo_offset b + bind_size b) \<le> bo_size bo)))"
    by (rule conjI)
  note mid = conjI [OF conjunct1 [OF this] conjI [OF conjunct2 [OF this] rl]]
  show ?thesis by (rule conjI [OF o mid])
qed


subsection \<open>The binds of a whole request\<close>



end
